theory Spec2Isabelle
  imports Main "HOL-Library.Word"
begin

unbundle bit_operations_syntax

section \<open>Outcomes\<close>

text \<open>
  A Go function of the package either returns a value, returns an \<open>error\<close>, or panics.
  \<open>Failure\<close> is a returned error and \<open>Fatal\<close> a panic. The text carried is the constant
  part of the message: the field path and the wording, without the values that
  \<open>fmt.Errorf\<close> interpolates.
\<close>

datatype error = Failure string | Fatal string

type_synonym 'a result = "error + 'a"

fun is_panic :: "'a result \<Rightarrow> bool" where
  "is_panic (Inl (Fatal _)) = True"
| "is_panic _ = False"

fun is_error :: "'a result \<Rightarrow> bool" where
  "is_error (Inl (Failure _)) = True"
| "is_error _ = False"

fun is_ok :: "'a result \<Rightarrow> bool" where
  "is_ok (Inr _) = True"
| "is_ok _ = False"

type_synonym byte = "8 word"
type_synonym uint16 = "16 word"
type_synonym int64 = "64 word"
type_synonym uint64 = "64 word"

section \<open>Library functions of Go used by the package\<close>

text \<open>
  Strings are byte sequences, as in Go. The functions of this section are the ones of
  the Go standard library that the package calls (\<open>strings\<close>, \<open>strconv\<close>, \<open>fmt\<close>,
  \<open>encoding/hex\<close>, \<open>path\<close>), written out from their documentation.
\<close>

definition HasSuffix :: "string \<Rightarrow> string \<Rightarrow> bool" where
  "HasSuffix s suffix = (length suffix \<le> length s \<and> drop (length s - length suffix) s = suffix)"

text \<open>\<open>strings.TrimRight(s, cutset)\<close>: drop every trailing byte that is in the cutset.\<close>

definition TrimRight :: "string \<Rightarrow> string \<Rightarrow> string" where
  "TrimRight s cutset = rev (dropWhile (\<lambda>c. c \<in> set cutset) (rev s))"

definition upper_chars :: string where
  "upper_chars = ''ABCDEFGHIJKLMNOPQRSTUVWXYZ''"

definition lower_chars :: string where
  "lower_chars = ''abcdefghijklmnopqrstuvwxyz''"

text \<open>The ASCII letters: an upper-case letter gives its lower-case letter, any other byte itself.\<close>

definition lower_char :: "char \<Rightarrow> char" where
  "lower_char c = (case map_of (zip upper_chars lower_chars) c of Some d \<Rightarrow> d | None \<Rightarrow> c)"

text \<open>
  \<open>for _, ch := range str\<close>, also the loop of \<open>strings.Map\<close>, decodes UTF-8: a
  well-formed sequence of one to four bytes gives its code point, and any other byte gives
  the replacement rune \<open>U+FFFD\<close> and is skipped alone.
\<close>

definition cont_byte :: "nat \<Rightarrow> bool" where
  "cont_byte b = (128 \<le> b \<and> b \<le> 191)"

definition second_ok :: "nat \<Rightarrow> nat \<Rightarrow> bool" where
  "second_ok b0 b1 =
     (if b0 = 224 then 160 \<le> b1 \<and> b1 \<le> 191
      else if b0 = 237 then 128 \<le> b1 \<and> b1 \<le> 159
      else if b0 = 240 then 144 \<le> b1 \<and> b1 \<le> 191
      else if b0 = 244 then 128 \<le> b1 \<and> b1 \<le> 143
      else cont_byte b1)"

fun runes :: "string \<Rightarrow> nat list" where
  "runes [] = []"
| "runes (c # cs) =
     (let b0 = (of_char c :: nat); bs = map of_char (take 3 cs) in
      if b0 < 128 then b0 # runes cs
      else if 194 \<le> b0 \<and> b0 \<le> 223 \<and> 1 \<le> length bs \<and> cont_byte (bs ! 0)
        then ((b0 - 192) * 64 + (bs ! 0 - 128)) # runes (drop 1 cs)
      else if 224 \<le> b0 \<and> b0 \<le> 239 \<and> 2 \<le> length bs \<and> second_ok b0 (bs ! 0)
              \<and> cont_byte (bs ! 1)
        then ((b0 - 224) * 4096 + (bs ! 0 - 128) * 64 + (bs ! 1 - 128)) # runes (drop 2 cs)
      else if 240 \<le> b0 \<and> b0 \<le> 244 \<and> 3 \<le> length bs \<and> second_ok b0 (bs ! 0)
              \<and> cont_byte (bs ! 1) \<and> cont_byte (bs ! 2)
        then ((b0 - 240) * 262144 + (bs ! 0 - 128) * 4096 + (bs ! 1 - 128) * 64 + (bs ! 2 - 128))
               # runes (drop 3 cs)
      else 65533 # runes cs)"

text \<open>
  \<open>utf8.AppendRune\<close>: the UTF-8 bytes of a rune, those of \<open>U+FFFD\<close> for a surrogate or a
  number above \<open>U+10FFFF\<close>.
\<close>

definition EncodeRune :: "nat \<Rightarrow> string" where
  "EncodeRune r =
     (if r < 128 then [char_of r]
      else if r < 2048 then [char_of (192 + r div 64), char_of (128 + r mod 64)]
      else if (55296 \<le> r \<and> r \<le> 57343) \<or> 1114111 < r
        then [char_of (239::nat), char_of (191::nat), char_of (189::nat)]
      else if r < 65536
        then [char_of (224 + r div 4096), char_of (128 + r div 64 mod 64), char_of (128 + r mod 64)]
      else [char_of (240 + r div 262144), char_of (128 + r div 4096 mod 64),
            char_of (128 + r div 64 mod 64), char_of (128 + r mod 64)])"

text \<open>
  The lower-case mappings of \<open>unicode.ToLower\<close> above ASCII, which are the simple lower-case
  mappings of the Unicode Character Database (version 14.0). A row \<open>(lo, hi, step, low)\<close>
  maps the runes \<open>lo\<close>, \<open>lo + step\<close>, ... up to \<open>hi\<close>, the rune \<open>lo + k\<close> to \<open>low + k\<close>. Two rows
  lead into ASCII: \<open>U+0130\<close> to \<open>i\<close> and the Kelvin sign \<open>U+212A\<close> to \<open>k\<close>.
\<close>

definition lower_ranges :: "(nat \<times> nat \<times> nat \<times> nat) list" where
  "lower_ranges =
     [(192, 214, 1, 224), (216, 222, 1, 248), (256, 302, 2, 257), (304, 304, 1, 105),
      (306, 310, 2, 307), (313, 327, 2, 314), (330, 374, 2, 331), (376, 376, 1, 255),
      (377, 381, 2, 378), (385, 385, 1, 595), (386, 388, 2, 387), (390, 390, 1, 596),
      (391, 391, 1, 392), (393, 394, 1, 598), (395, 395, 1, 396), (398, 398, 1, 477),
      (399, 399, 1, 601), (400, 400, 1, 603), (401, 401, 1, 402), (403, 403, 1, 608),
      (404, 404, 1, 611), (406, 406, 1, 617), (407, 407, 1, 616), (408, 408, 1, 409),
      (412, 412, 1, 623), (413, 413, 1, 626), (415, 415, 1, 629), (416, 420, 2, 417),
      (422, 422, 1, 640), (423, 423, 1, 424), (425, 425, 1, 643), (428, 428, 1, 429),
      (430, 430, 1, 648), (431, 431, 1, 432), (433, 434, 1, 650), (435, 437, 2, 436),
      (439, 439, 1, 658), (440, 440, 1, 441), (444, 444, 1, 445), (452, 452, 1, 454),
      (453, 453, 1, 454), (455, 455, 1, 457), (456, 456, 1, 457), (458, 458, 1, 460),
      (459, 475, 2, 460), (478, 494, 2, 479), (497, 497, 1, 499), (498, 500, 2, 499),
      (502, 502, 1, 405), (503, 503, 1, 447), (504, 542, 2, 505), (544, 544, 1, 414),
      (546, 562, 2, 547), (570, 570, 1, 11365), (571, 571, 1, 572), (573, 573, 1, 410),
      (574, 574, 1, 11366), (577, 577, 1, 578), (579, 579, 1, 384), (580, 580, 1, 649),
      (581, 581, 1, 652), (582, 590, 2, 583), (880, 882, 2, 881), (886, 886, 1, 887),
      (895, 895, 1, 1011), (902, 902, 1, 940), (904, 906, 1, 941), (908, 908, 1, 972),
      (910, 911, 1, 973), (913, 929, 1, 945), (931, 939, 1, 963), (975, 975, 1, 983),
      (984, 1006, 2, 985), (1012, 1012, 1, 952), (1015, 1015, 1, 1016), (1017, 1017, 1, 1010),
      (1018, 1018, 1, 1019), (1021, 1023, 1, 891), (1024, 1039, 1, 1104), (1040, 1071, 1, 1072),
      (1120, 1152, 2, 1121), (1162, 1214, 2, 1163), (1216, 1216, 1, 1231), (1217, 1229, 2, 1218),
      (1232, 1326, 2, 1233), (1329, 1366, 1, 1377), (4256, 4293, 1, 11520),
      (4295, 4295, 1, 11559), (4301, 4301, 1, 11565), (5024, 5103, 1, 43888),
      (5104, 5109, 1, 5112), (7312, 7354, 1, 4304), (7357, 7359, 1, 4349), (7680, 7828, 2, 7681),
      (7838, 7838, 1, 223), (7840, 7934, 2, 7841), (7944, 7951, 1, 7936), (7960, 7965, 1, 7952),
      (7976, 7983, 1, 7968), (7992, 7999, 1, 7984), (8008, 8013, 1, 8000), (8025, 8031, 2, 8017),
      (8040, 8047, 1, 8032), (8072, 8079, 1, 8064), (8088, 8095, 1, 8080), (8104, 8111, 1, 8096),
      (8120, 8121, 1, 8112), (8122, 8123, 1, 8048), (8124, 8124, 1, 8115), (8136, 8139, 1, 8050),
      (8140, 8140, 1, 8131), (8152, 8153, 1, 8144), (8154, 8155, 1, 8054), (8168, 8169, 1, 8160),
      (8170, 8171, 1, 8058), (8172, 8172, 1, 8165), (8184, 8185, 1, 8056), (8186, 8187, 1, 8060),
      (8188, 8188, 1, 8179), (8486, 8486, 1, 969), (8490, 8490, 1, 107), (8491, 8491, 1, 229),
      (8498, 8498, 1, 8526), (8544, 8559, 1, 8560), (8579, 8579, 1, 8580), (9398, 9423, 1, 9424),
      (11264, 11311, 1, 11312), (11360, 11360, 1, 11361), (11362, 11362, 1, 619),
      (11363, 11363, 1, 7549), (11364, 11364, 1, 637), (11367, 11371, 2, 11368),
      (11373, 11373, 1, 593), (11374, 11374, 1, 625), (11375, 11375, 1, 592),
      (11376, 11376, 1, 594), (11378, 11378, 1, 11379), (11381, 11381, 1, 11382),
      (11390, 11391, 1, 575), (11392, 11490, 2, 11393), (11499, 11501, 2, 11500),
      (11506, 11506, 1, 11507), (42560, 42604, 2, 42561), (42624, 42650, 2, 42625),
      (42786, 42798, 2, 42787), (42802, 42862, 2, 42803), (42873, 42875, 2, 42874),
      (42877, 42877, 1, 7545), (42878, 42886, 2, 42879), (42891, 42891, 1, 42892),
      (42893, 42893, 1, 613), (42896, 42898, 2, 42897), (42902, 42920, 2, 42903),
      (42922, 42922, 1, 614), (42923, 42923, 1, 604), (42924, 42924, 1, 609),
      (42925, 42925, 1, 620), (42926, 42926, 1, 618), (42928, 42928, 1, 670),
      (42929, 42929, 1, 647), (42930, 42930, 1, 669), (42931, 42931, 1, 43859),
      (42932, 42946, 2, 42933), (42948, 42948, 1, 42900), (42949, 42949, 1, 642),
      (42950, 42950, 1, 7566), (42951, 42953, 2, 42952), (42960, 42960, 1, 42961),
      (42966, 42968, 2, 42967), (42997, 42997, 1, 42998), (65313, 65338, 1, 65345),
      (66560, 66599, 1, 66600), (66736, 66771, 1, 66776), (66928, 66938, 1, 66967),
      (66940, 66954, 1, 66979), (66956, 66962, 1, 66995), (66964, 66965, 1, 67003),
      (68736, 68786, 1, 68800), (71840, 71871, 1, 71872), (93760, 93791, 1, 93792),
      (125184, 125217, 1, 125218)]"

definition in_range :: "nat \<Rightarrow> nat \<times> nat \<times> nat \<times> nat \<Rightarrow> bool" where
  "in_range r row = (case row of (lo, hi, step, low) \<Rightarrow> lo \<le> r \<and> r \<le> hi \<and> (r - lo) mod step = 0)"

definition unicode_ToLower :: "nat \<Rightarrow> nat" where
  "unicode_ToLower r =
     (if r \<le> 127 then (if 65 \<le> r \<and> r \<le> 90 then r + 32 else r)
      else case List.find (in_range r) lower_ranges of
             Some (lo, hi, step, low) \<Rightarrow> low + (r - lo)
           | None \<Rightarrow> r)"

text \<open>
  \<open>strings.ToLower\<close>: a string of ASCII bytes has its upper-case letters replaced; any
  other string goes through \<open>strings.Map(unicode.ToLower, s)\<close>, which decodes the runes,
  maps each one and encodes the results (a byte that is not part of a well-formed sequence
  comes out as \<open>U+FFFD\<close>).
\<close>

definition ToLower :: "string \<Rightarrow> string" where
  "ToLower s =
     (if list_all (\<lambda>c. (of_char c :: nat) < 128) s then map lower_char s
      else concat (map (\<lambda>r. EncodeRune (unicode_ToLower r)) (runes s)))"

definition digit_char :: "nat \<Rightarrow> char" where
  "digit_char d = ''0123456789abcdef'' ! d"

fun dec_digits :: "nat \<Rightarrow> string" where
  "dec_digits n = (if n < 10 then [digit_char n] else dec_digits (n div 10) @ [digit_char (n mod 10)])"

declare dec_digits.simps [simp del]

text \<open>\<open>strconv.FormatInt(i, 10)\<close>, which is also what the verb \<open>%d\<close> prints.\<close>

definition FormatInt :: "int \<Rightarrow> string" where
  "FormatInt i = (if i < 0 then CHR ''-'' # dec_digits (nat (- i)) else dec_digits (nat i))"

text \<open>The value of a digit or letter in \<open>strconv.ParseUint\<close>; \<open>None\<close> for any other byte.\<close>

definition digit_val :: "char \<Rightarrow> nat option" where
  "digit_val c =
     (case map_of (zip ''0123456789'' [0 ..< 10]) c of
        Some d \<Rightarrow> Some d
      | None \<Rightarrow> map_of (zip lower_chars [10 ..< 36]) (lower_char c))"

fun parse_digits :: "nat \<Rightarrow> nat \<Rightarrow> string \<Rightarrow> nat option" where
  "parse_digits base acc [] = Some acc"
| "parse_digits base acc (c # cs) =
     (case digit_val c of
        None \<Rightarrow> None
      | Some d \<Rightarrow> if d \<ge> base then None else parse_digits base (acc * base + d) cs)"

text \<open>
  \<open>strconv.ParseUint(s, base, bitSize)\<close> for an explicit base (8 or 10 here: no prefix, no
  underscores): \<open>None\<close> stands for any error, a syntax error or a value out of range.
\<close>

definition ParseUint :: "string \<Rightarrow> nat \<Rightarrow> nat \<Rightarrow> nat option" where
  "ParseUint s base bitSize =
     (if s = [] then None
      else case parse_digits base 0 s of
             None \<Rightarrow> None
           | Some n \<Rightarrow> if n < 2 ^ bitSize then Some n else None)"

text \<open>
  \<open>strconv.ParseInt(s, 10, 0)\<close>: an optional sign, then decimal digits; bit size 0 is the
  size of \<open>int\<close>, 64 bits. \<open>None\<close> stands for any error.
\<close>

definition signed_value :: "bool \<Rightarrow> string \<Rightarrow> int option" where
  "signed_value neg body =
     (if body = [] then None
      else case parse_digits 10 0 body of
             None \<Rightarrow> None
           | Some un \<Rightarrow>
               if \<not> neg \<and> un \<ge> 2 ^ 63 then None
               else if neg \<and> un > 2 ^ 63 then None
               else Some (if neg then - int un else int un))"

definition ParseInt :: "string \<Rightarrow> int option" where
  "ParseInt s =
     (case s of
        [] \<Rightarrow> None
      | c # cs \<Rightarrow>
          if c = CHR ''+'' then signed_value False cs
          else if c = CHR ''-'' then signed_value True cs
          else signed_value False s)"

section \<open>Owner\<close>

type_synonym OwnerType = byte

definition OwnerUnspecified :: OwnerType where "OwnerUnspecified = 0"
definition OwnerByID :: OwnerType where "OwnerByID = 1"
definition OwnerByName :: OwnerType where "OwnerByName = 2"

text \<open>The field \<open>ID\<close> is a Go \<open>int\<close>, 64 bits wide.\<close>

record Owner =
  OwnerType :: OwnerType
  OwnerID :: int64
  OwnerName :: string

definition Owner_zero :: Owner where
  "Owner_zero = \<lparr>OwnerType = OwnerUnspecified, OwnerID = 0, OwnerName = []\<rparr>"

definition ID :: "int64 \<Rightarrow> Owner" where
  "ID i = \<lparr>OwnerType = OwnerByID, OwnerID = i, OwnerName = []\<rparr>"

definition Name_owner :: "string \<Rightarrow> Owner" where
  "Name_owner name = \<lparr>OwnerType = OwnerByName, OwnerID = 0, OwnerName = name\<rparr>"

definition Owner_String :: "Owner \<Rightarrow> string" where
  "Owner_String owner =
     (if OwnerType owner = OwnerByID then CHR ''#'' # FormatInt (sint (OwnerID owner))
      else if OwnerType owner = OwnerByName then OwnerName owner
      else [])"

text \<open>
  \<open>Owner.Parse\<close> stores into its receiver and returns an error value; the model returns
  both, the second component being \<open>None\<close> for a \<open>nil\<close> error.
\<close>

definition Owner_Parse :: "string \<Rightarrow> Owner \<times> error option" where
  "Owner_Parse input =
     (if input = [] then (Owner_zero, None)
      else case (if hd input = CHR ''#'' then ParseInt (tl input) else None) of
             Some i64 \<Rightarrow> (ID (word_of_int i64), None)
           | None \<Rightarrow> (Name_owner input, None))"

text \<open>The verb \<open>%02x\<close> on a byte: two lower-case hexadecimal digits.\<close>

definition hex2 :: "byte \<Rightarrow> string" where
  "hex2 b = [digit_char (unat b div 16), digit_char (unat b mod 16)]"

text \<open>\<open>hex.EncodeToString\<close>: two lower-case hexadecimal digits for every byte.\<close>

definition EncodeToString :: "string \<Rightarrow> string" where
  "EncodeToString src = concat (map (\<lambda>c. [digit_char (of_char c div 16), digit_char (of_char c mod 16)]) src)"

section \<open>Entry type\<close>

type_synonym Type = byte

definition TypeAUTO :: Type where "TypeAUTO = 0"
definition TypeDIR :: Type where "TypeDIR = 1"
definition TypeREG :: Type where "TypeREG = 2"
definition TypeLNK :: Type where "TypeLNK = 3"
definition TypeFIFO :: Type where "TypeFIFO = 4"
definition TypeCHR :: Type where "TypeCHR = 5"
definition TypeBLK :: Type where "TypeBLK = 6"

definition fileTypeGoNameArray :: "string list" where
  "fileTypeGoNameArray =
     [''mkdeb.TypeAUTO'', ''mkdeb.TypeDIR'', ''mkdeb.TypeREG'', ''mkdeb.TypeLNK'',
      ''mkdeb.TypeFIFO'', ''mkdeb.TypeCHR'', ''mkdeb.TypeBLK'']"

definition fileTypeNameArray :: "string list" where
  "fileTypeNameArray = [''AUTO'', ''DIR'', ''REG'', ''LNK'', ''FIFO'', ''CHR'', ''BLK'']"

definition fileTypeAliasMap :: "(string \<times> Type) list" where
  "fileTypeAliasMap =
     [('''', TypeAUTO),
      (''auto'', TypeAUTO),
      (''directory'', TypeDIR),
      (''dir'', TypeDIR),
      (''d'', TypeDIR),
      (''regular-file'', TypeREG),
      (''regular'', TypeREG),
      (''reg'', TypeREG),
      (''r'', TypeREG),
      (''file'', TypeREG),
      (''f'', TypeREG),
      (''-'', TypeREG),
      (''link'', TypeLNK),
      (''l'', TypeLNK),
      (''symbolic-link'', TypeLNK),
      (''sym-link'', TypeLNK),
      (''symlink'', TypeLNK),
      (''fifo'', TypeFIFO),
      (''pipe'', TypeFIFO),
      (''p'', TypeFIFO),
      (''char-device'', TypeCHR),
      (''char-dev'', TypeCHR),
      (''chardev'', TypeCHR),
      (''char'', TypeCHR),
      (''chr-dev'', TypeCHR),
      (''chrdev'', TypeCHR),
      (''chr'', TypeCHR),
      (''c'', TypeCHR),
      (''block-device'', TypeBLK),
      (''block-dev'', TypeBLK),
      (''blockdev'', TypeBLK),
      (''block'', TypeBLK),
      (''blk-dev'', TypeBLK),
      (''blkdev'', TypeBLK),
      (''blk'', TypeBLK),
      (''b'', TypeBLK)]"

definition Type_IsValid :: "Type \<Rightarrow> bool" where
  "Type_IsValid ft = (ft < of_nat (length fileTypeGoNameArray))"

definition Type_String :: "Type \<Rightarrow> string" where
  "Type_String ft =
     (if ft < of_nat (length fileTypeNameArray) then fileTypeNameArray ! unat ft
      else ''fileType#'' @ hex2 ft)"

text \<open>
  The \<open>Parse\<close> methods store into their receiver and return an error value; the models
  return the stored value and the error, \<open>None\<close> for \<open>nil\<close>.
\<close>

definition Type_Parse :: "string \<Rightarrow> Type \<times> error option" where
  "Type_Parse input =
     (case map_of fileTypeAliasMap input of
        Some v \<Rightarrow> (v, None)
      | None \<Rightarrow>
          (case map_of fileTypeAliasMap (ToLower input) of
             Some v \<Rightarrow> (v, None)
           | None \<Rightarrow> (0, Some (Failure ''failed to parse as mkdeb.Type enum constant''))))"

section \<open>Hash algorithm\<close>

type_synonym HashAlgorithm = byte

definition HashMD5 :: HashAlgorithm where "HashMD5 = 0"
definition HashSHA1 :: HashAlgorithm where "HashSHA1 = 1"
definition HashSHA256 :: HashAlgorithm where "HashSHA256 = 2"

definition standardHashes :: "HashAlgorithm list" where
  "standardHashes = [HashMD5, HashSHA1, HashSHA256]"

definition hashNameArray :: "string list" where
  "hashNameArray = [''MD5'', ''SHA1'', ''SHA256'']"

definition hashFileNameArray :: "string list" where
  "hashFileNameArray = [''md5sum'', ''sha1sum'', ''sha256sum'']"

definition hashMap :: "(string \<times> HashAlgorithm) list" where
  "hashMap =
     [(''md5'', HashMD5),
      (''md-5'', HashMD5),
      (''sha1'', HashSHA1),
      (''sha-1'', HashSHA1),
      (''sha256'', HashSHA256),
      (''sha-256'', HashSHA256),
      (''sha2'', HashSHA256),
      (''sha-2'', HashSHA256)]"

definition Hash_String :: "HashAlgorithm \<Rightarrow> string" where
  "Hash_String algo =
     (if algo < of_nat (length hashNameArray) then hashNameArray ! unat algo
      else ''algo#'' @ hex2 algo)"

definition FileName :: "HashAlgorithm \<Rightarrow> string" where
  "FileName algo =
     (if algo < of_nat (length hashFileNameArray) then hashFileNameArray ! unat algo
      else ''cksum.'' @ hex2 algo)"

definition Hash_Parse :: "string \<Rightarrow> HashAlgorithm \<times> error option" where
  "Hash_Parse input =
     (case map_of hashMap input of
        Some v \<Rightarrow> (v, None)
      | None \<Rightarrow>
          (case map_of hashMap (ToLower input) of
             Some v \<Rightarrow> (v, None)
           | None \<Rightarrow> (0, Some (Failure ''failed to parse as HashAlgorithm enum constant''))))"

section \<open>Compression algorithm\<close>

type_synonym CompressAlgorithm = byte

definition CompressAuto :: CompressAlgorithm where "CompressAuto = 0"
definition CompressNone :: CompressAlgorithm where "CompressNone = 1"
definition CompressGZIP :: CompressAlgorithm where "CompressGZIP = 2"
definition CompressBZIP2 :: CompressAlgorithm where "CompressBZIP2 = 3"
definition CompressXZ :: CompressAlgorithm where "CompressXZ = 4"
definition CompressZSTD :: CompressAlgorithm where "CompressZSTD = 5"

definition compressNameArray :: "string list" where
  "compressNameArray = [''auto'', ''none'', ''gzip'', ''bzip2'', ''xz'', ''zstd'']"

definition compressSuffixArray :: "string list" where
  "compressSuffixArray = ['''', '''', ''.gz'', ''.bz2'', ''.xz'', ''.zstd'']"

definition compressMap :: "(string \<times> CompressAlgorithm) list" where
  "compressMap =
     [('''', CompressAuto),
      (''auto'', CompressAuto),
      (''none'', CompressNone),
      (''gzip'', CompressGZIP),
      (''gz'', CompressGZIP),
      (''bzip2'', CompressBZIP2),
      (''bzip'', CompressBZIP2),
      (''bz2'', CompressBZIP2),
      (''xz'', CompressXZ),
      (''zstd'', CompressZSTD)]"

definition Compress_String :: "CompressAlgorithm \<Rightarrow> string" where
  "Compress_String algo =
     (if algo < of_nat (length compressNameArray) then compressNameArray ! unat algo
      else ''compression#'' @ hex2 algo)"

definition Suffix :: "CompressAlgorithm \<Rightarrow> string" where
  "Suffix algo =
     (if algo < of_nat (length compressSuffixArray) then compressSuffixArray ! unat algo
      else [])"

definition Compress_Parse :: "string \<Rightarrow> CompressAlgorithm \<times> error option" where
  "Compress_Parse input =
     (case map_of compressMap input of
        Some v \<Rightarrow> (v, None)
      | None \<Rightarrow>
          (case map_of compressMap (ToLower input) of
             Some v \<Rightarrow> (v, None)
           | None \<Rightarrow>
               (0, Some (Failure ''failed to parse as mkdeb.CompressAlgorithm enum constant''))))"

section \<open>Permission bits\<close>

type_synonym Perm = uint16

definition appendOctal :: "string \<Rightarrow> uint16 \<Rightarrow> string" where
  "appendOctal out num =
     (let octal = ''01234567'';
          ch0 = octal ! unat (drop_bit 9 num AND 7);
          ch1 = octal ! unat (drop_bit 6 num AND 7);
          ch2 = octal ! unat (drop_bit 3 num AND 7);
          ch3 = octal ! unat (drop_bit 0 num AND 7)
      in out @ [ch0, ch1, ch2, ch3])"

definition Perm_String :: "Perm \<Rightarrow> string" where
  "Perm_String perm = appendOctal [] perm"

definition Perm_Parse :: "string \<Rightarrow> Perm \<times> error option" where
  "Perm_Parse input =
     (if input = [] then (0, None)
      else case ParseUint input 8 16 of
             None \<Rightarrow> (0, Some (Failure ''failed to parse as octal uint16''))
           | Some num \<Rightarrow> (of_nat num AND 4095, None))"

text \<open>The mask above is the octal constant \<open>0o7777\<close>.\<close>

text \<open>
  The owner names that \<open>Owner.Parse\<close> reads back as they are spelled: every name except
  \<open>#\<close> followed by a spelling of an integer other than the one \<open>%d\<close> prints (such as
  \<open>#007\<close> or \<open>#+5\<close>).
\<close>

definition plain_name :: "string \<Rightarrow> bool" where
  "plain_name name =
     (case name of
        [] \<Rightarrow> True
      | c # rest \<Rightarrow>
          if c = CHR ''#''
          then (case ParseInt rest of None \<Rightarrow> True | Some i \<Rightarrow> FormatInt i = rest)
          else True)"

section \<open>Regular expressions of the validators\<close>

text \<open>
  The patterns of \<open>util.go\<close> are anchored at both ends and use only classes of ASCII
  characters, grouping, alternation and repetition; \<open>MatchString\<close> then asks whether the
  whole string is in the language. Matching is by derivatives.
\<close>

datatype rx = RNone | REps | RClass string | RAlt rx rx | RSeq rx rx | RStar rx

fun nullable :: "rx \<Rightarrow> bool" where
  "nullable RNone = False"
| "nullable REps = True"
| "nullable (RClass cs) = False"
| "nullable (RAlt r s) = (nullable r \<or> nullable s)"
| "nullable (RSeq r s) = (nullable r \<and> nullable s)"
| "nullable (RStar r) = True"

fun ralt :: "rx \<Rightarrow> rx \<Rightarrow> rx" where
  "ralt RNone s = s"
| "ralt r RNone = r"
| "ralt r s = RAlt r s"

fun rseq :: "rx \<Rightarrow> rx \<Rightarrow> rx" where
  "rseq RNone s = RNone"
| "rseq REps s = s"
| "rseq r s = RSeq r s"

fun deriv :: "char \<Rightarrow> rx \<Rightarrow> rx" where
  "deriv c RNone = RNone"
| "deriv c REps = RNone"
| "deriv c (RClass cs) = (if c \<in> set cs then REps else RNone)"
| "deriv c (RAlt r s) = ralt (deriv c r) (deriv c s)"
| "deriv c (RSeq r s) =
     (if nullable r then ralt (rseq (deriv c r) s) (deriv c s) else rseq (deriv c r) s)"
| "deriv c (RStar r) = rseq (deriv c r) (RStar r)"

definition MatchString :: "rx \<Rightarrow> string \<Rightarrow> bool" where
  "MatchString r s = nullable (foldl (\<lambda>r c. deriv c r) r s)"

definition ropt :: "rx \<Rightarrow> rx" where
  "ropt r = RAlt REps r"

definition rplus :: "rx \<Rightarrow> rx" where
  "rplus r = RSeq r (RStar r)"

definition rlit :: "string \<Rightarrow> rx" where
  "rlit s = foldr (\<lambda>c r. RSeq (RClass [c]) r) s REps"

definition digits :: string where
  "digits = ''0123456789''"

definition alnum :: string where
  "alnum = digits @ upper_chars @ lower_chars"

definition lower_alnum :: string where
  "lower_alnum = digits @ lower_chars"

text \<open>\<^verbatim>\<open>(?:[.-]|_+)?[0-9A-Za-z]+(?:(?:[.-]|_+)[0-9A-Za-z]+)*\<close>\<close>

definition nameComponent :: rx where
  "nameComponent =
     RSeq (ropt (RAlt (RClass ''.-'') (rplus (RClass ''_''))))
       (RSeq (rplus (RClass alnum))
          (RStar (RSeq (RAlt (RClass ''.-'') (rplus (RClass ''_''))) (rplus (RClass alnum)))))"

text \<open>\<^verbatim>\<open>^(?:[.]|(?:nameComponent/)*nameComponent)/?$\<close>\<close>

definition nameRx :: rx where
  "nameRx =
     RSeq (RAlt (RClass ''.'') (RSeq (RStar (RSeq nameComponent (RClass ''/''))) nameComponent))
       (ropt (RClass ''/''))"

text \<open>\<^verbatim>\<open>^[0-9a-z][0-9a-z]+(?:[.+-][0-9a-z]+)*$\<close>\<close>

definition packageRx :: rx where
  "packageRx =
     RSeq (RClass lower_alnum)
       (RSeq (rplus (RClass lower_alnum))
          (RStar (RSeq (RClass ''.+-'') (rplus (RClass lower_alnum)))))"

text \<open>\<^verbatim>\<open>^(?:[1-9][0-9]*[:])?[0-9][0-9A-Za-z]*(?:[.~+-][0-9A-Za-z]+)*$\<close>\<close>

definition versionRx :: rx where
  "versionRx =
     RSeq (ropt (RSeq (RClass ''123456789'') (RSeq (RStar (RClass digits)) (RClass '':''))))
       (RSeq (RClass digits)
          (RSeq (RStar (RClass alnum))
             (RStar (RSeq (RClass ''.~+-'') (rplus (RClass alnum))))))"

text \<open>\<^verbatim>\<open>^[0-9A-Za-z]+(?:[-][0-9A-Za-z]+)*$\<close>\<close>

definition archRx :: rx where
  "archRx = RSeq (rplus (RClass alnum)) (RStar (RSeq (RClass ''-'') (rplus (RClass alnum))))"

text \<open>\<^verbatim>\<open>^[0-9a-z]+(?:[/-][0-9a-z]+)*$\<close>\<close>

definition sectionRx :: rx where
  "sectionRx =
     RSeq (rplus (RClass lower_alnum)) (RStar (RSeq (RClass ''/-'') (rplus (RClass lower_alnum))))"

text \<open>\<^verbatim>\<open>^(?:required|important|standard|optional|extra)$\<close>\<close>

definition priorityRx :: rx where
  "priorityRx =
     RAlt (rlit ''required'')
       (RAlt (rlit ''important'') (RAlt (rlit ''standard'') (RAlt (rlit ''optional'') (rlit ''extra''))))"

definition isValidUnixPath :: "string \<Rightarrow> bool" where
  "isValidUnixPath str = MatchString nameRx str"

definition isValidPackage :: "string \<Rightarrow> bool" where
  "isValidPackage str = MatchString packageRx str"

definition isValidVersion :: "string \<Rightarrow> bool" where
  "isValidVersion str = MatchString versionRx str"

definition isValidArch :: "string \<Rightarrow> bool" where
  "isValidArch str = MatchString archRx str"

definition isValidSection :: "string \<Rightarrow> bool" where
  "isValidSection str = MatchString sectionRx str"

definition isValidPriority :: "string \<Rightarrow> bool" where
  "isValidPriority str = MatchString priorityRx str"

definition isValidDepends :: "string \<Rightarrow> bool" where
  "isValidDepends str = True"

definition isValidMaintainer :: "string \<Rightarrow> bool" where
  "isValidMaintainer str = True"

definition isValidURL :: "string \<Rightarrow> bool" where
  "isValidURL str = True"

definition isValidBuiltUsing :: "string \<Rightarrow> bool" where
  "isValidBuiltUsing str = True"

section \<open>Description lines\<close>

text \<open>The Unicode category \<open>Cc\<close> and the categories \<open>Zs\<close>, \<open>Zl\<close>, \<open>Zp\<close> (\<open>unicode.Z\<close>).\<close>

definition is_Cc :: "nat \<Rightarrow> bool" where
  "is_Cc ch = (ch \<le> 31 \<or> (127 \<le> ch \<and> ch \<le> 159))"

definition is_Z :: "nat \<Rightarrow> bool" where
  "is_Z ch = (ch = 32 \<or> ch = 160 \<or> ch = 5760 \<or> (8192 \<le> ch \<and> ch \<le> 8202) \<or> ch = 8232
       \<or> ch = 8233 \<or> ch = 8239 \<or> ch = 8287 \<or> ch = 12288)"

fun description_loop :: "nat \<Rightarrow> nat list \<Rightarrow> bool" where
  "description_loop spaceCount [] = (spaceCount \<le> 0)"
| "description_loop spaceCount (ch # rest) =
     (if is_Cc ch then False
      else if is_Z ch then description_loop (spaceCount + 1) rest
      else description_loop 0 rest)"

definition isValidDescriptionLine :: "string \<Rightarrow> bool" where
  "isValidDescriptionLine str = description_loop 0 (runes str)"

section \<open>Paths\<close>

fun split_slash :: "string \<Rightarrow> string list" where
  "split_slash [] = [[]]"
| "split_slash (c # cs) =
     (if c = CHR ''/'' then [] # split_slash cs
      else case split_slash cs of [] \<Rightarrow> [[c]] | x # xs \<Rightarrow> (c # x) # xs)"

fun join_slash :: "string list \<Rightarrow> string" where
  "join_slash [] = []"
| "join_slash [x] = x"
| "join_slash (x # y # ys) = x @ ''/'' @ join_slash (y # ys)"

text \<open>
  \<open>path.Clean\<close>: empty and \<open>.\<close> elements go away, \<open>..\<close> removes the element before it (or
  is dropped at the root, or is kept in front of a relative path), and an empty result is
  \<open>.\<close>.
\<close>

definition clean_step :: "bool \<Rightarrow> string list \<Rightarrow> string \<Rightarrow> string list" where
  "clean_step rooted stack elem =
     (if elem = [] \<or> elem = ''.'' then stack
      else if elem = ''..'' then
        (if stack \<noteq> [] \<and> last stack \<noteq> ''..'' then butlast stack
         else if rooted then stack
         else stack @ [''..''])
      else stack @ [elem])"

definition Clean :: "string \<Rightarrow> string" where
  "Clean p =
     (if p = [] then ''.''
      else let rooted = (hd p = CHR ''/'');
               out = (if rooted then ''/'' else []) @ join_slash (foldl (clean_step rooted) [] (split_slash p))
           in if out = [] then ''.'' else out)"

text \<open>\<open>path.Dir\<close>: the path up to its last slash, cleaned.\<close>

definition Dir :: "string \<Rightarrow> string" where
  "Dir p = Clean (rev (dropWhile (\<lambda>c. c \<noteq> CHR ''/'') (rev p)))"

section \<open>What the package takes from outside\<close>

text \<open>
  \<open>time.Time\<close> is a number of seconds since the Unix epoch; its zero value is the first
  instant of year 1.
\<close>

type_synonym Time = int

definition Time_zero :: Time where
  "Time_zero = - 62135596800"

definition IsZero :: "Time \<Rightarrow> bool" where
  "IsZero t = (t = Time_zero)"

text \<open>
  \<open>fs.FS\<close>, the content root: \<open>Stat\<close> gives the size of a file and \<open>Open\<close> the bytes read
  from it; \<open>None\<close> is an error of the file system.
\<close>

record FS =
  Stat :: "string \<Rightarrow> int64 option"
  Open :: "string \<Rightarrow> string option"

text \<open>\<open>tar.Header\<close>, with the fields that the package sets.\<close>

record Header =
  Typeflag :: char
  Hdr_Name :: string
  Linkname :: string
  Hdr_Size :: int64
  Mode :: int64
  Uid :: int64
  Gid :: int64
  Uname :: string
  Gname :: string
  ModTime :: Time
  Devmajor :: int64
  Devminor :: int64

definition tar_TypeReg :: char where "tar_TypeReg = CHR ''0''"
definition tar_TypeSymlink :: char where "tar_TypeSymlink = CHR ''2''"
definition tar_TypeChar :: char where "tar_TypeChar = CHR ''3''"
definition tar_TypeBlock :: char where "tar_TypeBlock = CHR ''4''"
definition tar_TypeDir :: char where "tar_TypeDir = CHR ''5''"
definition tar_TypeFifo :: char where "tar_TypeFifo = CHR ''6''"

text \<open>
  The environment of a build. The constants \<open>unixModeFMT\<close> to \<open>unixModeBLK\<close> are declared
  in a file of the package that is not among the sources, so they are parameters. The
  other fields stand for the libraries: \<open>digest\<close> for the checksum of a byte string under
  the algorithms MD5, SHA1 and SHA256; \<open>tar_bytes\<close> for the archive that \<open>archive/tar\<close>
  writes for a sequence of members; \<open>compressed\<close> for what a compressing writer has
  emitted once it is closed; \<open>newWriter_fails\<close> for the constructors of the compressing
  writers returning an error; \<open>os_fails\<close> for the calls of package \<open>os\<close> and the closing
  of a content file returning one; \<open>temp_credit\<close> for the number of operations that a
  temporary file performs before one fails.
\<close>

record Env =
  unixModeFMT :: int64
  unixModeDIR :: int64
  unixModeREG :: int64
  unixModeLNK :: int64
  unixModeFIFO :: int64
  unixModeCHR :: int64
  unixModeBLK :: int64
  digest :: "HashAlgorithm \<Rightarrow> string \<Rightarrow> string"
  tar_bytes :: "(Header \<times> string) list \<Rightarrow> string"
  compressed :: "CompressAlgorithm \<Rightarrow> string \<Rightarrow> string"
  newWriter_fails :: "CompressAlgorithm \<Rightarrow> bool"
  os_fails :: "string \<Rightarrow> bool"
  temp_credit :: nat

text \<open>
  \<open>bytes.Buffer\<close>, as far as the package can tell: \<open>None\<close> is the buffer that has no
  storage yet, whose \<open>Bytes()\<close> is the \<open>nil\<close> slice; writing the empty string to it
  allocates nothing. A value of type \<open>[]byte\<close> is modelled likewise, \<open>None\<close> for \<open>nil\<close>.
\<close>

type_synonym Buffer = "string option"

definition WriteString :: "Buffer \<Rightarrow> string \<Rightarrow> Buffer" where
  "WriteString buf s =
     (case buf of None \<Rightarrow> if s = [] then None else Some s | Some t \<Rightarrow> Some (t @ s))"

definition Grow :: "Buffer \<Rightarrow> Buffer" where
  "Grow buf = (case buf of None \<Rightarrow> Some [] | Some t \<Rightarrow> Some t)"

definition Reset :: "Buffer \<Rightarrow> Buffer" where
  "Reset buf = (case buf of None \<Rightarrow> None | Some t \<Rightarrow> Some [])"

definition nl :: string where
  "nl = [CHR 0x0A]"

section \<open>File entries\<close>

record File =
  Name :: string
  Type :: Type
  IsConf :: bool
  Perm :: Perm
  User :: Owner
  Group :: Owner
  MTime :: Time
  Major :: "int64 option"
  Minor :: "int64 option"
  Path :: "string option"
  Text :: "string option"
  Bytes :: "string option"
  Link :: "string option"
  isResolved_file :: bool
  size_file :: int64
  isHashed_file :: bool
  hashes :: "HashAlgorithm \<Rightarrow> string option"

definition fixup_type :: "File \<Rightarrow> File" where
  "fixup_type file =
     (if Type file = TypeAUTO
      then file\<lparr>Type := (if HasSuffix (Name file) ''/'' then TypeDIR else TypeREG)\<rparr>
      else file)"

definition fixup_name :: "File \<Rightarrow> File result" where
  "fixup_name file =
     (if Type file = TypeDIR then Inr (file\<lparr>Name := TrimRight (Name file) ''/'' @ ''/''\<rparr>)
      else if Name file = ''.'' \<or> HasSuffix (Name file) ''/''
        then Inl (Failure ''name: value is only appropriate for a directory'')
      else Inr file)"

definition check_content :: "File \<Rightarrow> error option" where
  \<open>check_content file =
     (if Type file = TypeREG then
        (if Path file \<noteq> None \<and> \<not> isValidUnixPath (the (Path file))
           then Some (Failure ''path: invalid Unix path'')
         else if Path file \<noteq> None \<and> HasSuffix (the (Path file)) ''/''
           then Some (Failure ''path: unexpected trailing /'')
         else if Path file \<noteq> None \<and> Text file \<noteq> None
           then Some (Failure ''text: conflict with field "path"'')
         else if Path file \<noteq> None \<and> Bytes file \<noteq> None
           then Some (Failure ''bytes: conflict with field "path"'')
         else if Text file \<noteq> None \<and> Bytes file \<noteq> None
           then Some (Failure ''bytes: conflict with field "text"'')
         else None)
      else
        (if IsConf file then Some (Failure ''isConf: conflict with field "type"'')
         else if Path file \<noteq> None then Some (Failure ''path: unexpected value for field'')
         else if Text file \<noteq> None then Some (Failure ''text: unexpected value for field'')
         else if Bytes file \<noteq> None then Some (Failure ''bytes: unexpected value for field'')
         else None))\<close>

definition check_link :: "File \<Rightarrow> error option" where
  "check_link file =
     (if Type file = TypeLNK then
        (case Link file of
           None \<Rightarrow> Some (Failure ''link: missing required field'')
         | Some link \<Rightarrow>
             if link \<noteq> Clean link then Some (Failure ''link: value is not canonical'') else None)
      else
        (if Link file \<noteq> None then Some (Failure ''link: unexpected value for field'') else None))"

definition check_device :: "File \<Rightarrow> error option" where
  "check_device file =
     (if Type file = TypeCHR \<or> Type file = TypeBLK then
        (if Major file = None then Some (Failure ''major: missing required field'')
         else if Minor file = None then Some (Failure ''major: missing required field'')
         else None)
      else
        (if Major file \<noteq> None then Some (Failure ''major: unexpected value for field'')
         else if Minor file \<noteq> None then Some (Failure ''minor: unexpected value for field'')
         else None))"

text \<open>
  \<open>File.validateImpl\<close> has a pointer receiver: it returns the entry as it has left it,
  or the error. Its blocks are the definitions above, in the order of the source.
\<close>

definition validateImpl :: "File \<Rightarrow> File result" where
  "validateImpl file =
     (if Name file = [] then Inl (Failure ''name: missing required field'')
      else if \<not> isValidUnixPath (Name file) then Inl (Failure ''name: invalid Unix path'')
      else if \<not> Type_IsValid (Type file) then Inl (Failure ''type: invalid value'')
      else case fixup_name (fixup_type file) of
             Inl e \<Rightarrow> Inl e
           | Inr file' \<Rightarrow>
               (case check_content file' of
                  Some e \<Rightarrow> Inl e
                | None \<Rightarrow>
                    (case check_link file' of
                       Some e \<Rightarrow> Inl e
                     | None \<Rightarrow>
                         (case check_device file' of
                            Some e \<Rightarrow> Inl e
                          | None \<Rightarrow> Inr file'))))"

text \<open>
  \<open>File.Validate\<close> has a value receiver: it runs \<open>validateImpl\<close> on a copy, and the caller
  sees the error only.
\<close>

definition File_Validate :: "File \<Rightarrow> error option" where
  "File_Validate file = (case validateImpl file of Inl e \<Rightarrow> Some e | Inr file' \<Rightarrow> None)"

definition File_Resolve :: "File \<Rightarrow> FS \<Rightarrow> File result" where
  "File_Resolve file fileSystem =
     (case validateImpl file of
        Inl e \<Rightarrow> Inl e
      | Inr file' \<Rightarrow>
          (let sized = (\<lambda>sz. Inr (file'\<lparr>isResolved_file := True, size_file := sz\<rparr>)) in
           if Type file' = TypeREG then
             (case Bytes file' of
                Some b \<Rightarrow> sized (of_nat (length b))
              | None \<Rightarrow>
                  (case Text file' of
                     Some t \<Rightarrow> sized (of_nat (length t))
                   | None \<Rightarrow>
                       (let statPath = (case Path file' of Some p \<Rightarrow> p | None \<Rightarrow> Name file') in
                        case Stat fileSystem statPath of
                          None \<Rightarrow> Inl (Failure ''failed to stat'')
                        | Some sz \<Rightarrow> sized sz)))
           else sized 0))"

definition owner_ids :: "Owner \<Rightarrow> int64 \<times> string" where
  "owner_ids owner =
     (if OwnerType owner = OwnerByID then (OwnerID owner, [])
      else if OwnerType owner = OwnerByName then (0, OwnerName owner)
      else (0, []))"

text \<open>
  \<open>File.AsTarHeader\<close>. The switch on the type sets the default permission, the type flag
  and the mode, and for links and devices dereferences \<open>Link\<close>, \<open>Major\<close> and \<open>Minor\<close>,
  which panics on \<open>nil\<close>.
\<close>

definition type_fields :: "Env \<Rightarrow> File \<Rightarrow> (Perm \<times> char \<times> int64 \<times> string \<times> int64 \<times> int64) result" where
  "type_fields env file =
     (if Type file = TypeDIR then Inr (493, tar_TypeDir, unixModeDIR env, [], 0, 0)
      else if Type file = TypeREG then Inr (420, tar_TypeReg, unixModeREG env, [], 0, 0)
      else if Type file = TypeLNK then
        (case Link file of
           None \<Rightarrow> Inl (Fatal ''nil pointer dereference'')
         | Some link \<Rightarrow> Inr (511, tar_TypeSymlink, unixModeLNK env, link, 0, 0))
      else if Type file = TypeFIFO then Inr (384, tar_TypeFifo, unixModeFIFO env, [], 0, 0)
      else if Type file = TypeCHR \<or> Type file = TypeBLK then
        (case (Major file, Minor file) of
           (Some major, Some minor) \<Rightarrow>
             Inr (384, if Type file = TypeCHR then tar_TypeChar else tar_TypeBlock,
                  if Type file = TypeCHR then unixModeCHR env else unixModeBLK env, [], major, minor)
         | _ \<Rightarrow> Inl (Fatal ''nil pointer dereference''))
      else Inr (384, CHR 0x00, unixModeFMT env, [], 0, 0))"

definition AsTarHeader :: "Env \<Rightarrow> File \<Rightarrow> Header result" where
  "AsTarHeader env file =
     (if \<not> isResolved_file file then Inl (Fatal ''must call Resolve first'')
      else case type_fields env file of
             Inl e \<Rightarrow> Inl e
           | Inr (defaultPerm, flag, mode, linkname, major, minor) \<Rightarrow>
               (let perm = (if Perm file = 0 then defaultPerm else Perm file) in
                Inr \<lparr>Typeflag = flag, Hdr_Name = Name file, Linkname = linkname,
                      Hdr_Size = size_file file, Mode = mode OR ucast perm,
                      Uid = fst (owner_ids (User file)), Gid = fst (owner_ids (Group file)),
                      Uname = snd (owner_ids (User file)), Gname = snd (owner_ids (Group file)),
                      ModTime = MTime file, Devmajor = major, Devminor = minor\<rparr>))"

text \<open>\<open>File.Reader\<close>, by the bytes that the reader will deliver.\<close>

definition Reader :: "File \<Rightarrow> FS \<Rightarrow> string result" where
  "Reader file fileSystem =
     (if \<not> isResolved_file file then Inl (Fatal ''must call Resolve first'')
      else if Type file \<noteq> TypeREG then Inr []
      else case Bytes file of
             Some b \<Rightarrow> Inr b
           | None \<Rightarrow>
               (case Text file of
                  Some t \<Rightarrow> Inr t
                | None \<Rightarrow>
                    (let name = (case Path file of Some p \<Rightarrow> p | None \<Rightarrow> Name file) in
                     case Open fileSystem name of
                       None \<Rightarrow> Inl (Failure ''failed to open'')
                     | Some content \<Rightarrow> Inr content)))"

section \<open>Manifest\<close>

record Manifest =
  Package :: string
  Version :: string
  Arch :: string
  Section :: string
  Priority :: string
  Essential :: string
  Depends :: string
  PreDepends :: string
  Recommends :: string
  Suggests :: string
  Enhances :: string
  Breaks :: string
  Conflicts :: string
  Maintainer :: string
  HomePage :: string
  BuiltUsing :: string
  ShortDescription :: string
  LongDescription :: "string list"
  ImplicitDirs :: "string list"
  Files :: "File list"
  PreInstall :: "string list"
  PostInstall :: "string list"
  PreRemove :: "string list"
  PostRemove :: "string list"
  isResolved :: bool
  installedSize :: int64
  isHashed :: bool

fun long_description_loop :: "nat \<Rightarrow> string list \<Rightarrow> error option" where
  "long_description_loop index [] = None"
| "long_description_loop index (line # rest) =
     (if \<not> isValidDescriptionLine line
      then Some (Failure (''longDescription['' @ FormatInt (int index)
                   @ '']: invalid Description continuation line''))
      else long_description_loop (index + 1) rest)"

definition validatePre :: "Manifest \<Rightarrow> error option" where
  "validatePre manifest =
     (if Package manifest = [] then Some (Failure ''package: missing required field'')
      else if \<not> isValidPackage (Package manifest)
        then Some (Failure ''package: invalid Debian package name'')
      else if Version manifest = [] then Some (Failure ''version: missing required field'')
      else if \<not> isValidVersion (Version manifest)
        then Some (Failure ''version: invalid Debian package version'')
      else if Arch manifest = [] then Some (Failure ''arch: missing required field'')
      else if \<not> isValidArch (Arch manifest)
        then Some (Failure ''version: invalid Debian package architecture'')
      else if Section manifest \<noteq> [] \<and> \<not> isValidSection (Section manifest)
        then Some (Failure ''version: invalid Debian package section'')
      else if Priority manifest \<noteq> [] \<and> \<not> isValidPriority (Priority manifest)
        then Some (Failure ''version: invalid Debian package priority'')
      else if Essential manifest \<noteq> [] \<and> \<not> isValidDepends (Essential manifest)
        then Some (Failure ''essential: invalid Debian package dependency spec'')
      else if Depends manifest \<noteq> [] \<and> \<not> isValidDepends (Depends manifest)
        then Some (Failure ''depends: invalid Debian package dependency spec'')
      else if PreDepends manifest \<noteq> [] \<and> \<not> isValidDepends (PreDepends manifest)
        then Some (Failure ''preDepends: invalid Debian package dependency spec'')
      else if Recommends manifest \<noteq> [] \<and> \<not> isValidDepends (Recommends manifest)
        then Some (Failure ''recommends: invalid Debian package dependency spec'')
      else if Suggests manifest \<noteq> [] \<and> \<not> isValidDepends (Suggests manifest)
        then Some (Failure ''suggests: invalid Debian package dependency spec'')
      else if Enhances manifest \<noteq> [] \<and> \<not> isValidDepends (Enhances manifest)
        then Some (Failure ''enhances: invalid Debian package dependency spec'')
      else if Breaks manifest \<noteq> [] \<and> \<not> isValidDepends (Breaks manifest)
        then Some (Failure ''breaks: invalid Debian package dependency spec'')
      else if Conflicts manifest \<noteq> [] \<and> \<not> isValidDepends (Conflicts manifest)
        then Some (Failure ''conflicts: invalid Debian package dependency spec'')
      else if Maintainer manifest = [] then Some (Failure ''maintainer: missing required field'')
      else if \<not> isValidMaintainer (Maintainer manifest)
        then Some (Failure ''maintainer: invalid Maintainer line'')
      else if HomePage manifest \<noteq> [] \<and> \<not> isValidURL (HomePage manifest)
        then Some (Failure ''homePage: invalid URL'')
      else if BuiltUsing manifest \<noteq> [] \<and> \<not> isValidBuiltUsing (BuiltUsing manifest)
        then Some (Failure ''builtUsing: invalid Built-Using line'')
      else if ShortDescription manifest = []
        then Some (Failure ''shortDescription: missing required field'')
      else if \<not> isValidDescriptionLine (ShortDescription manifest)
        then Some (Failure ''shortDescription: invalid Description line'')
      else long_description_loop 0 (LongDescription manifest))"

text \<open>
  \<open>Manifest.validatePost\<close>. The first loop collects the known directories, starting from
  \<open>.\<close>; the second walks the entries with the map \<open>seen\<close> from names to indices.
\<close>

fun implicit_dirs_loop :: "nat \<Rightarrow> string list \<Rightarrow> string set \<Rightarrow> string set result" where
  "implicit_dirs_loop index [] knownDirectories = Inr knownDirectories"
| "implicit_dirs_loop index (dir # rest) knownDirectories =
     (if \<not> isValidUnixPath dir
      then Inl (Failure (''implicitDirs['' @ FormatInt (int index) @ '']: invalid Unix path''))
      else implicit_dirs_loop (index + 1) rest (insert (TrimRight dir ''/'') knownDirectories))"

fun files_loop :: "nat \<Rightarrow> File list \<Rightarrow> string set \<Rightarrow> (string \<Rightarrow> nat option) \<Rightarrow> error option" where
  "files_loop index [] knownDirectories seen = None"
| "files_loop index (file # rest) knownDirectories seen =
     (if seen (Name file) \<noteq> None
      then Some (Failure (''files['' @ FormatInt (int index)
                   @ '']: duplicate file has the same name as files[''
                   @ FormatInt (int (the (seen (Name file)))) @ '']''))
      else
        (let name = TrimRight (Name file) ''/''; dir = Dir name in
         if dir \<notin> knownDirectories
         then Some (Failure (''files['' @ FormatInt (int index) @ '']: directory might not exist yet''))
         else files_loop (index + 1) rest
                (if Type file = TypeDIR then insert name knownDirectories else knownDirectories)
                (seen(Name file \<mapsto> index))))"

definition validatePost :: "Manifest \<Rightarrow> error option" where
  "validatePost manifest =
     (case implicit_dirs_loop 0 (ImplicitDirs manifest) {''.''} of
        Inl e \<Rightarrow> Some e
      | Inr knownDirectories \<Rightarrow> files_loop 0 (Files manifest) knownDirectories Map.empty)"

text \<open>\<open>fmt.Errorf("files[%d]: %w", index, err)\<close>.\<close>

definition in_files :: "nat \<Rightarrow> error \<Rightarrow> error" where
  "in_files index e =
     (case e of
        Failure msg \<Rightarrow> Failure (''files['' @ FormatInt (int index) @ '']: '' @ msg)
      | Fatal msg \<Rightarrow> Fatal msg)"

fun validate_loop :: "nat \<Rightarrow> File list \<Rightarrow> error option" where
  "validate_loop index [] = None"
| "validate_loop index (file # rest) =
     (case File_Validate file of
        Some e \<Rightarrow> Some (in_files index e)
      | None \<Rightarrow> validate_loop (index + 1) rest)"

text \<open>
  \<open>Manifest.Validate\<close> has a value receiver, and its loop validates a copy of each entry:
  the manifest of the caller stays as it is, and \<open>validatePost\<close> reads the entries as the
  caller wrote them.
\<close>

definition Manifest_Validate :: "Manifest \<Rightarrow> error option" where
  "Manifest_Validate manifest =
     (case validatePre manifest of
        Some e \<Rightarrow> Some e
      | None \<Rightarrow>
          (case validate_loop 0 (Files manifest) of
             Some e \<Rightarrow> Some e
           | None \<Rightarrow> validatePost manifest))"

definition pad :: "uint64 \<Rightarrow> nat \<Rightarrow> uint64" where
  "pad sz shift = (let x = push_bit shift 1 - 1 in (sz + x) AND NOT x)"

definition padSigned :: "int64 \<Rightarrow> nat \<Rightarrow> int64 result" where
  "padSigned sz shift =
     (let neg = (sz <s 0);
          sz' = (if neg then - sz else sz);
          result = pad sz' shift
      in if result <s 0 then Inl (Fatal ''out of range: pad'')
         else Inr (if neg then - result else result))"

text \<open>
  The loop of \<open>Manifest.Resolve\<close> resolves the entries in place and adds up the padded
  sizes in an \<open>int64\<close>. (When \<open>Resolve\<close> fails, Go leaves the entries resolved so far in
  the manifest; the model returns the error alone.)
\<close>

fun resolve_loop :: "FS \<Rightarrow> nat \<Rightarrow> File list \<Rightarrow> int64 \<Rightarrow> (File list \<times> int64) result" where
  "resolve_loop fileSystem index [] installed = Inr ([], installed)"
| "resolve_loop fileSystem index (file # rest) installed =
     (case File_Resolve file fileSystem of
        Inl e \<Rightarrow> Inl (in_files index e)
      | Inr file' \<Rightarrow>
          (case padSigned (size_file file') 12 of
             Inl e \<Rightarrow> Inl e
           | Inr padded \<Rightarrow>
               (case resolve_loop fileSystem (index + 1) rest (installed + padded) of
                  Inl e \<Rightarrow> Inl e
                | Inr (files', installed') \<Rightarrow> Inr (file' # files', installed'))))"

definition Manifest_Resolve :: "Manifest \<Rightarrow> FS \<Rightarrow> Manifest result" where
  "Manifest_Resolve manifest fileSystem =
     (case validatePre manifest of
        Some e \<Rightarrow> Inl e
      | None \<Rightarrow>
          (case resolve_loop fileSystem 0 (Files manifest) 0 of
             Inl e \<Rightarrow> Inl e
           | Inr (files', installed') \<Rightarrow>
               (case validatePost (manifest\<lparr>Files := files'\<rparr>) of
                  Some e \<Rightarrow> Inl e
                | None \<Rightarrow>
                    Inr (manifest\<lparr>Files := files', installedSize := installed', isResolved := True\<rparr>))))"

section \<open>Rendering\<close>

definition field :: "string \<Rightarrow> string \<Rightarrow> string list" where
  "field key v = [key, v, nl]"

definition optional_field :: "string \<Rightarrow> string \<Rightarrow> string list" where
  "optional_field key v = (if v \<noteq> [] then field key v else [])"

definition continuation :: "string \<Rightarrow> string list" where
  "continuation line = (if line = [] then ['' .'' @ nl] else ['' '', line, nl])"

text \<open>\<open>Manifest.ControlFile\<close>: the strings written to the buffer, in order.\<close>

definition control_pieces :: "Manifest \<Rightarrow> string list" where
  "control_pieces manifest =
     field ''Package: '' (Package manifest)
     @ field ''Version: '' (Version manifest)
     @ optional_field ''Section: '' (Section manifest)
     @ optional_field ''Priority: '' (Priority manifest)
     @ optional_field ''Architecture: '' (Arch manifest)
     @ optional_field ''Essential: '' (Essential manifest)
     @ optional_field ''Depends: '' (Depends manifest)
     @ optional_field ''Pre-Depends: '' (PreDepends manifest)
     @ optional_field ''Recommends: '' (Recommends manifest)
     @ optional_field ''Suggests: '' (Suggests manifest)
     @ optional_field ''Enhances: '' (Enhances manifest)
     @ optional_field ''Breaks: '' (Breaks manifest)
     @ optional_field ''Conflicts: '' (Conflicts manifest)
     @ field ''Installed-Size: '' (FormatInt (sint (installedSize manifest)))
     @ field ''Maintainer: '' (Maintainer manifest)
     @ optional_field ''Homepage: '' (HomePage manifest)
     @ optional_field ''Built-Using: '' (BuiltUsing manifest)
     @ field ''Description: '' (ShortDescription manifest)
     @ concat (map continuation (LongDescription manifest))"

definition ControlFile :: "Manifest \<Rightarrow> Buffer result" where
  "ControlFile manifest =
     (if \<not> isResolved manifest then Inl (Fatal ''must call Resolve first'')
      else Inr (foldl WriteString None (control_pieces manifest)))"

definition ConfFiles :: "Manifest \<Rightarrow> Buffer result" where
  "ConfFiles manifest =
     (if \<not> isResolved manifest then Inl (Fatal ''must call Resolve first'')
      else Inr (foldl (\<lambda>buf file. if IsConf file then WriteString (WriteString buf (Name file)) nl else buf)
                  None (Files manifest)))"

text \<open>
  The four script methods have the same body, on the four line lists: \<open>nil\<close> for no
  lines, else the preamble and the lines.
\<close>

definition script :: "Manifest \<Rightarrow> string list \<Rightarrow> Buffer result" where
  "script manifest lines =
     (if \<not> isResolved manifest then Inl (Fatal ''must call Resolve first'')
      else if length lines \<le> 0 then Inr None
      else Inr (foldl (\<lambda>buf line. WriteString (WriteString buf line) nl)
                  (foldl WriteString (Grow None)
                     [''#!/bin/bash'' @ nl, ''set -euo pipefail'' @ nl, ''umask 022'' @ nl, ''cd /'' @ nl])
                  lines))"

definition PreInstallScript :: "Manifest \<Rightarrow> Buffer result" where
  "PreInstallScript manifest = script manifest (PreInstall manifest)"

definition PostInstallScript :: "Manifest \<Rightarrow> Buffer result" where
  "PostInstallScript manifest = script manifest (PostInstall manifest)"

definition PreRemoveScript :: "Manifest \<Rightarrow> Buffer result" where
  "PreRemoveScript manifest = script manifest (PreRemove manifest)"

definition PostRemoveScript :: "Manifest \<Rightarrow> Buffer result" where
  "PostRemoveScript manifest = script manifest (PostRemove manifest)"

section \<open>Zero values and the directories declared before an entry\<close>

definition File_zero :: File where
  "File_zero =
     \<lparr>Name = [], Type = 0, IsConf = False, Perm = 0, User = Owner_zero, Group = Owner_zero,
      MTime = Time_zero, Major = None, Minor = None, Path = None, Text = None, Bytes = None,
      Link = None, isResolved_file = False, size_file = 0, isHashed_file = False,
      hashes = Map.empty\<rparr>"

definition Manifest_zero :: Manifest where
  "Manifest_zero =
     \<lparr>Package = [], Version = [], Arch = [], Section = [], Priority = [], Essential = [],
      Depends = [], PreDepends = [], Recommends = [], Suggests = [], Enhances = [], Breaks = [],
      Conflicts = [], Maintainer = [], HomePage = [], BuiltUsing = [], ShortDescription = [],
      LongDescription = [], ImplicitDirs = [], Files = [], PreInstall = [], PostInstall = [],
      PreRemove = [], PostRemove = [], isResolved = False, installedSize = 0, isHashed = False\<rparr>"

text \<open>
  The parent directory of an entry: its name without trailing slashes, then \<open>path.Dir\<close>.
  The directories declared before the entry at an index: \<open>.\<close>, the implicit directories and
  the entries of type \<open>DIR\<close> in front of it, each without trailing slashes.
\<close>

definition parent_dir :: "File \<Rightarrow> string" where
  "parent_dir file = Dir (TrimRight (Name file) ''/'')"

definition dirs_of :: "File list \<Rightarrow> string set" where
  "dirs_of files = (\<lambda>file. TrimRight (Name file) ''/'') ` {file \<in> set files. Type file = TypeDIR}"

definition declared_before :: "Manifest \<Rightarrow> nat \<Rightarrow> string set" where
  "declared_before manifest i =
     {''.''} \<union> (\<lambda>dir. TrimRight dir ''/'') ` set (ImplicitDirs manifest)
       \<union> dirs_of (take i (Files manifest))"

text \<open>Three small manifests: a directory after and before its content, and a name twice.\<close>

definition dir_late :: Manifest where
  "dir_late = Manifest_zero\<lparr>Files :=
     [File_zero\<lparr>Name := ''bin/foo'', Type := TypeREG\<rparr>, File_zero\<lparr>Name := ''bin/'', Type := TypeDIR\<rparr>]\<rparr>"

definition dir_early :: Manifest where
  "dir_early = Manifest_zero\<lparr>Files :=
     [File_zero\<lparr>Name := ''bin/'', Type := TypeDIR\<rparr>, File_zero\<lparr>Name := ''bin/foo'', Type := TypeREG\<rparr>]\<rparr>"

definition same_name :: Manifest where
  "same_name = Manifest_zero\<lparr>Files :=
     [File_zero\<lparr>Name := ''foo'', Type := TypeREG\<rparr>, File_zero\<lparr>Name := ''foo'', Type := TypeREG\<rparr>]\<rparr>"

section \<open>Installed size, by the words of the specification\<close>

text \<open>A size rounded up to the next multiple of 4096, on the integers.\<close>

definition rounded_up :: "int \<Rightarrow> int" where
  "rounded_up n = (n + 4095) div 4096 * 4096"

text \<open>
  The content size of a resolved entry: 0 unless it is a regular file; for a regular file
  the length of the embedded bytes or text, else the size that the file system reports
  for the source path, or for the name when there is none.
\<close>

definition resolved_size :: "FS \<Rightarrow> File \<Rightarrow> int64 option" where
  "resolved_size fileSystem file =
     (if Type file \<noteq> TypeREG then Some 0
      else case Bytes file of
             Some b \<Rightarrow> Some (of_nat (length b))
           | None \<Rightarrow>
               (case Text file of
                  Some t \<Rightarrow> Some (of_nat (length t))
                | None \<Rightarrow> Stat fileSystem (case Path file of Some p \<Rightarrow> p | None \<Rightarrow> Name file)))"

section \<open>Example inputs\<close>

text \<open>
  The minimal manifest of the specification: package \<open>foo\<close>, version \<open>1.0\<close>, architecture
  \<open>amd64\<close>, a maintainer, a short description and one file with embedded text, its type
  left to be inferred.
\<close>

definition minimal_manifest :: Manifest where
  "minimal_manifest =
     Manifest_zero\<lparr>Package := ''foo'', Version := ''1.0'', Arch := ''amd64'',
       Maintainer := ''A <a@example.com>'', ShortDescription := ''x'',
       Files := [File_zero\<lparr>Name := ''hello'', Text := Some (''hi'' @ nl)\<rparr>]\<rparr>"

definition empty_fs :: FS where
  "empty_fs = \<lparr>Stat = (\<lambda>name. None), Open = (\<lambda>name. None)\<rparr>"

text \<open>Three regular files of 10, 4096 and 4097 bytes in the content root.\<close>

definition three_files :: Manifest where
  "three_files =
     minimal_manifest\<lparr>Files :=
       [File_zero\<lparr>Name := ''a'', Type := TypeREG\<rparr>, File_zero\<lparr>Name := ''b'', Type := TypeREG\<rparr>,
        File_zero\<lparr>Name := ''c'', Type := TypeREG\<rparr>]\<rparr>"

definition three_sizes :: FS where
  "three_sizes =
     \<lparr>Stat = (\<lambda>name. if name = ''a'' then Some 10 else if name = ''b'' then Some 4096
                       else if name = ''c'' then Some 4097 else None),
      Open = (\<lambda>name. None)\<rparr>"

text \<open>Two regular files for which the content root reports \<open>2 ^ 62\<close> bytes each.\<close>

definition two_files :: Manifest where
  "two_files =
     minimal_manifest\<lparr>Files :=
       [File_zero\<lparr>Name := ''a'', Type := TypeREG\<rparr>, File_zero\<lparr>Name := ''b'', Type := TypeREG\<rparr>]\<rparr>"

definition huge_sizes :: FS where
  "huge_sizes = \<lparr>Stat = (\<lambda>name. Some 4611686018427387904), Open = (\<lambda>name. None)\<rparr>"

text \<open>A directory and a file in it, both with their types left to be inferred.\<close>

definition inferred_dir :: Manifest where
  "inferred_dir =
     minimal_manifest\<lparr>Files :=
       [File_zero\<lparr>Name := ''usr/''\<rparr>, File_zero\<lparr>Name := ''usr/hello'', Text := Some (''hi'' @ nl)\<rparr>]\<rparr>"

text \<open>The minimal manifest as \<open>Resolve\<close> leaves it.\<close>

definition minimal_resolved :: Manifest where
  "minimal_resolved =
     minimal_manifest\<lparr>Files := [File_zero\<lparr>Name := ''hello'', Type := TypeREG, Text := Some (''hi'' @ nl),
        isResolved_file := True, size_file := 3\<rparr>], installedSize := 4096, isResolved := True\<rparr>"

section \<open>Writers\<close>

text \<open>
  An \<open>io.Writer\<close>: the bytes written so far, and the number of operations that it still
  performs before one fails. Every function below gives up at the first failure, so what
  a failing operation may have written in part is not modelled.
\<close>

record Writer =
  written :: string
  credit :: nat

definition Write :: "Writer \<Rightarrow> string \<Rightarrow> Writer result" where
  "Write w p =
     (if credit w = 0 then Inl (Failure ''write error'')
      else Inr (w\<lparr>written := written w @ p, credit := credit w - 1\<rparr>))"

text \<open>\<open>fmt.Errorf(prefix + "%w", err)\<close>; a panic is not an error value and passes through.\<close>

definition wrap :: "string \<Rightarrow> error \<Rightarrow> error" where
  "wrap prefix e = (case e of Failure msg \<Rightarrow> Failure (prefix @ msg) | Fatal msg \<Rightarrow> Fatal msg)"

text \<open>
  A \<open>tar.Writer\<close> on a compressing writer on the writer \<open>under\<close>. It holds the members
  written so far, the last of them still growing, and like \<open>archive/tar\<close> the number \<open>nb\<close>
  of bytes that the last header announced and that are not written yet. An operation
  on the stream costs the underlying writer one operation; the bytes reach it when the
  compressing writer is closed.
\<close>

record TarWriter =
  compression :: CompressAlgorithm
  under :: Writer
  members :: "(Header \<times> string) list"
  nb :: int64

definition spend :: "TarWriter \<Rightarrow> TarWriter" where
  "spend tw = tw\<lparr>under := (under tw)\<lparr>credit := credit (under tw) - 1\<rparr>\<rparr>"

definition header_only :: "char \<Rightarrow> bool" where
  "header_only flag = (flag \<in> set ''123456'')"

definition WriteHeader :: "TarWriter \<Rightarrow> Header \<Rightarrow> TarWriter result" where
  "WriteHeader tw hdr =
     (if credit (under tw) = 0 then Inl (Failure ''write error'')
      else if nb tw \<noteq> 0 then Inl (Failure ''archive/tar: missed writing bytes'')
      else Inr ((spend tw)\<lparr>members := members tw @ [(hdr, [])],
                  nb := (if header_only (Typeflag hdr) then 0 else Hdr_Size hdr)\<rparr>))"

definition tar_Write :: "TarWriter \<Rightarrow> string \<Rightarrow> TarWriter result" where
  "tar_Write tw p =
     (if credit (under tw) = 0 then Inl (Failure ''write error'')
      else if nb tw <s of_nat (length p) then Inl (Failure ''archive/tar: write too long'')
      else Inr ((spend tw)\<lparr>
             members := (case rev (members tw) of
                           [] \<Rightarrow> []
                         | (hdr, d) # before \<Rightarrow> rev before @ [(hdr, d @ p)]),
             nb := nb tw - of_nat (length p)\<rparr>))"

definition tar_Close :: "TarWriter \<Rightarrow> TarWriter result" where
  "tar_Close tw =
     (if credit (under tw) = 0 then Inl (Failure ''write error'')
      else if nb tw \<noteq> 0 then Inl (Failure ''archive/tar: missed writing bytes'')
      else Inr (spend tw))"

text \<open>
  What a partition stream leaves in the underlying writer: the archive itself when the
  compression is \<open>none\<close> (\<open>nopCloseWriter\<close> passes every write on), else its compression.
\<close>

definition stream_bytes :: "Env \<Rightarrow> CompressAlgorithm \<Rightarrow> (Header \<times> string) list \<Rightarrow> string" where
  "stream_bytes env a ms =
     (if a = CompressNone then tar_bytes env ms else compressed env a (tar_bytes env ms))"

definition compress_Close :: "Env \<Rightarrow> TarWriter \<Rightarrow> Writer result" where
  "compress_Close env tw =
     (if credit (under tw) = 0 then Inl (Failure ''write error'')
      else Inr ((under tw)\<lparr>written := written (under tw) @ stream_bytes env (compression tw) (members tw),
                  credit := credit (under tw) - 1\<rparr>))"

text \<open>
  \<open>CompressAlgorithm.NewWriter\<close>, with the \<open>tar.Writer\<close> that both callers put on it at
  once. There is no case for \<open>bzip2\<close>, nor for \<open>auto\<close>.
\<close>

definition NewWriter :: "Env \<Rightarrow> CompressAlgorithm \<Rightarrow> Writer \<Rightarrow> TarWriter result" where
  "NewWriter env a w =
     (let tw = \<lparr>compression = a, under = w, members = [], nb = 0\<rparr> in
      if a = CompressNone then Inr tw
      else if a = CompressGZIP then
        (if newWriter_fails env a then Inl (Failure ''gzip.NewWriterLevel'') else Inr tw)
      else if a = CompressXZ then
        (if newWriter_fails env a then Inl (Failure ''xz.NewWriter'') else Inr tw)
      else if a = CompressZSTD then
        (if newWriter_fails env a then Inl (Failure ''zstd.NewWriter'') else Inr tw)
      else Inl (Fatal ''not implemented''))"

section \<open>Builder\<close>

text \<open>\<open>Hashes\<close> is a slice: \<open>None\<close> is \<open>nil\<close>, which is not the empty list.\<close>

record Builder =
  Root :: FS
  ZeroTime :: Time
  Compression :: CompressAlgorithm
  Hashes :: "HashAlgorithm list option"

definition fillDefaults :: "Builder \<Rightarrow> Builder" where
  "fillDefaults builder =
     builder\<lparr>
       ZeroTime := (if IsZero (ZeroTime builder) then 1577836800 else ZeroTime builder),
       Compression := (if Compression builder = CompressAuto then CompressGZIP
                       else Compression builder),
       Hashes := (if Hashes builder = None then Some standardHashes else Hashes builder)\<rparr>"

definition hash_list :: "Builder \<Rightarrow> HashAlgorithm list" where
  "hash_list builder = (case Hashes builder of None \<Rightarrow> [] | Some hs \<Rightarrow> hs)"

text \<open>\<open>HashAlgorithm.New\<close> panics on an algorithm outside the three.\<close>

definition implemented :: "HashAlgorithm \<Rightarrow> bool" where
  "implemented a = (a = HashMD5 \<or> a = HashSHA1 \<or> a = HashSHA256)"

text \<open>
  One round of the loop of \<open>BuildDataTarball\<close>: the header, and for a regular file the
  content, copied through the \<open>hashWriter\<close> to the archive and to one hasher for each
  algorithm, whose sums are then stored in the entry.
\<close>

definition data_step :: "Env \<Rightarrow> Builder \<Rightarrow> nat \<Rightarrow> File \<Rightarrow> TarWriter \<Rightarrow> (File \<times> TarWriter) result" where
  "data_step env builder index file0 tw =
     (let file = file0\<lparr>isHashed_file := False, hashes := Map.empty\<rparr> in
      case AsTarHeader env file of
        Inl e \<Rightarrow> Inl e
      | Inr hdr0 \<Rightarrow>
          (let hdr = (if IsZero (ModTime hdr0) then hdr0\<lparr>ModTime := ZeroTime builder\<rparr> else hdr0) in
           case WriteHeader tw hdr of
             Inl e \<Rightarrow> Inl (in_files index (wrap ''tar.WriteHeader: '' e))
           | Inr tw1 \<Rightarrow>
               if Type file \<noteq> TypeREG then Inr (file, tw1)
               else
                 (case Reader file (Root builder) of
                    Inl e \<Rightarrow> Inl (in_files index (wrap ''Open: '' e))
                  | Inr content \<Rightarrow>
                      if \<not> list_all implemented (hash_list builder)
                      then Inl (Fatal ''not implemented'')
                      else
                        (case (if content = [] then Inr tw1 else tar_Write tw1 content) of
                           Inl e \<Rightarrow> Inl (in_files index (wrap ''Copy: '' e))
                         | Inr tw2 \<Rightarrow>
                             if Bytes file = None \<and> Text file = None \<and> os_fails env ''Close''
                             then Inl (in_files index (Failure ''Close: close error''))
                             else Inr (file\<lparr>
                                    hashes := foldl (\<lambda>m a. m(a \<mapsto> digest env a content))
                                                Map.empty (hash_list builder),
                                    isHashed_file := True\<rparr>, tw2)))))"

fun data_loop :: "Env \<Rightarrow> Builder \<Rightarrow> nat \<Rightarrow> File list \<Rightarrow> TarWriter \<Rightarrow> (File list \<times> TarWriter) result" where
  "data_loop env builder index [] tw = Inr ([], tw)"
| "data_loop env builder index (file # rest) tw =
     (case data_step env builder index file tw of
        Inl e \<Rightarrow> Inl e
      | Inr (file', tw') \<Rightarrow>
          (case data_loop env builder (index + 1) rest tw' of
             Inl e \<Rightarrow> Inl e
           | Inr (rest', tw'') \<Rightarrow> Inr (file' # rest', tw'')))"

text \<open>
  The state of the archive when \<open>BuildDataTarball\<close> has closed the \<open>tar.Writer\<close>, with the
  entries as hashed. (When it fails, Go leaves the entries hashed so far in the manifest;
  the model returns the error alone.)
\<close>

definition data_archive :: "Env \<Rightarrow> Builder \<Rightarrow> Writer \<Rightarrow> Manifest \<Rightarrow> (File list \<times> TarWriter) result" where
  "data_archive env builder0 w manifest =
     (if \<not> isResolved manifest then Inl (Fatal ''must call manifest.Resolve first'')
      else
        (let builder = fillDefaults builder0 in
         case NewWriter env (Compression builder) w of
           Inl e \<Rightarrow> Inl e
         | Inr tw \<Rightarrow>
             (case data_loop env builder 0 (Files manifest) tw of
                Inl e \<Rightarrow> Inl e
              | Inr (files', tw') \<Rightarrow>
                  (case tar_Close tw' of
                     Inl e \<Rightarrow> Inl e
                   | Inr tw'' \<Rightarrow> Inr (files', tw'')))))"

definition BuildDataTarball :: "Env \<Rightarrow> Builder \<Rightarrow> Writer \<Rightarrow> Manifest \<Rightarrow> (Writer \<times> Manifest) result" where
  "BuildDataTarball env builder w manifest =
     (case data_archive env builder w manifest of
        Inl e \<Rightarrow> Inl e
      | Inr (files', tw) \<Rightarrow>
          (case compress_Close env tw of
             Inl e \<Rightarrow> Inl e
           | Inr w' \<Rightarrow> Inr (w', manifest\<lparr>Files := files', isHashed := True\<rparr>)))"

definition writeControlFile :: "Env \<Rightarrow> Builder \<Rightarrow> TarWriter \<Rightarrow> string \<Rightarrow> bool \<Rightarrow> Buffer \<Rightarrow> TarWriter result" where
  "writeControlFile env builder tw name isExec data =
     (case data of
        None \<Rightarrow> Inr tw
      | Some d \<Rightarrow>
          (let mode = (if isExec then (unixModeREG env OR 420) OR 73 else unixModeREG env OR 420);
               hdr = \<lparr>Typeflag = tar_TypeReg, Hdr_Name = name, Linkname = [],
                      Hdr_Size = of_nat (length d), Mode = mode, Uid = 0, Gid = 0, Uname = [],
                      Gname = [], ModTime = ZeroTime builder, Devmajor = 0, Devminor = 0\<rparr>
           in case WriteHeader tw hdr of
                Inl e \<Rightarrow> Inl (wrap ''tar.WriteHeader: '' e)
              | Inr tw1 \<Rightarrow>
                  (case tar_Write tw1 d of
                     Inl e \<Rightarrow> Inl (wrap ''Write: '' e)
                   | Inr tw2 \<Rightarrow> Inr tw2)))"

text \<open>The constants above are the octal \<open>0o644\<close> and \<open>0o111\<close>.\<close>

definition checksum_line :: "HashAlgorithm \<Rightarrow> Buffer \<Rightarrow> File \<Rightarrow> Buffer" where
  "checksum_line a buf file =
     (if isHashed_file file
      then foldl WriteString buf
             [EncodeToString (case hashes file a of None \<Rightarrow> [] | Some dg \<Rightarrow> dg), ''  '',
              Name file, nl]
      else buf)"

text \<open>The loop over the algorithms, with the buffer that it fills and resets.\<close>

fun checksum_loop :: "Env \<Rightarrow> Builder \<Rightarrow> File list \<Rightarrow> HashAlgorithm list \<Rightarrow> Buffer \<Rightarrow> TarWriter \<Rightarrow> TarWriter result" where
  "checksum_loop env builder files [] buf tw = Inr tw"
| "checksum_loop env builder files (a # rest) buf tw =
     (let buf' = foldl (checksum_line a) buf files in
      case writeControlFile env builder tw (FileName a) False buf' of
        Inl e \<Rightarrow> Inl e
      | Inr tw' \<Rightarrow> checksum_loop env builder files rest (Reset buf') tw')"

text \<open>
  \<open>writeControlFile\<close> for a text that a method of the manifest renders; the method runs
  first, and may panic.
\<close>

definition write_rendered :: "Env \<Rightarrow> Builder \<Rightarrow> string \<Rightarrow> bool \<Rightarrow> Buffer result \<Rightarrow> TarWriter \<Rightarrow> TarWriter result" where
  "write_rendered env builder name isExec rendered tw =
     (case rendered of
        Inl e \<Rightarrow> Inl e
      | Inr data \<Rightarrow> writeControlFile env builder tw name isExec data)"

definition and_then :: "'a result \<Rightarrow> ('a \<Rightarrow> 'b result) \<Rightarrow> 'b result" where
  "and_then r f = (case r of Inl e \<Rightarrow> Inl e | Inr x \<Rightarrow> f x)"

text \<open>The state of the archive when \<open>BuildControlTarball\<close> has closed the \<open>tar.Writer\<close>.\<close>

definition control_archive :: "Env \<Rightarrow> Builder \<Rightarrow> Writer \<Rightarrow> Manifest \<Rightarrow> TarWriter result" where
  "control_archive env builder0 w manifest =
     (if \<not> isResolved manifest then Inl (Fatal ''must call manifest.Resolve first'')
      else if \<not> isHashed manifest then Inl (Fatal ''must call BuildDataTarball first'')
      else
        (let builder = fillDefaults builder0 in
         and_then (NewWriter env (Compression builder) w) (\<lambda>tw.
         and_then (write_rendered env builder ''control'' False (ControlFile manifest) tw) (\<lambda>tw.
         and_then (checksum_loop env builder (Files manifest) (hash_list builder) (Grow None) tw) (\<lambda>tw.
         and_then (write_rendered env builder ''conffiles'' False (ConfFiles manifest) tw) (\<lambda>tw.
         and_then (write_rendered env builder ''preinst'' True (PreInstallScript manifest) tw) (\<lambda>tw.
         and_then (write_rendered env builder ''postinst'' True (PostInstallScript manifest) tw) (\<lambda>tw.
         and_then (write_rendered env builder ''prerm'' True (PreRemoveScript manifest) tw) (\<lambda>tw.
         and_then (write_rendered env builder ''postrm'' True (PostRemoveScript manifest) tw)
           tar_Close)))))))))"

definition BuildControlTarball :: "Env \<Rightarrow> Builder \<Rightarrow> Writer \<Rightarrow> Manifest \<Rightarrow> Writer result" where
  "BuildControlTarball env builder w manifest =
     and_then (control_archive env builder w manifest) (compress_Close env)"

section \<open>The container\<close>

text \<open>The verb \<open>%-10d\<close>: the decimal digits, then spaces up to a width of 10.\<close>

definition pad_right :: "nat \<Rightarrow> string \<Rightarrow> string" where
  "pad_right n s = s @ replicate (n - length s) CHR '' ''"

definition header_template :: string where
  "header_template =
     ''????????'' @ ''????????'' @ ''15778368'' @ ''00  0   '' @ ''  0     '' @ ''100644  ''
       @ ''????????'' @ ''??'' @ [CHR 0x60, CHR 0x0A]"

definition writeArEntry :: "Writer \<Rightarrow> string \<Rightarrow> int64 \<Rightarrow> string \<Rightarrow> Writer result" where
  "writeArEntry w name sz r =
     (if length name > 16 then Inl (Fatal ''name exceeds 16 bytes'')
      else if sz <s 0 then Inl (Fatal ''size is negative'')
      else
        (let sizeString = pad_right 10 (FormatInt (sint sz)) in
         if length sizeString \<noteq> 10
         then Inl (Fatal ''internal error: formatted size should be exactly 10 bytes'')
         else
           (let hdr1 = foldl (\<lambda>hdr i. hdr[i := (if i < length name then name ! i else CHR '' '')])
                         header_template [0 ..< 16];
                hdr2 = foldl (\<lambda>hdr i. hdr[i + 48 := sizeString ! i]) hdr1 [0 ..< 10]
            in case Write w hdr2 of
                 Inl e \<Rightarrow> Inl (wrap ''Write: '' e)
               | Inr w1 \<Rightarrow>
                   (case (if r = [] then Inr w1 else Write w1 r) of
                      Inl e \<Rightarrow> Inl (wrap ''Copy: '' e)
                    | Inr w2 \<Rightarrow>
                        if sz AND 1 \<noteq> 0
                        then (case Write w2 nl of
                                Inl e \<Rightarrow> Inl (wrap ''Write: '' e)
                              | Inr w3 \<Rightarrow> Inr w3)
                        else Inr w2))))"

text \<open>
  \<open>Builder.writeArFile\<close>. The two files are the temporary files as the partition builds
  have left them; seeking to the end gives the size, and the copy reads from the start.
\<close>

definition writeArFile :: "Env \<Rightarrow> Builder \<Rightarrow> Writer \<Rightarrow> Writer \<Rightarrow> Writer \<Rightarrow> Writer result" where
  "writeArFile env builder w controlFile dataFile =
     (if os_fails env ''Seek'' then Inl (Failure ''Seek'')
      else
        (let controlSize = (of_nat (length (written controlFile)) :: int64);
             dataSize = (of_nat (length (written dataFile)) :: int64);
             arMagic = ''!<arch>'' @ nl;
             debianBinary = ''2.0'' @ nl;
             suffix = Suffix (Compression builder)
         in case Write w arMagic of
              Inl e \<Rightarrow> Inl (wrap ''Write: '' e)
            | Inr w1 \<Rightarrow>
                and_then (writeArEntry w1 ''debian-binary'' (of_nat (length debianBinary)) debianBinary) (\<lambda>w2.
                and_then (writeArEntry w2 (''control.tar'' @ suffix) controlSize (written controlFile)) (\<lambda>w3.
                writeArEntry w3 (''data.tar'' @ suffix) dataSize (written dataFile)))))"

text \<open>
  \<open>Builder.Build\<close>. The temporary files start empty. The manifest is a pointer: the caller
  sees it resolved and hashed.
\<close>

definition Build :: "Env \<Rightarrow> Builder \<Rightarrow> Writer \<Rightarrow> Manifest \<Rightarrow> (Writer \<times> Manifest) result" where
  "Build env builder0 w manifest0 =
     (let builder = fillDefaults builder0 in
      case Manifest_Resolve manifest0 (Root builder) of
        Inl e \<Rightarrow> Inl e
      | Inr manifest \<Rightarrow>
          if os_fails env ''MkdirTemp'' then Inl (Failure ''failed to create temporary directory'')
          else if os_fails env ''OpenFile control'' \<or> os_fails env ''OpenFile data''
            then Inl (Failure ''failed to create temporary file'')
          else
            (let temp = \<lparr>written = [], credit = temp_credit env\<rparr> in
             case BuildDataTarball env builder temp manifest of
               Inl e \<Rightarrow> Inl (wrap ''failed to build data tarball in temporary file: '' e)
             | Inr (dataFile, hashed) \<Rightarrow>
                 (case BuildControlTarball env builder temp hashed of
                    Inl e \<Rightarrow> Inl (wrap ''failed to build control tarball in temporary file: '' e)
                  | Inr controlFile \<Rightarrow>
                      (case writeArFile env builder w controlFile dataFile of
                         Inl e \<Rightarrow> Inl e
                       | Inr w' \<Rightarrow>
                           if os_fails env ''RemoveAll''
                           then Inl (Failure ''failed to clean up temporary directory'')
                           else Inr (w', hashed)))))"

section \<open>The container format, by the words of the specification\<close>

text \<open>
  The header of a container entry: the name padded with spaces to 16 bytes, the fixed
  block of time stamp, owner, group and mode, the size in decimal padded with spaces to
  10 bytes, and the two closing bytes. An entry is its header, its bytes, and a newline
  when the size is odd.
\<close>

definition ar_header :: "string \<Rightarrow> int \<Rightarrow> string" where
  "ar_header name n =
     pad_right 16 name @ ''1577836800  0     0     100644  '' @ pad_right 10 (FormatInt n)
       @ [CHR 0x60, CHR 0x0A]"

definition ar_entry :: "string \<Rightarrow> int \<Rightarrow> string \<Rightarrow> string" where
  "ar_entry name n content = ar_header name n @ content @ (if odd n then nl else [])"

definition plenty :: Writer where
  "plenty = \<lparr>written = [], credit = 100\<rparr>"

section \<open>The control partition, by the words of the specification\<close>

text \<open>
  A member of the control partition: a regular file of the given name and content, with
  the fixed time stamp, and with mode \<open>0644\<close>, or \<open>0755\<close> for a script, on top of the
  file-type bits.
\<close>

definition control_header :: "Env \<Rightarrow> Builder \<Rightarrow> string \<Rightarrow> bool \<Rightarrow> string \<Rightarrow> Header" where
  "control_header env builder name isExec d =
     \<lparr>Typeflag = tar_TypeReg, Hdr_Name = name, Linkname = [], Hdr_Size = of_nat (length d),
      Mode = unixModeREG env OR (if isExec then 493 else 420), Uid = 0, Gid = 0, Uname = [],
      Gname = [], ModTime = ZeroTime builder, Devmajor = 0, Devminor = 0\<rparr>"

definition control_member :: "Env \<Rightarrow> Builder \<Rightarrow> string \<Rightarrow> bool \<Rightarrow> string \<Rightarrow> Header \<times> string" where
  "control_member env builder name isExec d = (control_header env builder name isExec d, d)"

definition control_text :: "Manifest \<Rightarrow> string" where
  "control_text manifest = concat (control_pieces manifest)"

text \<open>A checksum file: for each hashed entry the digest in hexadecimal, two spaces, the name.\<close>

definition checksum_text :: "File list \<Rightarrow> HashAlgorithm \<Rightarrow> string" where
  "checksum_text files a =
     concat (map (\<lambda>file. EncodeToString (case hashes file a of None \<Rightarrow> [] | Some dg \<Rightarrow> dg)
                          @ ''  '' @ Name file @ nl)
                 (filter isHashed_file files))"

definition conffiles_text :: "File list \<Rightarrow> string" where
  "conffiles_text files = concat (map (\<lambda>file. Name file @ nl) (filter IsConf files))"

definition script_text :: "string list \<Rightarrow> string" where
  "script_text lines =
     ''#!/bin/bash'' @ nl @ ''set -euo pipefail'' @ nl @ ''umask 022'' @ nl @ ''cd /'' @ nl
       @ concat (map (\<lambda>line. line @ nl) lines)"

definition script_member :: "Env \<Rightarrow> Builder \<Rightarrow> string \<Rightarrow> string list \<Rightarrow> (Header \<times> string) list" where
  "script_member env builder name lines =
     (if lines = [] then [] else [control_member env builder name True (script_text lines)])"

text \<open>
  The members in their order. The builder is the one with its defaults filled in. The
  file \<open>conffiles\<close> is there when some entry is marked as a configuration file.
\<close>

definition control_members :: "Env \<Rightarrow> Builder \<Rightarrow> Manifest \<Rightarrow> (Header \<times> string) list" where
  "control_members env builder manifest =
     [control_member env builder ''control'' False (control_text manifest)]
     @ map (\<lambda>a. control_member env builder (FileName a) False (checksum_text (Files manifest) a))
         (hash_list builder)
     @ (if filter IsConf (Files manifest) = [] then []
        else [control_member env builder ''conffiles'' False (conffiles_text (Files manifest))])
     @ script_member env builder ''preinst'' (PreInstall manifest)
     @ script_member env builder ''postinst'' (PostInstall manifest)
     @ script_member env builder ''prerm'' (PreRemove manifest)
     @ script_member env builder ''postrm'' (PostRemove manifest)"

text \<open>An archive after more members, complete ones, and after some operations.\<close>

definition grown :: "TarWriter \<Rightarrow> (Header \<times> string) list \<Rightarrow> nat \<Rightarrow> TarWriter" where
  "grown tw ms c =
     tw\<lparr>under := (under tw)\<lparr>credit := credit (under tw) - c\<rparr>, members := members tw @ ms\<rparr>"

text \<open>
  The bytes that the reader of an entry delivers, and the checksum file that the
  specification asks for: a line for each regular file, with the digest of those bytes.
\<close>

definition entry_content :: "FS \<Rightarrow> File \<Rightarrow> string" where
  "entry_content root file =
     (case Bytes file of
        Some b \<Rightarrow> b
      | None \<Rightarrow>
          (case Text file of
             Some t \<Rightarrow> t
           | None \<Rightarrow>
               (case Open root (case Path file of Some p \<Rightarrow> p | None \<Rightarrow> Name file) of
                  Some content \<Rightarrow> content
                | None \<Rightarrow> [])))"

definition checksum_file :: "Env \<Rightarrow> FS \<Rightarrow> File list \<Rightarrow> HashAlgorithm \<Rightarrow> string" where
  "checksum_file env root files a =
     concat (map (\<lambda>file. EncodeToString (digest env a (entry_content root file)) @ ''  ''
                          @ Name file @ nl)
                 (filter (\<lambda>file. Type file = TypeREG) files))"

text \<open>What \<open>writeControlFile\<close> adds for a rendered text: nothing for \<open>nil\<close>.\<close>

definition optional_member :: "Env \<Rightarrow> Builder \<Rightarrow> string \<Rightarrow> bool \<Rightarrow> Buffer \<Rightarrow> (Header \<times> string) list" where
  "optional_member env b name ex data =
     (case data of None \<Rightarrow> [] | Some d \<Rightarrow> [control_member env b name ex d])"

section \<open>An environment and a builder for the examples\<close>

text \<open>
  The mode constants of Linux; the libraries are stood in for by functions that keep
  their input visible.
\<close>

definition plain_env :: Env where
  "plain_env =
     \<lparr>unixModeFMT = 61440, unixModeDIR = 16384, unixModeREG = 32768, unixModeLNK = 40960,
      unixModeFIFO = 4096, unixModeCHR = 8192, unixModeBLK = 24576,
      digest = (\<lambda>a content. Hash_String a @ '':'' @ content),
      tar_bytes = (\<lambda>ms. concat (map (\<lambda>(hdr, d). Hdr_Name hdr @ ''='' @ d) ms)),
      compressed = (\<lambda>a archive. Compress_String a @ '':'' @ archive),
      newWriter_fails = (\<lambda>a. False),
      os_fails = (\<lambda>call. False),
      temp_credit = 100\<rparr>"

definition Builder_zero :: Builder where
  "Builder_zero = \<lparr>Root = empty_fs, ZeroTime = Time_zero, Compression = CompressAuto, Hashes = None\<rparr>"

text \<open>
  The minimal manifest after \<open>Resolve\<close> and \<open>BuildDataTarball\<close> with this environment and
  builder; and a manifest in that state whose entry is marked as a configuration file and
  that has one line of post-installation script.
\<close>

definition minimal_hashed :: Manifest where
  "minimal_hashed =
     minimal_resolved\<lparr>Files := [File_zero\<lparr>Name := ''hello'', Type := TypeREG, Text := Some (''hi'' @ nl),
        isResolved_file := True, size_file := 3, isHashed_file := True,
        hashes := foldl (\<lambda>m a. m(a \<mapsto> digest plain_env a (''hi'' @ nl))) Map.empty standardHashes\<rparr>],
       isHashed := True\<rparr>"

definition conf_hashed :: Manifest where
  "conf_hashed =
     minimal_hashed\<lparr>Files := map (\<lambda>file. file\<lparr>IsConf := True\<rparr>) (Files minimal_hashed),
       PostInstall := [''ldconfig'']\<rparr>"

section \<open>Facts about the library functions\<close>

lemmas char_tables = digit_val_def lower_char_def upper_chars_def lower_chars_def digit_char_def upt_rec

lemma signed_value_range:
  "signed_value neg body = Some i \<Longrightarrow> - (2 ^ 63) \<le> i \<and> i < 2 ^ 63"
  unfolding signed_value_def
  by (cases "parse_digits 10 0 body"; cases neg) (auto split: if_splits)

lemma ParseInt_range: "ParseInt s = Some i \<Longrightarrow> - (2 ^ 63) \<le> i \<and> i < 2 ^ 63"
  unfolding ParseInt_def
  by (cases s) (auto split: if_splits dest: signed_value_range)

lemma sint_word_of_int_64:
  "- (2 ^ 63) \<le> i \<Longrightarrow> i < 2 ^ 63 \<Longrightarrow> sint (word_of_int i :: int64) = i"
  by (simp add: sint_sbintrunc' signed_take_bit_int_eq_self)

lemma ParseInt_foo: "ParseInt ''foo'' = None"
  by (simp add: ParseInt_def signed_value_def char_tables)

lemma ParseInt_12: "ParseInt ''12'' = Some 12"
  by (simp add: ParseInt_def signed_value_def char_tables)

section \<open>Round trips of the primitive types\<close>

lemmas enum_defs = TypeAUTO_def TypeDIR_def TypeREG_def TypeLNK_def TypeFIFO_def TypeCHR_def TypeBLK_def
  HashMD5_def HashSHA1_def HashSHA256_def CompressAuto_def CompressNone_def CompressGZIP_def
  CompressBZIP2_def CompressXZ_def CompressZSTD_def

lemma byte_cases_7:
  assumes "(ft :: byte) < 7"
  shows "ft = 0 \<or> ft = 1 \<or> ft = 2 \<or> ft = 3 \<or> ft = 4 \<or> ft = 5 \<or> ft = 6"
proof -
  from assms have "unat ft < 7" by (simp add: word_less_nat_alt)
  then have "unat ft = 0 \<or> unat ft = 1 \<or> unat ft = 2 \<or> unat ft = 3 \<or> unat ft = 4
      \<or> unat ft = 5 \<or> unat ft = 6" by arith
  then show ?thesis by (simp add: word_unat_eq_iff)
qed

lemma Type_roundtrip:
  assumes "Type_IsValid ft" "ft \<noteq> TypeLNK"
  shows "Type_Parse (Type_String ft) = (ft, None)"
proof -
  from assms(1) have "ft < 7" by (simp add: Type_IsValid_def fileTypeGoNameArray_def)
  from byte_cases_7 [OF this] assms(2) show ?thesis
    by (elim disjE)
       (simp_all add: Type_String_def Type_Parse_def fileTypeNameArray_def fileTypeAliasMap_def
          ToLower_def char_tables enum_defs)
qed

lemma Hash_roundtrip:
  assumes "algo \<in> set standardHashes"
  shows "Hash_Parse (Hash_String algo) = (algo, None)"
proof -
  from assms have "algo = 0 \<or> algo = 1 \<or> algo = 2"
    by (simp add: standardHashes_def enum_defs)
  then show ?thesis
    by (elim disjE)
       (simp_all add: Hash_String_def Hash_Parse_def hashNameArray_def hashMap_def
          ToLower_def char_tables enum_defs)
qed

lemma Compress_roundtrip:
  assumes "algo < of_nat (length compressNameArray)"
  shows "Compress_Parse (Compress_String algo) = (algo, None)"
proof -
  from assms have "algo < 7" by (simp add: compressNameArray_def word_less_nat_alt)
  from byte_cases_7 [OF this] assms show ?thesis
    by (elim disjE)
       (simp_all add: Compress_String_def Compress_Parse_def compressNameArray_def compressMap_def
          ToLower_def char_tables enum_defs)
qed

lemma parse_digits_append:
  "parse_digits b acc (xs @ ys) =
     (case parse_digits b acc xs of None \<Rightarrow> None | Some a \<Rightarrow> parse_digits b a ys)"
  by (induction xs arbitrary: acc) (auto split: option.splits)

lemma digit_val_digit_char: "n < 10 \<Longrightarrow> digit_val (digit_char n) = Some n"
proof -
  have "list_all (\<lambda>k. digit_val (digit_char k) = Some k) [0 ..< 10]"
    by (simp add: char_tables)
  then show "n < 10 \<Longrightarrow> digit_val (digit_char n) = Some n"
    by (simp add: list_all_iff)
qed

lemma parse_dec_digits: "parse_digits 10 0 (dec_digits n) = Some n"
proof (induction n rule: dec_digits.induct)
  case (1 n)
  show ?case
  proof (cases "n < 10")
    case True
    then show ?thesis by (simp add: dec_digits.simps [of n] digit_val_digit_char)
  next
    case False
    with 1 have ih: "parse_digits 10 0 (dec_digits (n div 10)) = Some (n div 10)" by simp
    have "n mod 10 < 10" by simp
    then have "digit_val (digit_char (n mod 10)) = Some (n mod 10)" by (rule digit_val_digit_char)
    with False ih show ?thesis
      by (simp add: dec_digits.simps [of n] parse_digits_append)
  qed
qed

lemma dec_digits_chars: "set (dec_digits n) \<subseteq> set ''0123456789''"
proof (induction n rule: dec_digits.induct)
  case (1 n)
  have "list_all (\<lambda>k. digit_char k \<in> set ''0123456789'') [0 ..< 10]"
    by (simp add: char_tables)
  then have d: "\<And>k. k < 10 \<Longrightarrow> digit_char k \<in> set ''0123456789''"
    by (simp add: list_all_iff)
  show ?case
  proof (cases "n < 10")
    case True
    then show ?thesis using d [of n] by (simp add: dec_digits.simps [of n])
  next
    case False
    with 1 have "set (dec_digits (n div 10)) \<subseteq> set ''0123456789''" by simp
    moreover have "digit_char (n mod 10) \<in> set ''0123456789''" by (rule d) simp
    ultimately show ?thesis using False by (simp add: dec_digits.simps [of n])
  qed
qed

lemma dec_digits_nonempty: "dec_digits n \<noteq> []"
  by (simp add: dec_digits.simps [of n])

lemma ParseInt_FormatInt:
  assumes "- (2 ^ 63) \<le> i" "i < 2 ^ 63"
  shows "ParseInt (FormatInt i) = Some i"
proof (cases "i < 0")
  case True
  with assms have "nat (- i) \<le> 2 ^ 63" by simp
  with True show ?thesis
    by (simp add: FormatInt_def ParseInt_def signed_value_def parse_dec_digits dec_digits_nonempty)
next
  case False
  obtain c cs where cs: "dec_digits (nat i) = c # cs"
    using dec_digits_nonempty [of "nat i"] by (cases "dec_digits (nat i)") auto
  with dec_digits_chars [of "nat i"] have "c \<in> set ''0123456789''" by auto
  then have c: "c \<noteq> CHR ''+''" "c \<noteq> CHR ''-''" by auto
  from False assms have "nat i < 2 ^ 63" by simp
  with False c cs parse_dec_digits [of "nat i"] show ?thesis
    by (simp add: FormatInt_def ParseInt_def signed_value_def)
qed

lemma Owner_roundtrip:
  assumes "OwnerType owner = OwnerByName \<longrightarrow> plain_name (OwnerName owner)"
  shows "snd (Owner_Parse (Owner_String owner)) = None \<and>
         Owner_String (fst (Owner_Parse (Owner_String owner))) = Owner_String owner"
proof -
  consider (id) "OwnerType owner = OwnerByID"
    | (name) "OwnerType owner = OwnerByName"
    | (other) "OwnerType owner \<noteq> OwnerByID" "OwnerType owner \<noteq> OwnerByName" by blast
  then show ?thesis
  proof cases
    case id
    have "ParseInt (FormatInt (sint (OwnerID owner))) = Some (sint (OwnerID owner))"
      using sint_ge [of "OwnerID owner"] sint_lt [of "OwnerID owner"]
      by (intro ParseInt_FormatInt) simp_all
    with id show ?thesis
      by (simp add: Owner_String_def Owner_Parse_def ID_def)
  next
    case name
    then have n: "OwnerByName \<noteq> OwnerByID" "Owner_String owner = OwnerName owner"
      by (simp_all add: Owner_String_def OwnerByName_def OwnerByID_def)
    from name assms have pn: "plain_name (OwnerName owner)" by simp
    show ?thesis
    proof (cases "OwnerName owner")
      case Nil
      with n show ?thesis by (simp add: Owner_Parse_def Owner_String_def Owner_zero_def OwnerUnspecified_def OwnerByName_def OwnerByID_def)
    next
      case (Cons c rest)
      show ?thesis
      proof (cases "c = CHR ''#''")
        case False
        with Cons n show ?thesis
          by (simp add: Owner_Parse_def Owner_String_def Name_owner_def OwnerByName_def OwnerByID_def)
      next
        case True
        show ?thesis
        proof (cases "ParseInt rest")
          case None
          with True Cons n show ?thesis
            by (simp add: Owner_Parse_def Owner_String_def Name_owner_def OwnerByName_def OwnerByID_def)
        next
          case (Some i)
          with pn True Cons have f: "FormatInt i = rest" by (simp add: plain_name_def)
          from ParseInt_range [OF Some] have "sint (word_of_int i :: int64) = i"
            by (simp add: sint_word_of_int_64)
          with Some True Cons n f show ?thesis
            by (simp add: Owner_Parse_def Owner_String_def ID_def)
        qed
      qed
    qed
  next
    case other
    then show ?thesis
      by (simp add: Owner_String_def Owner_Parse_def Owner_zero_def OwnerUnspecified_def OwnerByName_def OwnerByID_def)
  qed
qed

lemma octal_digit: "a < 8 \<Longrightarrow> digit_val (''01234567'' ! a) = Some a"
proof -
  have "list_all (\<lambda>k. digit_val (''01234567'' ! k) = Some k) [0 ..< 8]"
    by (simp add: char_tables)
  then show "a < 8 \<Longrightarrow> digit_val (''01234567'' ! a) = Some a"
    by (simp add: list_all_iff)
qed

lemma unat_octal_digit: "unat (drop_bit k (num :: uint16) AND 7) = (unat num div 2 ^ k) mod 8"
proof -
  have "(7 :: uint16) = mask 3" by (simp add: mask_eq_exp_minus_1)
  then have "drop_bit k num AND 7 = take_bit 3 (drop_bit k num)"
    by (simp only: take_bit_eq_mask)
  then have "unat (drop_bit k num AND 7) = take_bit 3 (drop_bit k (unat num))"
    by (simp only: unsigned_take_bit_eq unat_drop_bit_eq)
  then show ?thesis by (simp add: take_bit_eq_mod drop_bit_eq_div)
qed

lemma appendOctal_digits:
  "appendOctal out num =
     out @ [''01234567'' ! ((unat num div 512) mod 8), ''01234567'' ! ((unat num div 64) mod 8),
            ''01234567'' ! ((unat num div 8) mod 8), ''01234567'' ! (unat num mod 8)]"
  using unat_octal_digit [of 9 num] unat_octal_digit [of 6 num] unat_octal_digit [of 3 num]
    unat_octal_digit [of 0 num]
  by (simp add: appendOctal_def Let_def)

lemma octal_sum: "((n div 512 mod 8 * 8 + n div 64 mod 8) * 8 + n div 8 mod 8) * 8 + n mod 8 = (n::nat) mod 4096"
proof -
  have "n mod 4096 = 512 * (n div 512 mod 8) + n mod 512" using mod_mult2_eq [of n 512 8] by simp
  moreover have "n mod 512 = 64 * (n div 64 mod 8) + n mod 64" using mod_mult2_eq [of n 64 8] by simp
  moreover have "n mod 64 = 8 * (n div 8 mod 8) + n mod 8" using mod_mult2_eq [of n 8 8] by simp
  ultimately show ?thesis by simp
qed

lemma octal_digit3: "(n::nat) mod 4096 div 512 mod 8 = n div 512 mod 8"
proof -
  have "n mod 4096 div 512 = n div 512 mod 8"
    using mod_mult2_eq [of n 512 8] by simp
  then show ?thesis by simp
qed

lemma octal_digit2: "(n::nat) mod 4096 div 64 mod 8 = n div 64 mod 8"
proof -
  have "n mod 4096 div 64 = n div 64 mod 64"
    using mod_mult2_eq [of n 64 64] by simp
  moreover have "n div 64 mod 64 mod 8 = n div 64 mod 8"
    by (simp add: mod_mod_cancel)
  ultimately show ?thesis by simp
qed

lemma octal_digit1: "(n::nat) mod 4096 div 8 mod 8 = n div 8 mod 8"
proof -
  have "n mod 4096 div 8 = n div 8 mod 512"
    using mod_mult2_eq [of n 8 512] by simp
  moreover have "n div 8 mod 512 mod 8 = n div 8 mod 8"
    by (simp add: mod_mod_cancel)
  ultimately show ?thesis by simp
qed

lemma octal_digit0: "(n::nat) mod 4096 mod 8 = n mod 8"
  by (simp add: mod_mod_cancel)

lemma and_4095: "(p :: uint16) AND 4095 = take_bit 12 p"
proof -
  have "(4095 :: uint16) = mask 12" by (simp add: mask_eq_exp_minus_1)
  then show ?thesis by (simp only: take_bit_eq_mask)
qed

lemma unat_and_4095: "unat ((p :: uint16) AND 4095) = unat p mod 4096"
  by (simp only: and_4095 unsigned_take_bit_eq) (simp add: take_bit_eq_mod)

lemma Perm_Parse_String: "Perm_Parse (Perm_String p) = (p AND 4095, None)"
proof -
  define n where "n = unat p"
  define a b c d where "a = n div 512 mod 8" and "b = n div 64 mod 8" and "c = n div 8 mod 8"
    and "d = n mod 8"
  have lt: "a < 8" "b < 8" "c < 8" "d < 8" by (simp_all add: a_def b_def c_def d_def)
  have str: "Perm_String p = [''01234567'' ! a, ''01234567'' ! b, ''01234567'' ! c, ''01234567'' ! d]"
    by (simp add: Perm_String_def appendOctal_digits n_def a_def b_def c_def d_def)
  have "parse_digits 8 0 (Perm_String p) = Some (((a * 8 + b) * 8 + c) * 8 + d)"
    using lt by (simp add: str octal_digit)
  also have "((a * 8 + b) * 8 + c) * 8 + d = n mod 4096"
    unfolding a_def b_def c_def d_def by (rule octal_sum)
  finally have pd: "parse_digits 8 0 (Perm_String p) = Some (n mod 4096)" .
  have "n mod 4096 < 4096" by simp
  then have small: "n mod 4096 < 2 ^ 16" by simp
  have ne: "Perm_String p \<noteq> []" by (simp add: str)
  have "unat (of_nat (n mod 4096) :: uint16) = n mod 4096"
    using small by (simp add: unat_of_nat)
  then have "(of_nat (n mod 4096) :: uint16) = p AND 4095"
    by (simp add: word_unat_eq_iff unat_and_4095 n_def)
  then have "(of_nat (n mod 4096) :: uint16) AND 4095 = p AND 4095"
    by (simp add: and_4095)
  with pd small ne show ?thesis
    by (simp add: Perm_Parse_def ParseUint_def)
qed

lemma Perm_String_masked: "Perm_String (p AND 4095) = Perm_String p"
  by (simp add: Perm_String_def appendOctal_digits unat_and_4095 octal_digit3 octal_digit2 octal_digit1 octal_digit0)

lemmas lower_eval = ToLower_def unicode_ToLower_def EncodeRune_def cont_byte_def second_ok_def
  lower_ranges_def in_range_def Let_def char_of_eq_iff

lemma lower_char_cases:
  "lower_char c = c \<or> (c \<in> set upper_chars \<and> lower_char c \<in> set lower_chars)"
  by (simp add: lower_char_def upper_chars_def lower_chars_def)

lemma letters_ascii: "c \<in> set upper_chars \<union> set lower_chars \<Longrightarrow> (of_char c :: nat) < 128"
  by (auto simp: upper_chars_def lower_chars_def)

lemma lower_char_ascii: "((of_char (lower_char c) :: nat) < 128) = ((of_char c :: nat) < 128)"
  using lower_char_cases [of c] letters_ascii [of c] letters_ascii [of "lower_char c"] by auto

lemma list_all_lower_char:
  assumes "map lower_char s = map lower_char t"
  shows "list_all (\<lambda>c. (of_char c :: nat) < 128) s = list_all (\<lambda>c. (of_char c :: nat) < 128) t"
proof -
  have m: "list_all (\<lambda>c. (of_char c :: nat) < 128) u
      = list_all (\<lambda>c. (of_char c :: nat) < 128) (map lower_char u)" for u
    by (induction u) (simp_all add: lower_char_ascii)
  show ?thesis by (simp only: m [of s] m [of t] assms)
qed

lemma ToLower_same_letters:
  assumes "list_all (\<lambda>c. (of_char c :: nat) < 128) s" "map lower_char s = map lower_char t"
  shows "ToLower s = ToLower t"
  using assms list_all_lower_char [OF assms(2)] by (simp add: ToLower_def)

lemma map_of_fixed:
  assumes "list_all (\<lambda>(k, v). f k = k) table"
  shows "(case map_of table input of Some v \<Rightarrow> g v | None \<Rightarrow> (case map_of table (f input) of Some v \<Rightarrow> g v | None \<Rightarrow> d))
       = (case map_of table (f input) of Some v \<Rightarrow> g v | None \<Rightarrow> d)"
proof (cases "map_of table input")
  case None
  then show ?thesis by simp
next
  case (Some v)
  then have "(input, v) \<in> set table" by (rule map_of_SomeD)
  with assms have "f input = input" by (auto simp: list_all_iff)
  with Some show ?thesis by simp
qed

lemma Type_keys: "list_all (\<lambda>(k, v). ToLower k = k) fileTypeAliasMap"
  by (simp add: fileTypeAliasMap_def ToLower_def lower_char_def upper_chars_def lower_chars_def)

lemma Hash_keys: "list_all (\<lambda>(k, v). ToLower k = k) hashMap"
  by (simp add: hashMap_def ToLower_def lower_char_def upper_chars_def lower_chars_def)

lemma Compress_keys: "list_all (\<lambda>(k, v). ToLower k = k) compressMap"
  by (simp add: compressMap_def ToLower_def lower_char_def upper_chars_def lower_chars_def)

lemma Type_Parse_lookup:
  "Type_Parse input =
     (case map_of fileTypeAliasMap (ToLower input) of
        Some v \<Rightarrow> (v, None)
      | None \<Rightarrow> (0, Some (Failure ''failed to parse as mkdeb.Type enum constant'')))"
  unfolding Type_Parse_def by (rule map_of_fixed [OF Type_keys])

lemma Hash_Parse_lookup:
  "Hash_Parse input =
     (case map_of hashMap (ToLower input) of
        Some v \<Rightarrow> (v, None)
      | None \<Rightarrow> (0, Some (Failure ''failed to parse as HashAlgorithm enum constant'')))"
  unfolding Hash_Parse_def by (rule map_of_fixed [OF Hash_keys])

lemma Compress_Parse_lookup:
  "Compress_Parse input =
     (case map_of compressMap (ToLower input) of
        Some v \<Rightarrow> (v, None)
      | None \<Rightarrow> (0, Some (Failure ''failed to parse as mkdeb.CompressAlgorithm enum constant'')))"
  unfolding Compress_Parse_def by (rule map_of_fixed [OF Compress_keys])

lemma ToLower_Kelvin:
  "ToLower [CHR ''L'', CHR ''I'', CHR ''N'', CHR 0xE2, CHR 0x84, CHR 0xAA] = ''link''"
  by (simp add: lower_eval)

text \<open>
  C9 (as amended). For every permission, every hash algorithm of the closed set, every
  compression algorithm, every valid entry type other than \<open>LNK\<close>, and every owner that is
  unspecified, by id, or by a name that is not \<open>#\<close> followed by a non-canonical spelling of
  an integer: parsing the formatted value succeeds and formatting the parsed value gives
  the same text again. The parse of an entry type, of a hash algorithm and of a compression
  algorithm matches its alias table case-insensitively: the result is the row of the table
  for the lower-cased input, and an error when there is none, so that two inputs with the
  same lower-casing parse alike, in particular two inputs that differ only in the case of
  ASCII letters.
\<close>

theorem primitive_roundtrip:
  "(Type_IsValid ft \<and> ft \<noteq> TypeLNK \<longrightarrow>
      snd (Type_Parse (Type_String ft)) = None \<and>
      Type_String (fst (Type_Parse (Type_String ft))) = Type_String ft) \<and>
   snd (Perm_Parse (Perm_String perm)) = None \<and>
   Perm_String (fst (Perm_Parse (Perm_String perm))) = Perm_String perm \<and>
   ((OwnerType owner = OwnerByName \<longrightarrow> plain_name (OwnerName owner)) \<longrightarrow>
      snd (Owner_Parse (Owner_String owner)) = None \<and>
      Owner_String (fst (Owner_Parse (Owner_String owner))) = Owner_String owner) \<and>
   (halgo \<in> set standardHashes \<longrightarrow>
      snd (Hash_Parse (Hash_String halgo)) = None \<and>
      Hash_String (fst (Hash_Parse (Hash_String halgo))) = Hash_String halgo) \<and>
   (calgo < of_nat (length compressNameArray) \<longrightarrow>
      snd (Compress_Parse (Compress_String calgo)) = None \<and>
      Compress_String (fst (Compress_Parse (Compress_String calgo))) = Compress_String calgo) \<and>
   Type_Parse input =
     (case map_of fileTypeAliasMap (ToLower input) of
        Some v \<Rightarrow> (v, None)
      | None \<Rightarrow> (TypeAUTO, Some (Failure ''failed to parse as mkdeb.Type enum constant''))) \<and>
   Hash_Parse input =
     (case map_of hashMap (ToLower input) of
        Some v \<Rightarrow> (v, None)
      | None \<Rightarrow> (0, Some (Failure ''failed to parse as HashAlgorithm enum constant''))) \<and>
   Compress_Parse input =
     (case map_of compressMap (ToLower input) of
        Some v \<Rightarrow> (v, None)
      | None \<Rightarrow>
          (CompressAuto, Some (Failure ''failed to parse as mkdeb.CompressAlgorithm enum constant''))) \<and>
   (ToLower s = ToLower t \<longrightarrow>
      Type_Parse s = Type_Parse t \<and> Hash_Parse s = Hash_Parse t \<and>
      Compress_Parse s = Compress_Parse t) \<and>
   (list_all (\<lambda>c. (of_char c :: nat) < 128) a \<and> map lower_char a = map lower_char b \<longrightarrow>
      Type_Parse a = Type_Parse b \<and> Hash_Parse a = Hash_Parse b \<and>
      Compress_Parse a = Compress_Parse b)"
proof (intro conjI impI)
  assume "Type_IsValid ft \<and> ft \<noteq> TypeLNK"
  then have t: "Type_Parse (Type_String ft) = (ft, None)" by (simp add: Type_roundtrip)
  from t show "snd (Type_Parse (Type_String ft)) = None" by simp
  from t show "Type_String (fst (Type_Parse (Type_String ft))) = Type_String ft" by simp
next
  show "snd (Perm_Parse (Perm_String perm)) = None" by (simp add: Perm_Parse_String)
  show "Perm_String (fst (Perm_Parse (Perm_String perm))) = Perm_String perm"
    by (simp add: Perm_Parse_String Perm_String_masked)
next
  assume o: "OwnerType owner = OwnerByName \<longrightarrow> plain_name (OwnerName owner)"
  from Owner_roundtrip [OF o] show "snd (Owner_Parse (Owner_String owner)) = None" by simp
  from Owner_roundtrip [OF o]
  show "Owner_String (fst (Owner_Parse (Owner_String owner))) = Owner_String owner" by simp
next
  assume "halgo \<in> set standardHashes"
  then have h: "Hash_Parse (Hash_String halgo) = (halgo, None)" by (rule Hash_roundtrip)
  from h show "snd (Hash_Parse (Hash_String halgo)) = None" by simp
  from h show "Hash_String (fst (Hash_Parse (Hash_String halgo))) = Hash_String halgo" by simp
next
  assume "calgo < of_nat (length compressNameArray)"
  then have c: "Compress_Parse (Compress_String calgo) = (calgo, None)" by (rule Compress_roundtrip)
  from c show "snd (Compress_Parse (Compress_String calgo)) = None" by simp
  from c show "Compress_String (fst (Compress_Parse (Compress_String calgo))) = Compress_String calgo"
    by simp
next
  show "Type_Parse input =
     (case map_of fileTypeAliasMap (ToLower input) of
        Some v \<Rightarrow> (v, None)
      | None \<Rightarrow> (TypeAUTO, Some (Failure ''failed to parse as mkdeb.Type enum constant'')))"
    by (simp only: Type_Parse_lookup [of input] TypeAUTO_def)
  show "Hash_Parse input =
     (case map_of hashMap (ToLower input) of
        Some v \<Rightarrow> (v, None)
      | None \<Rightarrow> (0, Some (Failure ''failed to parse as HashAlgorithm enum constant'')))"
    by (rule Hash_Parse_lookup)
  show "Compress_Parse input =
     (case map_of compressMap (ToLower input) of
        Some v \<Rightarrow> (v, None)
      | None \<Rightarrow>
          (CompressAuto, Some (Failure ''failed to parse as mkdeb.CompressAlgorithm enum constant'')))"
    by (simp only: Compress_Parse_lookup [of input] CompressAuto_def)
next
  assume e: "ToLower s = ToLower t"
  show "Type_Parse s = Type_Parse t"
    by (simp only: Type_Parse_lookup [of s] Type_Parse_lookup [of t] e)
  show "Hash_Parse s = Hash_Parse t"
    by (simp only: Hash_Parse_lookup [of s] Hash_Parse_lookup [of t] e)
  show "Compress_Parse s = Compress_Parse t"
    by (simp only: Compress_Parse_lookup [of s] Compress_Parse_lookup [of t] e)
next
  assume "list_all (\<lambda>c. (of_char c :: nat) < 128) a \<and> map lower_char a = map lower_char b"
  then have e: "ToLower a = ToLower b" by (simp add: ToLower_same_letters)
  show "Type_Parse a = Type_Parse b"
    by (simp only: Type_Parse_lookup [of a] Type_Parse_lookup [of b] e)
  show "Hash_Parse a = Hash_Parse b"
    by (simp only: Hash_Parse_lookup [of a] Hash_Parse_lookup [of b] e)
  show "Compress_Parse a = Compress_Parse b"
    by (simp only: Compress_Parse_lookup [of a] Compress_Parse_lookup [of b] e)
qed

theorem primitive_roundtrip_witness:
  "Type_String (fst (Type_Parse (Type_String TypeDIR))) = ''DIR'' \<and>
   Perm_String (fst (Perm_Parse (Perm_String 493))) = ''0755'' \<and>
   Owner_String (fst (Owner_Parse (Owner_String (Name_owner ''root'')))) = ''root'' \<and>
   Hash_String (fst (Hash_Parse (Hash_String HashSHA256))) = ''SHA256'' \<and>
   Compress_String (fst (Compress_Parse (Compress_String CompressZSTD))) = ''zstd'' \<and>
   Type_Parse ''Sym-Link'' = (TypeLNK, None) \<and>
   Hash_Parse ''Sha-256'' = Hash_Parse ''SHA-256'' \<and>
   Compress_Parse ''GZip'' = Compress_Parse ''gzIP'' \<and>
   Type_Parse [CHR ''L'', CHR ''I'', CHR ''N'', CHR 0xE2, CHR 0x84, CHR 0xAA] = (TypeLNK, None)"
proof -
  have v: "Type_IsValid TypeDIR \<and> TypeDIR \<noteq> TypeLNK"
    by (simp add: Type_IsValid_def fileTypeGoNameArray_def enum_defs)
  have o: "OwnerType (Name_owner ''root'') = OwnerByName \<longrightarrow>
      plain_name (OwnerName (Name_owner ''root''))"
    by (simp add: Name_owner_def plain_name_def)
  have h: "HashSHA256 \<in> set standardHashes" by (simp add: standardHashes_def)
  have c: "CompressZSTD < of_nat (length compressNameArray)"
    by (simp add: compressNameArray_def enum_defs)
  have l: "ToLower ''Sha-256'' = ToLower ''SHA-256''"
    by (simp add: ToLower_def char_tables)
  have m: "list_all (\<lambda>c. (of_char c :: nat) < 128) ''GZip'' \<and>
      map lower_char ''GZip'' = map lower_char ''gzIP''"
    by (simp add: char_tables)
  have s: "Type_String TypeDIR = ''DIR''" "Perm_String 493 = ''0755''"
    "Owner_String (Name_owner ''root'') = ''root''" "Hash_String HashSHA256 = ''SHA256''"
    "Compress_String CompressZSTD = ''zstd''"
    by (simp_all add: Type_String_def fileTypeNameArray_def Perm_String_def appendOctal_def
        Owner_String_def Name_owner_def OwnerByName_def OwnerByID_def Hash_String_def
        hashNameArray_def Compress_String_def compressNameArray_def enum_defs)
  note r = primitive_roundtrip [where ft = TypeDIR and perm = 493 and owner = "Name_owner ''root''"
      and halgo = HashSHA256 and calgo = CompressZSTD and s = "''Sha-256''" and t = "''SHA-256''"
      and a = "''GZip''" and b = "''gzIP''"]
  from r [of "''Sym-Link''"] have "Type_Parse ''Sym-Link'' = (TypeLNK, None)"
    by (simp add: ToLower_def char_tables fileTypeAliasMap_def)
  moreover from r [of "[CHR ''L'', CHR ''I'', CHR ''N'', CHR 0xE2, CHR 0x84, CHR 0xAA]"]
  have "Type_Parse [CHR ''L'', CHR ''I'', CHR ''N'', CHR 0xE2, CHR 0x84, CHR 0xAA] = (TypeLNK, None)"
    by (simp add: ToLower_Kelvin fileTypeAliasMap_def)
  moreover from r [of "[]"] v have "Type_String (fst (Type_Parse (Type_String TypeDIR))) = ''DIR''"
    unfolding s by blast
  moreover from r [of "[]"] have "Perm_String (fst (Perm_Parse (Perm_String 493))) = ''0755''"
    unfolding s by blast
  moreover from r [of "[]"] o
  have "Owner_String (fst (Owner_Parse (Owner_String (Name_owner ''root'')))) = ''root''"
    unfolding s by blast
  moreover from r [of "[]"] h
  have "Hash_String (fst (Hash_Parse (Hash_String HashSHA256))) = ''SHA256''"
    unfolding s by blast
  moreover from r [of "[]"] c
  have "Compress_String (fst (Compress_Parse (Compress_String CompressZSTD))) = ''zstd''"
    unfolding s by blast
  moreover from r [of "[]"] l have "Hash_Parse ''Sha-256'' = Hash_Parse ''SHA-256''"
    by blast
  moreover from r [of "[]"] m have "Compress_Parse ''GZip'' = Compress_Parse ''gzIP''"
    by blast
  ultimately show ?thesis by (intro conjI)
qed

text \<open>
  The claim as stated fails at the entry type \<open>LNK\<close>, whose text \<open>LNK\<close> is in no row of
  the alias table, and at the owner named \<open>#007\<close>, which reads back as the id 7.
\<close>

theorem primitive_roundtrip_counterexample:
  "Type_IsValid TypeLNK \<and>
   Type_String TypeLNK = ''LNK'' \<and>
   Type_Parse ''LNK'' = (TypeAUTO, Some (Failure ''failed to parse as mkdeb.Type enum constant'')) \<and>
   Type_String (fst (Type_Parse (Type_String TypeLNK))) = ''AUTO'' \<and>
   Owner_String (Name_owner ''#007'') = ''#007'' \<and>
   Owner_Parse ''#007'' = (ID 7, None) \<and>
   Owner_String (fst (Owner_Parse (Owner_String (Name_owner ''#007'')))) = ''#7''"
proof -
  have a: "Type_String TypeLNK = ''LNK''"
    by (simp add: Type_String_def fileTypeNameArray_def enum_defs)
  have b: "Type_Parse ''LNK'' = (TypeAUTO, Some (Failure ''failed to parse as mkdeb.Type enum constant''))"
    by (simp add: Type_Parse_def fileTypeAliasMap_def ToLower_def char_tables enum_defs)
  have c: "Type_String TypeAUTO = ''AUTO''"
    by (simp add: Type_String_def fileTypeNameArray_def enum_defs)
  have d: "Owner_String (Name_owner ''#007'') = ''#007''"
    by (simp add: Owner_String_def Name_owner_def OwnerByName_def OwnerByID_def)
  have "ParseInt ''007'' = Some 7"
    by (simp add: ParseInt_def signed_value_def char_tables)
  then have e: "Owner_Parse ''#007'' = (ID 7, None)"
    by (simp add: Owner_Parse_def)
  have f: "Owner_String (ID 7) = ''#7''"
    by (simp add: Owner_String_def ID_def FormatInt_def dec_digits.simps char_tables)
  have g: "Type_IsValid TypeLNK"
    by (simp add: Type_IsValid_def fileTypeGoNameArray_def enum_defs)
  show ?thesis by (simp add: a b c d e f g)
qed

section \<open>Owner.Parse never fails\<close>

text \<open>
  C10. \<open>Owner.Parse\<close> returns no error for any input. The empty string gives the
  unspecified owner. \<open>#\<close> followed by a string that \<open>strconv.ParseInt\<close> accepts as a decimal
  integer gives an owner of type \<open>OwnerByID\<close> whose id is that integer and whose name is
  empty; so does \<open>#\<close> followed by the decimal text of any integer that fits an \<open>int\<close>. Every
  other input, such as \<open>#foo\<close>, gives an owner of type \<open>OwnerByName\<close> whose name is the whole
  input and whose id is zero. The three owner types are different.
\<close>

theorem Owner_Parse_total:
  "snd (Owner_Parse input) = None \<and>
   fst (Owner_Parse []) = \<lparr>OwnerType = OwnerUnspecified, OwnerID = 0, OwnerName = []\<rparr> \<and>
   (ParseInt rest = Some i \<longrightarrow>
        OwnerType (fst (Owner_Parse (CHR ''#'' # rest))) = OwnerByID \<and>
        sint (OwnerID (fst (Owner_Parse (CHR ''#'' # rest)))) = i \<and>
        OwnerName (fst (Owner_Parse (CHR ''#'' # rest))) = []) \<and>
   (- (2 ^ 63) \<le> n \<and> n < 2 ^ 63 \<longrightarrow>
        fst (Owner_Parse (CHR ''#'' # FormatInt n)) =
          \<lparr>OwnerType = OwnerByID, OwnerID = word_of_int n, OwnerName = []\<rparr>) \<and>
   (input \<noteq> [] \<and> (\<forall>digits. input = CHR ''#'' # digits \<longrightarrow> ParseInt digits = None) \<longrightarrow>
        fst (Owner_Parse input) = \<lparr>OwnerType = OwnerByName, OwnerID = 0, OwnerName = input\<rparr>) \<and>
   fst (Owner_Parse ''#foo'') = \<lparr>OwnerType = OwnerByName, OwnerID = 0, OwnerName = ''#foo''\<rparr> \<and>
   fst (Owner_Parse ''#-12'') = \<lparr>OwnerType = OwnerByID, OwnerID = - 12, OwnerName = []\<rparr> \<and>
   distinct [OwnerUnspecified, OwnerByID, OwnerByName]"
proof (intro conjI impI)
  show "snd (Owner_Parse input) = None"
    by (simp add: Owner_Parse_def split: option.splits)
  show "fst (Owner_Parse []) = \<lparr>OwnerType = OwnerUnspecified, OwnerID = 0, OwnerName = []\<rparr>"
    by (simp add: Owner_Parse_def Owner_zero_def)
  show "fst (Owner_Parse ''#foo'') = \<lparr>OwnerType = OwnerByName, OwnerID = 0, OwnerName = ''#foo''\<rparr>"
    by (simp add: Owner_Parse_def ParseInt_foo Name_owner_def)
  have "ParseInt ''-12'' = Some (- 12)"
    by (simp add: ParseInt_def signed_value_def char_tables)
  then show "fst (Owner_Parse ''#-12'') = \<lparr>OwnerType = OwnerByID, OwnerID = - 12, OwnerName = []\<rparr>"
    by (simp add: Owner_Parse_def ID_def)
  show "distinct [OwnerUnspecified, OwnerByID, OwnerByName]"
    by (simp add: OwnerUnspecified_def OwnerByID_def OwnerByName_def)
next
  assume h: "ParseInt rest = Some i"
  then have p: "fst (Owner_Parse (CHR ''#'' # rest)) = ID (word_of_int i)"
    by (simp add: Owner_Parse_def)
  from p show "OwnerType (fst (Owner_Parse (CHR ''#'' # rest))) = OwnerByID"
    by (simp add: ID_def)
  from p ParseInt_range [OF h] show "sint (OwnerID (fst (Owner_Parse (CHR ''#'' # rest)))) = i"
    by (simp add: ID_def sint_word_of_int_64)
  from p show "OwnerName (fst (Owner_Parse (CHR ''#'' # rest))) = []"
    by (simp add: ID_def)
next
  assume "- (2 ^ 63) \<le> n \<and> n < 2 ^ 63"
  then have "ParseInt (FormatInt n) = Some n" by (simp add: ParseInt_FormatInt)
  then show "fst (Owner_Parse (CHR ''#'' # FormatInt n)) =
      \<lparr>OwnerType = OwnerByID, OwnerID = word_of_int n, OwnerName = []\<rparr>"
    by (simp add: Owner_Parse_def ID_def)
next
  assume h: "input \<noteq> [] \<and> (\<forall>digits. input = CHR ''#'' # digits \<longrightarrow> ParseInt digits = None)"
  then obtain c cs where ic: "input = c # cs" by (cases input) auto
  show "fst (Owner_Parse input) = \<lparr>OwnerType = OwnerByName, OwnerID = 0, OwnerName = input\<rparr>"
  proof (cases "c = CHR ''#''")
    case True
    with h ic have "ParseInt cs = None" by simp
    with ic True show ?thesis by (simp add: Owner_Parse_def Name_owner_def)
  next
    case False
    with ic show ?thesis by (simp add: Owner_Parse_def Name_owner_def)
  qed
qed

theorem Owner_Parse_total_witness:
  "ParseInt ''12'' = Some 12 \<and>
   OwnerType (fst (Owner_Parse ''#12'')) = OwnerByID \<and>
   sint (OwnerID (fst (Owner_Parse ''#12''))) = 12 \<and>
   FormatInt 4096 = ''4096'' \<and>
   fst (Owner_Parse ''#4096'') = \<lparr>OwnerType = OwnerByID, OwnerID = 4096, OwnerName = []\<rparr> \<and>
   fst (Owner_Parse ''root'') = \<lparr>OwnerType = OwnerByName, OwnerID = 0, OwnerName = ''root''\<rparr>"
proof -
  note t = Owner_Parse_total [of "''root''" "''12''" 12 4096]
  have f: "FormatInt 4096 = ''4096''"
    by (simp add: FormatInt_def dec_digits.simps char_tables)
  have r: "- (2 ^ 63) \<le> (4096 :: int) \<and> (4096 :: int) < 2 ^ 63" by simp
  have b: "''root'' \<noteq> [] \<and> (\<forall>digits. ''root'' = CHR ''#'' # digits \<longrightarrow> ParseInt digits = None)"
    by simp
  from t ParseInt_12 have "OwnerType (fst (Owner_Parse ''#12'')) = OwnerByID"
    and "sint (OwnerID (fst (Owner_Parse ''#12''))) = 12"
    by blast+
  moreover from t r
  have "fst (Owner_Parse (CHR ''#'' # FormatInt 4096)) =
      \<lparr>OwnerType = OwnerByID, OwnerID = word_of_int 4096, OwnerName = []\<rparr>"
    by blast
  then have "fst (Owner_Parse ''#4096'') = \<lparr>OwnerType = OwnerByID, OwnerID = 4096, OwnerName = []\<rparr>"
    by (simp add: f)
  moreover from t b
  have "fst (Owner_Parse ''root'') = \<lparr>OwnerType = OwnerByName, OwnerID = 0, OwnerName = ''root''\<rparr>"
    by blast
  ultimately show ?thesis using ParseInt_12 f by (intro conjI)
qed

section \<open>The cross-entry validation pass\<close>

lemma all_less_Suc_split: "(\<forall>i < Suc n. P i) \<longleftrightarrow> P 0 \<and> (\<forall>i < n. P (Suc i))"
  by (auto simp: less_Suc_eq_0_disj)

lemma implicit_dirs_loop_Inr:
  "implicit_dirs_loop index dirs known = Inr K \<longleftrightarrow>
     (\<forall>d \<in> set dirs. isValidUnixPath d) \<and> K = known \<union> (\<lambda>dir. TrimRight dir ''/'') ` set dirs"
  by (induction dirs arbitrary: index known) auto

lemma implicit_dirs_loop_Inl:
  "implicit_dirs_loop index dirs known = Inl e \<Longrightarrow> \<exists>msg. e = Failure msg"
  by (induction dirs arbitrary: index known) (auto split: if_splits)

lemma files_loop_Some:
  "files_loop index files known seen = Some e \<Longrightarrow> \<exists>msg. e = Failure msg"
  by (induction files arbitrary: index known seen) (auto simp: Let_def split: if_splits)

lemma dirs_of_Cons:
  "dirs_of (file # files) =
     (if Type file = TypeDIR then insert (TrimRight (Name file) ''/'') (dirs_of files) else dirs_of files)"
  by (auto simp: dirs_of_def)

lemma dirs_of_Nil: "dirs_of [] = {}"
  by (simp add: dirs_of_def)

lemma files_loop_None:
  "files_loop index files known seen = None \<longleftrightarrow>
     distinct (map Name files) \<and> (\<forall>file \<in> set files. seen (Name file) = None) \<and>
     (\<forall>i < length files. parent_dir (files ! i) \<in> known \<union> dirs_of (take i files))"
proof (induction files arbitrary: index known seen)
  case Nil
  show ?case by simp
next
  case (Cons f rest)
  let ?known = "if Type f = TypeDIR then insert (TrimRight (Name f) ''/'') known else known"
  let ?seen = "seen(Name f \<mapsto> index)"
  have step: "files_loop index (f # rest) known seen = None \<longleftrightarrow>
      seen (Name f) = None \<and> parent_dir f \<in> known \<and>
      files_loop (index + 1) rest ?known ?seen = None"
    by (simp add: Let_def parent_dir_def)
  have seen: "(\<forall>g \<in> set rest. ?seen (Name g) = None) \<longleftrightarrow>
      Name f \<notin> Name ` set rest \<and> (\<forall>g \<in> set rest. seen (Name g) = None)"
    by (auto simp: image_iff)
  have known: "\<And>i. ?known \<union> dirs_of (take i rest) = known \<union> dirs_of (take (Suc i) (f # rest))"
    by (auto simp: dirs_of_Cons)
  show ?case
    unfolding step Cons.IH seen known
    by (auto simp: all_less_Suc_split dirs_of_Nil)
qed

lemma validatePost_None:
  "validatePost manifest = None \<longleftrightarrow>
     (\<forall>dir \<in> set (ImplicitDirs manifest). isValidUnixPath dir) \<and>
     distinct (map Name (Files manifest)) \<and>
     (\<forall>i < length (Files manifest).
        parent_dir (Files manifest ! i) \<in> declared_before manifest i)"
proof (cases "implicit_dirs_loop 0 (ImplicitDirs manifest) {''.''}")
  case (Inl e)
  then have "\<not> (\<forall>dir \<in> set (ImplicitDirs manifest). isValidUnixPath dir)"
    using implicit_dirs_loop_Inr [of 0 "ImplicitDirs manifest" "{''.''}"] by auto
  with Inl show ?thesis by (simp add: validatePost_def)
next
  case (Inr K)
  then have K: "(\<forall>dir \<in> set (ImplicitDirs manifest). isValidUnixPath dir)"
    "K = {''.''} \<union> (\<lambda>dir. TrimRight dir ''/'') ` set (ImplicitDirs manifest)"
    using implicit_dirs_loop_Inr [of 0 "ImplicitDirs manifest" "{''.''}" K] by auto
  from Inr K show ?thesis
    by (simp add: validatePost_def files_loop_None declared_before_def)
qed

lemma validatePost_Some: "validatePost manifest = Some e \<Longrightarrow> \<exists>msg. e = Failure msg"
  by (auto simp: validatePost_def split: sum.splits dest: implicit_dirs_loop_Inl files_loop_Some)

text \<open>
  C5. The cross-entry pass \<open>validatePost\<close> accepts a manifest exactly when its implicit
  directories are Unix paths, no two entries share a name, and the parent directory of
  every entry is \<open>.\<close>, an implicit directory or an entry of type \<open>DIR\<close> in front of it. When
  it rejects, it returns an error, never a panic: so it does for two entries of one name,
  and for an entry whose parent directory is declared nowhere or only further down.
\<close>

theorem validatePost_order:
  "(validatePost manifest = None \<longleftrightarrow>
      (\<forall>dir \<in> set (ImplicitDirs manifest). isValidUnixPath dir) \<and>
      distinct (map Name (Files manifest)) \<and>
      (\<forall>i < length (Files manifest).
         parent_dir (Files manifest ! i) \<in> declared_before manifest i)) \<and>
   (validatePost manifest \<noteq> None \<longrightarrow> (\<exists>msg. validatePost manifest = Some (Failure msg))) \<and>
   ((\<exists>i j. i < j \<and> j < length (Files manifest) \<and>
        Name (Files manifest ! i) = Name (Files manifest ! j)) \<longrightarrow>
      (\<exists>msg. validatePost manifest = Some (Failure msg))) \<and>
   ((\<exists>i < length (Files manifest).
        parent_dir (Files manifest ! i) \<notin> declared_before manifest i) \<longrightarrow>
      (\<exists>msg. validatePost manifest = Some (Failure msg)))"
proof -
  have fails: "validatePost manifest \<noteq> None \<Longrightarrow> \<exists>msg. validatePost manifest = Some (Failure msg)"
    using validatePost_Some [of manifest] by (cases "validatePost manifest") auto
  have dup: "\<exists>msg. validatePost manifest = Some (Failure msg)"
    if "\<exists>i j. i < j \<and> j < length (Files manifest) \<and>
        Name (Files manifest ! i) = Name (Files manifest ! j)"
  proof -
    from that obtain i j where ij: "i < j" "j < length (Files manifest)"
      "Name (Files manifest ! i) = Name (Files manifest ! j)" by blast
    then have "map Name (Files manifest) ! i = map Name (Files manifest) ! j" by simp
    with ij have "\<not> distinct (map Name (Files manifest))"
      by (metis distinct_conv_nth length_map less_trans nat_neq_iff)
    then have "validatePost manifest \<noteq> None" by (simp add: validatePost_None)
    then show ?thesis by (rule fails)
  qed
  have undeclared: "\<exists>msg. validatePost manifest = Some (Failure msg)"
    if "\<exists>i < length (Files manifest). parent_dir (Files manifest ! i) \<notin> declared_before manifest i"
  proof -
    from that have "validatePost manifest \<noteq> None" by (auto simp: validatePost_None)
    then show ?thesis by (rule fails)
  qed
  from fails dup undeclared show ?thesis
    using validatePost_None [of manifest] by blast
qed

lemmas path_eval = Dir_def Clean_def clean_step_def TrimRight_def HasSuffix_def

theorem validatePost_order_witness:
  "(\<exists>msg. validatePost dir_late = Some (Failure msg)) \<and>
   validatePost dir_early = None \<and>
   (\<exists>msg. validatePost same_name = Some (Failure msg))"
proof -
  have late: "\<exists>i < length (Files dir_late). parent_dir (Files dir_late ! i) \<notin> declared_before dir_late i"
  proof -
    have "parent_dir (Files dir_late ! 0) \<notin> declared_before dir_late 0"
      by (simp add: dir_late_def Manifest_zero_def File_zero_def parent_dir_def declared_before_def
          dirs_of_def path_eval)
    moreover have "0 < length (Files dir_late)" by (simp add: dir_late_def)
    ultimately show ?thesis by blast
  qed
  have same: "\<exists>i j. i < j \<and> j < length (Files same_name) \<and>
      Name (Files same_name ! i) = Name (Files same_name ! j)"
  proof -
    have "(0::nat) < 1 \<and> 1 < length (Files same_name) \<and>
        Name (Files same_name ! 0) = Name (Files same_name ! 1)"
      by (simp add: same_name_def)
    then show ?thesis by blast
  qed
  have early: "validatePost dir_early = None"
    by (simp add: validatePost_def dir_early_def Manifest_zero_def File_zero_def path_eval enum_defs)
  from validatePost_order [of dir_late] late
  have a: "\<exists>msg. validatePost dir_late = Some (Failure msg)" by blast
  from validatePost_order [of same_name] same
  have b: "\<exists>msg. validatePost same_name = Some (Failure msg)" by blast
  from a early b show ?thesis by blast
qed

section \<open>Block rounding\<close>

lemma unat_small_sint:
  fixes w :: int64
  assumes "unat w < 2 ^ 63"
  shows "sint w = int (unat w)"
proof -
  from assms have "int (unat w) < int (2 ^ 63)" by (simp only: of_nat_less_iff)
  then have "uint w < 2 ^ 63" by simp
  moreover have "- (2 ^ 63) \<le> uint w" by (rule order_trans [of _ 0]) simp_all
  ultimately have "signed_take_bit 63 (uint w) = uint w"
    by (rule signed_take_bit_int_eq_self [rotated])
  then have "sint w = uint w" by (simp add: sint_uint)
  then show ?thesis by simp
qed

lemma sint_nonneg_unat:
  fixes w :: int64
  assumes "0 \<le> sint w"
  shows "unat w < 2 ^ 63" and "sint w = int (unat w)"
proof -
  have lt: "sint w < 2 ^ 63" using sint_lt [of w] by simp
  have "uint (word_of_int (sint w) :: int64) = take_bit LENGTH(64) (sint w)"
    by (simp only: uint_word_of_int_eq)
  also have "\<dots> = sint w"
    using assms lt by (simp add: take_bit_int_eq_self)
  finally have u: "uint w = sint w" by simp
  with lt have "int (unat w) < int (2 ^ 63)" by simp
  then show "unat w < 2 ^ 63" by (simp only: of_nat_less_iff)
  from u show "sint w = int (unat w)" by simp
qed

lemma not_sless_zero: "\<not> (w :: int64) <s 0 \<longleftrightarrow> 0 \<le> sint w"
  by (simp add: word_sless_alt not_less)

lemma and_not_mask_12: "(w :: uint64) AND NOT (mask 12) = push_bit 12 (drop_bit 12 w)"
  by (rule bit_word_eqI) (auto simp: bit_simps)

lemma pad_12: "pad sz 12 = push_bit 12 (drop_bit 12 (sz + 4095))"
proof -
  have x: "push_bit 12 (1 :: uint64) - 1 = mask 12"
    by (simp only: mask_eq_exp_minus_1 push_bit_of_1)
  have m: "(mask 12 :: uint64) = 4095" by (simp add: mask_eq_exp_minus_1)
  have "pad sz 12 = (sz + mask 12) AND NOT (mask 12)"
    by (simp only: pad_def Let_def x)
  also have "\<dots> = push_bit 12 (drop_bit 12 (sz + mask 12))" by (rule and_not_mask_12)
  finally show ?thesis by (simp only: m)
qed

lemma unat_pad_12:
  assumes "unat sz < 2 ^ 63"
  shows "unat (pad sz 12) = (unat sz + 4095) div 4096 * 4096"
proof -
  have "unat sz + unat (4095 :: uint64) < 2 ^ LENGTH(64)" using assms by simp
  then have "unat (sz + 4095) = unat sz + unat (4095 :: uint64)" by (simp only: unat_add_lem)
  then have s: "unat (sz + 4095) = unat sz + 4095" by simp
  have "unat (drop_bit 12 (sz + 4095)) = drop_bit 12 (unat sz + 4095)"
    by (simp only: unat_drop_bit_eq s)
  then have d: "unat (drop_bit 12 (sz + 4095)) = (unat sz + 4095) div 4096"
    by (simp add: drop_bit_eq_div)
  have "(unat sz + 4095) div 4096 * 4096 \<le> unat sz + 4095" by simp
  also have "\<dots> < 2 ^ 64" using assms by simp
  finally have small: "(unat sz + 4095) div 4096 * 4096 < 2 ^ 64" .
  have "unat (push_bit 12 (drop_bit 12 (sz + 4095))) =
      take_bit LENGTH(64) (push_bit 12 ((unat sz + 4095) div 4096))"
    by (simp only: unsigned_push_bit_eq d)
  also have "\<dots> = (unat sz + 4095) div 4096 * 4096"
    using small by (simp add: push_bit_eq_mult take_bit_nat_eq_self)
  finally show ?thesis by (simp only: pad_12)
qed

lemma padSigned_nonneg:
  assumes "padSigned sz 12 = Inr p" "0 \<le> sint sz"
  shows "sint p = rounded_up (sint sz)" and "0 \<le> sint p"
proof -
  from assms(2) have ns: "\<not> sz <s 0" by (simp add: not_sless_zero)
  with assms(1) have p: "p = pad sz 12" "\<not> pad sz 12 <s 0"
    by (auto simp: padSigned_def Let_def split: if_splits)
  then have nonneg: "0 \<le> sint p" by (simp add: not_sless_zero)
  from sint_nonneg_unat [OF assms(2)] have sz: "unat sz < 2 ^ 63" "sint sz = int (unat sz)" by auto
  from sint_nonneg_unat [OF nonneg] have "sint p = int (unat p)" by auto
  also have "\<dots> = int ((unat sz + 4095) div 4096 * 4096)"
    by (simp add: p unat_pad_12 [OF sz(1)])
  also have "\<dots> = rounded_up (sint sz)"
    by (simp add: rounded_up_def sz(2) zdiv_int)
  finally show "sint p = rounded_up (sint sz)" .
  from nonneg show "0 \<le> sint p" .
qed

lemmas pad_eval = padSigned_def pad_def Let_def word_sless_alt

lemma padSigned_zero: "padSigned 0 12 = Inr 0"
  by (simp add: pad_eval)

section \<open>Resolving a manifest\<close>

lemmas rx_defs = MatchString_def nameRx_def nameComponent_def packageRx_def versionRx_def archRx_def
  sectionRx_def priorityRx_def ropt_def rplus_def rlit_def digits_def alnum_def lower_alnum_def
  upper_chars_def lower_chars_def
  isValidUnixPath_def isValidPackage_def isValidVersion_def isValidArch_def isValidSection_def
  isValidPriority_def isValidDepends_def isValidMaintainer_def isValidURL_def isValidBuiltUsing_def
  isValidDescriptionLine_def is_Cc_def is_Z_def

lemmas file_eval = File_Resolve_def validateImpl_def fixup_type_def fixup_name_def check_content_def
  check_link_def check_device_def File_zero_def Type_IsValid_def fileTypeGoNameArray_def enum_defs
  HasSuffix_def TrimRight_def

lemma minimal_validatePre: "validatePre (minimal_manifest\<lparr>Files := files\<rparr>) = None"
  by (simp add: validatePre_def minimal_manifest_def Manifest_zero_def rx_defs)

lemma fixup_name_Type: "fixup_name f = Inr f' \<Longrightarrow> Type f' = Type f"
  by (auto simp: fixup_name_def split: if_splits)

lemma fixup_name_fields:
  "fixup_name f = Inr f' \<Longrightarrow>
     Bytes f' = Bytes f \<and> Text f' = Text f \<and> Path f' = Path f \<and> IsConf f' = IsConf f \<and>
     (Type f \<noteq> TypeDIR \<longrightarrow> Name f' = Name f)"
  by (auto simp: fixup_name_def split: if_splits)

lemma fixup_type_not_AUTO: "Type (fixup_type f) \<noteq> TypeAUTO"
  by (simp add: fixup_type_def enum_defs)

lemma validateImpl_Inr:
  assumes "validateImpl f = Inr f'"
  shows "fixup_name (fixup_type f) = Inr f'"
  using assms
  by (auto simp: validateImpl_def split: if_splits sum.splits option.splits)

lemma validateImpl_Type:
  assumes "validateImpl f = Inr f'"
  shows "Type f' \<noteq> TypeAUTO"
    and "Type f' = (if Type f = TypeAUTO then (if HasSuffix (Name f) ''/'' then TypeDIR else TypeREG)
                    else Type f)"
proof -
  from validateImpl_Inr [OF assms] have t: "Type f' = Type (fixup_type f)"
    by (rule fixup_name_Type)
  with fixup_type_not_AUTO [of f] show "Type f' \<noteq> TypeAUTO" by simp
  from t show "Type f' = (if Type f = TypeAUTO then (if HasSuffix (Name f) ''/'' then TypeDIR else TypeREG)
                    else Type f)"
    by (simp add: fixup_type_def)
qed

lemma File_Resolve_validateImpl:
  assumes "File_Resolve f fs = Inr f'"
  shows "\<exists>v sz. validateImpl f = Inr v \<and> f' = v\<lparr>isResolved_file := True, size_file := sz\<rparr>"
  using assms
  by (auto simp: File_Resolve_def Let_def split: sum.splits if_splits option.splits)

lemma File_Resolve_Type:
  assumes "File_Resolve f fs = Inr f'"
  shows "Type f' \<noteq> TypeAUTO"
    and "Type f' = (if Type f = TypeAUTO then (if HasSuffix (Name f) ''/'' then TypeDIR else TypeREG)
                    else Type f)"
proof -
  from File_Resolve_validateImpl [OF assms] obtain v sz where
    v: "validateImpl f = Inr v" "f' = v\<lparr>isResolved_file := True, size_file := sz\<rparr>" by blast
  from validateImpl_Type(1) [OF v(1)] v(2) show "Type f' \<noteq> TypeAUTO" by simp
  from validateImpl_Type(2) [OF v(1)] v(2)
  show "Type f' = (if Type f = TypeAUTO then (if HasSuffix (Name f) ''/'' then TypeDIR else TypeREG)
                    else Type f)" by simp
qed

lemma File_Resolve_size:
  assumes "File_Resolve f fs = Inr f'"
  shows "resolved_size fs f' = Some (size_file f')" and "isResolved_file f'"
  using assms
  by (auto simp: File_Resolve_def resolved_size_def Let_def split: sum.splits if_splits option.splits)

lemma resolve_loop_files:
  "resolve_loop fs index files acc = Inr (files', t) \<Longrightarrow>
     list_all2 (\<lambda>f f'. File_Resolve f fs = Inr f') files files'"
  by (induction files arbitrary: index acc files' t) (auto split: sum.splits prod.splits)

lemma rounded_up_nonneg: "0 \<le> n \<Longrightarrow> 0 \<le> rounded_up n"
  by (simp add: rounded_up_def)

lemma sum_rounded_up_nonneg:
  "\<forall>f \<in> set files. 0 \<le> sint (size_file f) \<Longrightarrow> 0 \<le> (\<Sum>f\<leftarrow>files. rounded_up (sint (size_file f)))"
  by (induction files) (auto simp: rounded_up_nonneg)

lemma sint_add_nonneg:
  fixes a b :: int64
  assumes "0 \<le> sint a" "0 \<le> sint b" "sint a + sint b < 2 ^ 63"
  shows "sint (a + b) = sint a + sint b"
proof -
  from sint_nonneg_unat [OF assms(1)] have a: "sint a = int (unat a)" by simp
  from sint_nonneg_unat [OF assms(2)] have b: "sint b = int (unat b)" by simp
  from assms(3) have "int (unat a + unat b) < int (2 ^ 63)" by (simp add: a b)
  then have small: "unat a + unat b < 2 ^ 63" by (simp only: of_nat_less_iff)
  then have "unat a + unat b < 2 ^ LENGTH(64)" by simp
  then have s: "unat (a + b) = unat a + unat b" by (simp only: unat_add_lem)
  with small have "unat (a + b) < 2 ^ 63" by simp
  from unat_small_sint [OF this] s show ?thesis by (simp add: a b)
qed

lemma resolve_loop_sum:
  "resolve_loop fs index files acc = Inr (files', t) \<Longrightarrow>
   \<forall>f \<in> set files'. 0 \<le> sint (size_file f) \<Longrightarrow> 0 \<le> sint acc \<Longrightarrow>
   sint acc + (\<Sum>f\<leftarrow>files'. rounded_up (sint (size_file f))) < 2 ^ 63 \<Longrightarrow>
   sint t = sint acc + (\<Sum>f\<leftarrow>files'. rounded_up (sint (size_file f)))"
proof (induction files arbitrary: index acc files' t)
  case Nil
  then show ?case by simp
next
  case (Cons f rest)
  from Cons.prems(1) obtain f' p rest' where
    r: "File_Resolve f fs = Inr f'" "padSigned (size_file f') 12 = Inr p"
       "resolve_loop fs (index + 1) rest (acc + p) = Inr (rest', t)" "files' = f' # rest'"
    by (auto split: sum.splits prod.splits)
  from Cons.prems(2) r(4) have nn: "0 \<le> sint (size_file f')" "\<forall>g \<in> set rest'. 0 \<le> sint (size_file g)"
    by simp_all
  from padSigned_nonneg [OF r(2) nn(1)]
  have p: "sint p = rounded_up (sint (size_file f'))" "0 \<le> sint p" by simp_all
  have rest_nn: "0 \<le> (\<Sum>g\<leftarrow>rest'. rounded_up (sint (size_file g)))"
    using nn(2) by (rule sum_rounded_up_nonneg)
  from Cons.prems(4) r(4) p(1)
  have bound: "sint acc + sint p + (\<Sum>g\<leftarrow>rest'. rounded_up (sint (size_file g))) < 2 ^ 63" by simp
  with rest_nn have "sint acc + sint p < 2 ^ 63" by linarith
  with Cons.prems(3) p(2) have acc': "sint (acc + p) = sint acc + sint p"
    by (intro sint_add_nonneg)
  with Cons.prems(3) p(2) have "0 \<le> sint (acc + p)" by simp
  moreover from bound acc'
  have "sint (acc + p) + (\<Sum>g\<leftarrow>rest'. rounded_up (sint (size_file g))) < 2 ^ 63" by simp
  ultimately have "sint t = sint (acc + p) + (\<Sum>g\<leftarrow>rest'. rounded_up (sint (size_file g)))"
    using Cons.IH [OF r(3) nn(2)] by blast
  with acc' p(1) r(4) show ?case by simp
qed

lemma Manifest_Resolve_Inr:
  assumes "Manifest_Resolve m fs = Inr m'"
  shows "\<exists>t. resolve_loop fs 0 (Files m) 0 = Inr (Files m', t) \<and> installedSize m' = t \<and>
             isResolved m' \<and> validatePost m' = None"
  using assms
  by (auto simp: Manifest_Resolve_def validatePost_def split: option.splits sum.splits prod.splits)

lemma validate_loop_None:
  "validate_loop index files = None \<Longrightarrow> \<forall>f \<in> set files. \<exists>copy. validateImpl f = Inr copy"
  by (induction files arbitrary: index) (auto simp: File_Validate_def split: option.splits sum.splits)

lemmas post_eval = validatePost_def Manifest_zero_def path_eval

lemma minimal_Validate: "Manifest_Validate minimal_manifest = None"
proof -
  have "validatePre minimal_manifest = None"
    using minimal_validatePre [of "Files minimal_manifest"] by simp
  moreover have "validate_loop 0 (Files minimal_manifest) = None"
    by (simp add: minimal_manifest_def File_Validate_def file_eval rx_defs nl_def)
  moreover have "validatePost minimal_manifest = None"
    by (simp add: minimal_manifest_def post_eval File_zero_def)
  ultimately show ?thesis by (simp add: Manifest_Validate_def)
qed

lemma minimal_Resolve: "Manifest_Resolve minimal_manifest empty_fs = Inr minimal_resolved"
proof -
  have pre: "validatePre minimal_manifest = None"
    using minimal_validatePre [of "Files minimal_manifest"] by simp
  have loop: "resolve_loop empty_fs 0 (Files minimal_manifest) 0 = Inr (Files minimal_resolved, 4096)"
    by (simp add: minimal_manifest_def minimal_resolved_def file_eval rx_defs nl_def pad_eval)
  have post: "validatePost (minimal_manifest\<lparr>Files := Files minimal_resolved\<rparr>) = None"
    by (simp add: minimal_manifest_def minimal_resolved_def post_eval File_zero_def enum_defs)
  show ?thesis
    by (simp add: Manifest_Resolve_def pre loop post) (simp add: minimal_resolved_def)
qed

lemma resolved_files:
  assumes "Manifest_Resolve m fs = Inr m'"
  shows "list_all2 (\<lambda>f f'. File_Resolve f fs = Inr f') (Files m) (Files m')"
proof -
  from Manifest_Resolve_Inr [OF assms] obtain t where
    "resolve_loop fs 0 (Files m) 0 = Inr (Files m', t)" by blast
  then show ?thesis by (rule resolve_loop_files)
qed

text \<open>
  C6 (as amended). When \<open>Resolve\<close> succeeds, every entry carries its resolved content
  size (0 unless it is a regular file). If moreover no size is negative and the sizes
  rounded up to multiples of 4096 add up to less than \<open>2 ^ 63\<close>, the installed size is the
  sum, over the regular files, of the size rounded up to the next multiple of 4096.
\<close>

theorem Resolve_installedSize:
  assumes "Manifest_Resolve manifest fileSystem = Inr resolved"
  shows "(\<forall>file \<in> set (Files resolved). resolved_size fileSystem file = Some (size_file file)) \<and>
         ((\<forall>file \<in> set (Files resolved). 0 \<le> sint (size_file file)) \<and>
          (\<Sum>file\<leftarrow>Files resolved. rounded_up (sint (size_file file))) < 2 ^ 63 \<longrightarrow>
            sint (installedSize resolved) =
              (\<Sum>file\<leftarrow>Files resolved.
                 if Type file = TypeREG then rounded_up (sint (size_file file)) else 0))"
proof (intro conjI impI)
  show sizes: "\<forall>file \<in> set (Files resolved). resolved_size fileSystem file = Some (size_file file)"
  proof
    fix f' assume "f' \<in> set (Files resolved)"
    then obtain i where i: "i < length (Files resolved)" "Files resolved ! i = f'"
      by (auto simp: in_set_conv_nth)
    with resolved_files [OF assms]
    have "File_Resolve (Files manifest ! i) fileSystem = Inr f'"
      by (auto simp: list_all2_conv_all_nth)
    then show "resolved_size fileSystem f' = Some (size_file f')" by (rule File_Resolve_size)
  qed
  assume h: "(\<forall>file \<in> set (Files resolved). 0 \<le> sint (size_file file)) \<and>
          (\<Sum>file\<leftarrow>Files resolved. rounded_up (sint (size_file file))) < 2 ^ 63"
  from Manifest_Resolve_Inr [OF assms] obtain t where
    t: "resolve_loop fileSystem 0 (Files manifest) 0 = Inr (Files resolved, t)"
       "installedSize resolved = t" by blast
  from h have "sint t = sint (0 :: int64) + (\<Sum>file\<leftarrow>Files resolved. rounded_up (sint (size_file file)))"
    by (intro resolve_loop_sum [OF t(1)]) simp_all
  then have total: "sint (installedSize resolved) =
      (\<Sum>file\<leftarrow>Files resolved. rounded_up (sint (size_file file)))"
    by (simp add: t(2))
  have "\<And>f. f \<in> set (Files resolved) \<Longrightarrow>
      rounded_up (sint (size_file f)) = (if Type f = TypeREG then rounded_up (sint (size_file f)) else 0)"
  proof -
    fix f assume "f \<in> set (Files resolved)"
    with sizes have "resolved_size fileSystem f = Some (size_file f)" by blast
    then have "Type f \<noteq> TypeREG \<Longrightarrow> size_file f = 0"
      by (simp add: resolved_size_def)
    then show "rounded_up (sint (size_file f)) =
        (if Type f = TypeREG then rounded_up (sint (size_file f)) else 0)"
      by (auto simp: rounded_up_def)
  qed
  then have "(\<Sum>file\<leftarrow>Files resolved. rounded_up (sint (size_file file))) =
      (\<Sum>file\<leftarrow>Files resolved. if Type file = TypeREG then rounded_up (sint (size_file file)) else 0)"
    by (intro arg_cong [where f = sum_list] map_cong) simp_all
  with total show "sint (installedSize resolved) =
      (\<Sum>file\<leftarrow>Files resolved. if Type file = TypeREG then rounded_up (sint (size_file file)) else 0)"
    by simp
qed

lemma three_files_Resolve:
  "Manifest_Resolve three_files three_sizes =
     Inr (three_files\<lparr>Files :=
       [File_zero\<lparr>Name := ''a'', Type := TypeREG, isResolved_file := True, size_file := 10\<rparr>,
        File_zero\<lparr>Name := ''b'', Type := TypeREG, isResolved_file := True, size_file := 4096\<rparr>,
        File_zero\<lparr>Name := ''c'', Type := TypeREG, isResolved_file := True, size_file := 4097\<rparr>],
       installedSize := 16384, isResolved := True\<rparr>)"
proof -
  have pre: "validatePre three_files = None"
    unfolding three_files_def by (rule minimal_validatePre)
  have loop: "resolve_loop three_sizes 0 (Files three_files) 0 =
      Inr ([File_zero\<lparr>Name := ''a'', Type := TypeREG, isResolved_file := True, size_file := 10\<rparr>,
        File_zero\<lparr>Name := ''b'', Type := TypeREG, isResolved_file := True, size_file := 4096\<rparr>,
        File_zero\<lparr>Name := ''c'', Type := TypeREG, isResolved_file := True, size_file := 4097\<rparr>], 16384)"
    by (simp add: three_files_def three_sizes_def file_eval rx_defs pad_eval)
  have post: "validatePost (three_files\<lparr>Files :=
       [File_zero\<lparr>Name := ''a'', Type := TypeREG, isResolved_file := True, size_file := 10\<rparr>,
        File_zero\<lparr>Name := ''b'', Type := TypeREG, isResolved_file := True, size_file := 4096\<rparr>,
        File_zero\<lparr>Name := ''c'', Type := TypeREG, isResolved_file := True, size_file := 4097\<rparr>]\<rparr>) = None"
    by (simp add: three_files_def minimal_manifest_def post_eval File_zero_def enum_defs)
  show ?thesis by (simp add: Manifest_Resolve_def pre loop post)
qed

theorem Resolve_installedSize_witness:
  "\<exists>resolved. Manifest_Resolve three_files three_sizes = Inr resolved \<and>
     map (\<lambda>file. sint (size_file file)) (Files resolved) = [10, 4096, 4097] \<and>
     sint (installedSize resolved) = 4096 + 4096 + 8192"
proof -
  let ?r = "three_files\<lparr>Files :=
       [File_zero\<lparr>Name := ''a'', Type := TypeREG, isResolved_file := True, size_file := 10\<rparr>,
        File_zero\<lparr>Name := ''b'', Type := TypeREG, isResolved_file := True, size_file := 4096\<rparr>,
        File_zero\<lparr>Name := ''c'', Type := TypeREG, isResolved_file := True, size_file := 4097\<rparr>],
       installedSize := 16384, isResolved := True\<rparr>"
  have h: "(\<forall>file \<in> set (Files ?r). 0 \<le> sint (size_file file)) \<and>
          (\<Sum>file\<leftarrow>Files ?r. rounded_up (sint (size_file file))) < 2 ^ 63"
    by (simp add: rounded_up_def)
  from Resolve_installedSize [OF three_files_Resolve] h
  have "sint (installedSize ?r) =
      (\<Sum>file\<leftarrow>Files ?r. if Type file = TypeREG then rounded_up (sint (size_file file)) else 0)"
    by blast
  then have s: "sint (installedSize ?r) = 4096 + 4096 + 8192"
    by (simp add: rounded_up_def)
  have m: "map (\<lambda>file. sint (size_file file)) (Files ?r) = [10, 4096, 4097]" by simp
  show ?thesis
    by (rule exI [of _ ?r]) (intro conjI three_files_Resolve m s)
qed

text \<open>
  The claim as stated fails when the sum leaves the range of \<open>int64\<close>: for two files of
  \<open>2 ^ 62\<close> bytes, \<open>Resolve\<close> succeeds and the installed size is \<open>- 2 ^ 63\<close>, not \<open>2 ^ 63\<close>.
\<close>

theorem Resolve_installedSize_counterexample:
  "\<exists>resolved. Manifest_Resolve two_files huge_sizes = Inr resolved \<and>
     sint (installedSize resolved) = - 9223372036854775808 \<and>
     (\<Sum>file\<leftarrow>Files resolved.
        if Type file = TypeREG then rounded_up (sint (size_file file)) else 0) = 9223372036854775808"
proof -
  let ?files = "[File_zero\<lparr>Name := ''a'', Type := TypeREG, isResolved_file := True,
                    size_file := 4611686018427387904\<rparr>,
                 File_zero\<lparr>Name := ''b'', Type := TypeREG, isResolved_file := True,
                    size_file := 4611686018427387904\<rparr>]"
  let ?r = "two_files\<lparr>Files := ?files, installedSize := 9223372036854775808, isResolved := True\<rparr>"
  have pre: "validatePre two_files = None"
    unfolding two_files_def by (rule minimal_validatePre)
  have loop: "resolve_loop huge_sizes 0 (Files two_files) 0 = Inr (?files, 9223372036854775808)"
    by (simp add: two_files_def huge_sizes_def file_eval rx_defs pad_eval)
  have post: "validatePost (two_files\<lparr>Files := ?files\<rparr>) = None"
    by (simp add: two_files_def minimal_manifest_def post_eval File_zero_def enum_defs)
  have r: "Manifest_Resolve two_files huge_sizes = Inr ?r"
    by (simp add: Manifest_Resolve_def pre loop post)
  have s: "sint (installedSize ?r) = - 9223372036854775808" by simp
  have t: "(\<Sum>file\<leftarrow>Files ?r.
        if Type file = TypeREG then rounded_up (sint (size_file file)) else 0) = 9223372036854775808"
    by (simp add: rounded_up_def)
  show ?thesis
    by (rule exI [of _ ?r]) (intro conjI r s t)
qed

section \<open>Inferred entry types\<close>

text \<open>
  C8 (as amended). When \<open>Manifest.Resolve\<close> succeeds, the manifest has as many entries as
  before and none of type \<open>AUTO\<close>: an entry that was \<open>AUTO\<close> is \<open>DIR\<close> when its name ends in
  a slash and \<open>REG\<close> otherwise, and every other entry keeps its type. \<open>Manifest.Validate\<close>
  works on copies: when it succeeds, each entry has a validated copy with the type so
  inferred, and the manifest itself is as it was.
\<close>

theorem Resolve_infers_types:
  "(Manifest_Resolve manifest fileSystem = Inr resolved \<longrightarrow>
      length (Files resolved) = length (Files manifest) \<and>
      (\<forall>i < length (Files manifest).
         Type (Files resolved ! i) \<noteq> TypeAUTO \<and>
         Type (Files resolved ! i) =
           (if Type (Files manifest ! i) = TypeAUTO
            then (if HasSuffix (Name (Files manifest ! i)) ''/'' then TypeDIR else TypeREG)
            else Type (Files manifest ! i)))) \<and>
   (Manifest_Validate manifest = None \<longrightarrow>
      (\<forall>file \<in> set (Files manifest). \<exists>copy.
         validateImpl file = Inr copy \<and> Type copy \<noteq> TypeAUTO \<and>
         Type copy = (if Type file = TypeAUTO
                      then (if HasSuffix (Name file) ''/'' then TypeDIR else TypeREG)
                      else Type file)))"
proof (intro conjI impI)
  assume r: "Manifest_Resolve manifest fileSystem = Inr resolved"
  note all2 = resolved_files [OF r]
  then show len: "length (Files resolved) = length (Files manifest)"
    by (simp add: list_all2_lengthD)
  show "\<forall>i < length (Files manifest).
         Type (Files resolved ! i) \<noteq> TypeAUTO \<and>
         Type (Files resolved ! i) =
           (if Type (Files manifest ! i) = TypeAUTO
            then (if HasSuffix (Name (Files manifest ! i)) ''/'' then TypeDIR else TypeREG)
            else Type (Files manifest ! i))"
  proof (intro allI impI)
    fix i assume "i < length (Files manifest)"
    with all2 have fr: "File_Resolve (Files manifest ! i) fileSystem = Inr (Files resolved ! i)"
      by (simp add: list_all2_conv_all_nth)
    from File_Resolve_Type [OF fr]
    show "Type (Files resolved ! i) \<noteq> TypeAUTO \<and>
         Type (Files resolved ! i) =
           (if Type (Files manifest ! i) = TypeAUTO
            then (if HasSuffix (Name (Files manifest ! i)) ''/'' then TypeDIR else TypeREG)
            else Type (Files manifest ! i))" by blast
  qed
next
  assume v: "Manifest_Validate manifest = None"
  then have "validate_loop 0 (Files manifest) = None"
    by (simp add: Manifest_Validate_def split: option.splits)
  from validate_loop_None [OF this]
  show "\<forall>file \<in> set (Files manifest). \<exists>copy.
         validateImpl file = Inr copy \<and> Type copy \<noteq> TypeAUTO \<and>
         Type copy = (if Type file = TypeAUTO
                      then (if HasSuffix (Name file) ''/'' then TypeDIR else TypeREG)
                      else Type file)"
    using validateImpl_Type by blast
qed

theorem Resolve_infers_types_witness:
  "Manifest_Resolve minimal_manifest empty_fs = Inr minimal_resolved \<and>
   Type (Files minimal_manifest ! 0) = TypeAUTO \<and>
   Type (Files minimal_resolved ! 0) = TypeREG \<and>
   Manifest_Validate minimal_manifest = None \<and>
   (\<exists>copy. validateImpl (Files minimal_manifest ! 0) = Inr copy \<and> Type copy = TypeREG)"
proof -
  note t = Resolve_infers_types [of minimal_manifest empty_fs minimal_resolved]
  have a: "Type (Files minimal_manifest ! 0) = TypeAUTO"
    by (simp add: minimal_manifest_def File_zero_def TypeAUTO_def)
  have n: "\<not> HasSuffix (Name (Files minimal_manifest ! 0)) ''/''"
    by (simp add: minimal_manifest_def HasSuffix_def)
  have l: "0 < length (Files minimal_manifest)" by (simp add: minimal_manifest_def)
  from t minimal_Resolve l
  have "Type (Files minimal_resolved ! 0) =
           (if Type (Files minimal_manifest ! 0) = TypeAUTO
            then (if HasSuffix (Name (Files minimal_manifest ! 0)) ''/'' then TypeDIR else TypeREG)
            else Type (Files minimal_manifest ! 0))" by blast
  with a n have b: "Type (Files minimal_resolved ! 0) = TypeREG" by simp
  have "Files minimal_manifest ! 0 \<in> set (Files minimal_manifest)" using l by simp
  with t minimal_Validate
  obtain copy where "validateImpl (Files minimal_manifest ! 0) = Inr copy"
    "Type copy = (if Type (Files minimal_manifest ! 0) = TypeAUTO
                      then (if HasSuffix (Name (Files minimal_manifest ! 0)) ''/'' then TypeDIR else TypeREG)
                      else Type (Files minimal_manifest ! 0))" by blast
  with a n have c: "\<exists>copy. validateImpl (Files minimal_manifest ! 0) = Inr copy \<and> Type copy = TypeREG"
    by simp
  from minimal_Resolve a b minimal_Validate c show ?thesis by blast
qed

text \<open>
  The claim as stated fails for \<open>Manifest.Validate\<close>: it accepts the minimal manifest, whose
  entry is still of type \<open>AUTO\<close> afterwards.
\<close>

theorem Validate_keeps_AUTO_counterexample:
  "Manifest_Validate minimal_manifest = None \<and> Type (Files minimal_manifest ! 0) = TypeAUTO"
  by (simp add: minimal_Validate) (simp add: minimal_manifest_def File_zero_def TypeAUTO_def)

text \<open>
  Since \<open>Manifest.Validate\<close> runs its cross-entry pass on the entries as written, it rejects
  a directory of inferred type followed by a file in it, which \<open>Manifest.Resolve\<close> accepts.
\<close>

lemma Validate_rejects_inferred_dir:
  "Manifest_Validate inferred_dir = Some (Failure ''files[1]: directory might not exist yet'') \<and>
   isResolved (projr (Manifest_Resolve inferred_dir empty_fs)) \<and>
   \<not> isl (Manifest_Resolve inferred_dir empty_fs)"
proof -
  have pre: "validatePre inferred_dir = None"
    unfolding inferred_dir_def by (rule minimal_validatePre)
  have v: "validate_loop 0 (Files inferred_dir) = None"
    by (simp add: inferred_dir_def File_Validate_def file_eval rx_defs nl_def)
  have p: "validatePost inferred_dir = Some (Failure ''files[1]: directory might not exist yet'')"
    by (simp add: inferred_dir_def minimal_manifest_def post_eval File_zero_def enum_defs
        FormatInt_def dec_digits.simps char_tables)
  let ?files = "[File_zero\<lparr>Name := ''usr/'', Type := TypeDIR, isResolved_file := True, size_file := 0\<rparr>,
      File_zero\<lparr>Name := ''usr/hello'', Type := TypeREG, Text := Some (''hi'' @ nl),
        isResolved_file := True, size_file := 3\<rparr>]"
  have loop: "resolve_loop empty_fs 0 (Files inferred_dir) 0 = Inr (?files, 4096)"
    by (simp add: inferred_dir_def file_eval rx_defs nl_def pad_eval)
  have post: "validatePost (inferred_dir\<lparr>Files := ?files\<rparr>) = None"
    by (simp add: inferred_dir_def minimal_manifest_def post_eval File_zero_def enum_defs)
  have r: "Manifest_Resolve inferred_dir empty_fs =
      Inr (inferred_dir\<lparr>Files := ?files, installedSize := 4096, isResolved := True\<rparr>)"
    using post by (simp add: Manifest_Resolve_def pre loop)
  show ?thesis by (simp add: Manifest_Validate_def pre v p r)
qed

section \<open>Container entries\<close>

lemma foldl_update_length: "length (foldl (\<lambda>h i. h[g i := f i]) xs is) = length xs"
  by (induction "is" arbitrary: xs) simp_all

lemma foldl_update_nth:
  "j < length xs \<Longrightarrow>
   foldl (\<lambda>h i. h[i + k := f i]) xs [0 ..< n] ! j =
     (if k \<le> j \<and> j < k + n then f (j - k) else xs ! j)"
proof (induction n)
  case 0
  then show ?case by auto
next
  case (Suc n)
  let ?h = "foldl (\<lambda>h i. h[i + k := f i]) xs [0 ..< n]"
  have step: "foldl (\<lambda>h i. h[i + k := f i]) xs [0 ..< Suc n] = ?h[n + k := f n]" by simp
  have len: "length ?h = length xs" by (rule foldl_update_length)
  show ?case
  proof (cases "j = n + k")
    case True
    with Suc.prems len show ?thesis unfolding step by simp
  next
    case False
    with Suc show ?thesis unfolding step by auto
  qed
qed

lemma foldl_update_range:
  assumes "k + n \<le> length xs"
  shows "foldl (\<lambda>h i. h[i + k := f i]) xs [0 ..< n] = take k xs @ map f [0 ..< n] @ drop (k + n) xs"
proof (rule nth_equalityI)
  show "length (foldl (\<lambda>h i. h[i + k := f i]) xs [0 ..< n]) =
      length (take k xs @ map f [0 ..< n] @ drop (k + n) xs)"
    using assms by (simp add: foldl_update_length)
next
  fix j assume "j < length (foldl (\<lambda>h i. h[i + k := f i]) xs [0 ..< n])"
  then have j: "j < length xs" by (simp add: foldl_update_length)
  show "foldl (\<lambda>h i. h[i + k := f i]) xs [0 ..< n] ! j =
      (take k xs @ map f [0 ..< n] @ drop (k + n) xs) ! j"
    using assms j by (auto simp: foldl_update_nth nth_append)
qed

lemma map_nth_pad:
  assumes "length s \<le> n"
  shows "map (\<lambda>i. if i < length s then s ! i else CHR '' '') [0 ..< n] = pad_right n s"
  using assms by (auto intro!: nth_equalityI simp: pad_right_def nth_append)

lemma length_dec_digits: "0 < k \<Longrightarrow> length (dec_digits n) \<le> k \<longleftrightarrow> n < 10 ^ k"
proof (induction n arbitrary: k rule: dec_digits.induct)
  case (1 n)
  show ?case
  proof (cases "n < 10")
    case True
    have "(10::nat) ^ 1 \<le> 10 ^ k" using "1.prems" by (intro power_increasing) simp_all
    with True have "n < 10 ^ k" by simp
    with True "1.prems" show ?thesis by (simp add: dec_digits.simps [of n])
  next
    case False
    show ?thesis
    proof (cases "k = 1")
      case True
      with False show ?thesis
        using dec_digits_nonempty [of "n div 10"]
        by (cases "dec_digits (n div 10)") (simp_all add: dec_digits.simps [of n])
    next
      case k: False
      with "1.prems" obtain k' where k': "k = Suc k'" "0 < k'" by (cases k) auto
      from "1.IH" [OF False k'(2)]
      have "length (dec_digits (n div 10)) \<le> k' \<longleftrightarrow> n div 10 < 10 ^ k'" .
      also have "\<dots> \<longleftrightarrow> n < 10 ^ k" by (simp add: k'(1) div_less_iff_less_mult mult.commute)
      finally show ?thesis using False by (simp add: dec_digits.simps [of n] k'(1))
    qed
  qed
qed

lemma length_FormatInt:
  assumes "0 \<le> n"
  shows "length (FormatInt n) \<le> 10 \<longleftrightarrow> n < 10 ^ 10"
proof -
  have "length (dec_digits (nat n)) \<le> 10 \<longleftrightarrow> nat n < 10 ^ 10"
    by (rule length_dec_digits) simp
  also have "\<dots> \<longleftrightarrow> n < 10 ^ 10" using assms by (simp add: nat_less_iff)
  finally show ?thesis using assms by (simp add: FormatInt_def)
qed

lemma length_pad_right: "length (pad_right n s) = max n (length s)"
  by (simp add: pad_right_def)

lemma and_1_odd: "(sz :: int64) AND 1 \<noteq> 0 \<longleftrightarrow> odd (sint sz)"
proof -
  have "sz AND 1 \<noteq> 0 \<longleftrightarrow> odd sz" by (simp add: and_one_eq odd_iff_mod_2_eq_one)
  also have "\<dots> \<longleftrightarrow> bit sz 0" by (simp only: bit_0)
  also have "\<dots> \<longleftrightarrow> bit (sint sz) 0" by (simp add: bit_sint_iff)
  also have "\<dots> \<longleftrightarrow> odd (sint sz)" by (simp only: bit_0)
  finally show ?thesis .
qed

lemma header_name_loop:
  assumes "length name \<le> 16"
  shows "foldl (\<lambda>hdr i. hdr[i := (if i < length name then name ! i else CHR '' '')])
           header_template [0 ..< 16] = pad_right 16 name @ drop 16 header_template"
proof -
  have "16 \<le> length header_template" by (simp add: header_template_def)
  then have "0 + 16 \<le> length header_template" by simp
  from foldl_update_range [OF this, of "\<lambda>i. if i < length name then name ! i else CHR '' ''"]
  show ?thesis using assms by (simp add: map_nth_pad)
qed

lemma header_built:
  assumes "length name \<le> 16" "length s = 10"
  shows "foldl (\<lambda>hdr i. hdr[i + 48 := s ! i])
           (foldl (\<lambda>hdr i. hdr[i := (if i < length name then name ! i else CHR '' '')])
              header_template [0 ..< 16]) [0 ..< 10] =
         pad_right 16 name @ ''1577836800  0     0     100644  '' @ s @ [CHR 0x60, CHR 0x0A]"
proof -
  let ?xs = "pad_right 16 name @ drop 16 header_template"
  have l16: "length (pad_right 16 name) = 16" using assms(1) by (simp add: pad_right_def)
  have len: "48 + 10 \<le> length ?xs" by (simp add: l16 header_template_def)
  have s: "map ((!) s) [0 ..< 10] = s" using assms(2) map_nth [of s] by simp
  have t: "take 48 ?xs = pad_right 16 name @ ''1577836800  0     0     100644  ''"
    by (simp add: l16 header_template_def)
  have d: "drop (48 + 10) ?xs = [CHR 0x60, CHR 0x0A]"
    by (simp add: l16 header_template_def)
  show ?thesis
    unfolding header_name_loop [OF assms(1)] foldl_update_range [OF len] s t d by simp
qed

lemma Write_Inr: "0 < credit w \<Longrightarrow> Write w p = Inr (w\<lparr>written := written w @ p, credit := credit w - 1\<rparr>)"
  by (simp add: Write_def)

lemma writeArEntry_ok:
  assumes "length name \<le> 16" "0 \<le> sint sz" "sint sz < 10 ^ 10" "3 \<le> credit w"
  shows "\<exists>w'. writeArEntry w name sz content = Inr w' \<and>
           written w' = written w @ ar_entry name (sint sz) content \<and>
           credit w - 3 \<le> credit w'"
proof -
  let ?s = "pad_right 10 (FormatInt (sint sz))"
  from assms(2,3) have "length (FormatInt (sint sz)) \<le> 10" by (simp add: length_FormatInt)
  then have ls: "length ?s = 10" by (simp add: pad_right_def)
  from assms(2) have ns: "\<not> sz <s 0" by (simp add: not_sless_zero)
  show ?thesis
    using assms(1,4) ns ls
    by (cases "content = []"; cases "odd (sint sz)")
       (simp_all add: writeArEntry_def Let_def header_built [OF assms(1) ls] and_1_odd Write_def
          ar_entry_def ar_header_def)
qed

lemma writeArEntry_not_panic:
  assumes "length name \<le> 16" "0 \<le> sint sz" "sint sz < 10 ^ 10"
  shows "\<not> is_panic (writeArEntry w name sz content)"
proof -
  from assms(2,3) have "length (FormatInt (sint sz)) \<le> 10" by (simp add: length_FormatInt)
  then have ls: "length (pad_right 10 (FormatInt (sint sz))) = 10" by (simp add: pad_right_def)
  from assms(2) have ns: "\<not> sz <s 0" by (simp add: not_sless_zero)
  show ?thesis
    using assms(1) ns ls
    by (auto simp: writeArEntry_def Let_def Write_def wrap_def split: sum.splits if_splits)
qed

lemma writeArEntry_panics:
  assumes "16 < length name \<or> sint sz < 0 \<or> 10 ^ 10 \<le> sint sz"
  shows "\<exists>msg. writeArEntry w name sz content = Inl (Fatal msg)"
proof (cases "16 < length name")
  case True
  then show ?thesis by (simp add: writeArEntry_def)
next
  case short: False
  show ?thesis
  proof (cases "sint sz < 0")
    case True
    then have "sz <s 0" by (simp add: word_sless_alt)
    with short show ?thesis by (simp add: writeArEntry_def)
  next
    case False
    with short assms have big: "10 ^ 10 \<le> sint sz" by simp
    from False have nn: "0 \<le> sint sz" by simp
    with big have "\<not> length (FormatInt (sint sz)) \<le> 10" by (simp add: length_FormatInt)
    then have "length (pad_right 10 (FormatInt (sint sz))) \<noteq> 10" by (simp add: pad_right_def)
    moreover from nn have "\<not> sz <s 0" by (simp add: not_sless_zero)
    ultimately show ?thesis using short by (simp add: writeArEntry_def Let_def)
  qed
qed

text \<open>
  C2 (as amended). For a name of at most 16 bytes and a size from 0 to \<open>10 ^ 10 - 1\<close>, the
  encoder (on a writer that does not fail) emits the header, then the bytes of the entry,
  then one newline exactly when the size is odd. The header has 60 bytes; its first 16
  are the name followed by spaces, and the 10 bytes from offset 48 are the size in decimal
  followed by spaces. A name of more than 16 bytes is a panic, and so is a size that is
  negative or needs more than 10 digits; within these limits the encoder never panics.
\<close>

theorem writeArEntry_encoding:
  "(length name \<le> 16 \<and> 0 \<le> sint sz \<and> sint sz < 10 ^ 10 \<longrightarrow>
      (3 \<le> credit w \<longrightarrow>
         (\<exists>w'. writeArEntry w name sz content = Inr w' \<and>
            written w' = written w @ ar_header name (sint sz) @ content
                           @ (if odd (sint sz) then nl else []))) \<and>
      \<not> is_panic (writeArEntry w name sz content) \<and>
      length (ar_header name (sint sz)) = 60 \<and>
      take 16 (ar_header name (sint sz)) = name @ replicate (16 - length name) CHR '' '' \<and>
      take 10 (drop 48 (ar_header name (sint sz))) =
        FormatInt (sint sz) @ replicate (10 - length (FormatInt (sint sz))) CHR '' '') \<and>
   (16 < length name \<or> sint sz < 0 \<or> 10 ^ 10 \<le> sint sz \<longrightarrow>
      (\<exists>msg. writeArEntry w name sz content = Inl (Fatal msg)))"
proof (intro conjI impI)
  assume "16 < length name \<or> sint sz < 0 \<or> 10 ^ 10 \<le> sint sz"
  then show "\<exists>msg. writeArEntry w name sz content = Inl (Fatal msg)" by (rule writeArEntry_panics)
next
  assume h: "length name \<le> 16 \<and> 0 \<le> sint sz \<and> sint sz < 10 ^ 10"
  then have n: "length name \<le> 16" and s0: "0 \<le> sint sz" and s1: "sint sz < 10 ^ 10" by simp_all
  from s0 s1 have lf: "length (FormatInt (sint sz)) \<le> 10" by (simp add: length_FormatInt)
  have l16: "length (pad_right 16 name) = 16" using n by (simp add: pad_right_def)
  have l10: "length (pad_right 10 (FormatInt (sint sz))) = 10" using lf by (simp add: pad_right_def)
  show "\<not> is_panic (writeArEntry w name sz content)"
    using n s0 s1 by (rule writeArEntry_not_panic)
  show "length (ar_header name (sint sz)) = 60" by (simp add: ar_header_def l16 l10)
  show "take 16 (ar_header name (sint sz)) = name @ replicate (16 - length name) CHR '' ''"
    using l16 by (simp add: ar_header_def) (simp add: pad_right_def)
  show "take 10 (drop 48 (ar_header name (sint sz))) =
        FormatInt (sint sz) @ replicate (10 - length (FormatInt (sint sz))) CHR '' ''"
    using l16 l10 by (simp add: ar_header_def) (simp add: pad_right_def)
  assume "3 \<le> credit w"
  from writeArEntry_ok [OF n s0 s1 this, of content]
  show "\<exists>w'. writeArEntry w name sz content = Inr w' \<and>
            written w' = written w @ ar_header name (sint sz) @ content
                           @ (if odd (sint sz) then nl else [])"
    by (auto simp: ar_entry_def)
qed

theorem writeArEntry_encoding_witness:
  "(\<exists>w'. writeArEntry plenty ''debian-binary'' 4 (''2.0'' @ nl) = Inr w' \<and>
      written w' = ''debian-binary   1577836800  0     0     100644  4         ''
                     @ [CHR 0x60, CHR 0x0A] @ ''2.0'' @ nl) \<and>
   (\<exists>msg. writeArEntry plenty ''control.tar.bzip2'' 4 (''2.0'' @ nl) = Inl (Fatal msg))"
proof -
  have h: "length ''debian-binary'' \<le> 16 \<and> 0 \<le> sint (4 :: int64) \<and> sint (4 :: int64) < 10 ^ 10"
    by simp
  have c: "3 \<le> credit plenty" by (simp add: plenty_def)
  from writeArEntry_encoding [of "''debian-binary''" 4 plenty "''2.0'' @ nl"] h c
  obtain w' where w': "writeArEntry plenty ''debian-binary'' 4 (''2.0'' @ nl) = Inr w'"
    "written w' = written plenty @ ar_header ''debian-binary'' (sint (4 :: int64)) @ (''2.0'' @ nl)
                           @ (if odd (sint (4 :: int64)) then nl else [])"
    by blast
  have "ar_header ''debian-binary'' 4 =
      ''debian-binary   1577836800  0     0     100644  4         '' @ [CHR 0x60, CHR 0x0A]"
    by (simp add: ar_header_def pad_right_def FormatInt_def dec_digits.simps char_tables
        eval_nat_numeral)
  with w'(2) have "written w' = ''debian-binary   1577836800  0     0     100644  4         ''
                     @ [CHR 0x60, CHR 0x0A] @ ''2.0'' @ nl"
    by (simp add: plenty_def)
  with w'(1) have a: "\<exists>w'. writeArEntry plenty ''debian-binary'' 4 (''2.0'' @ nl) = Inr w' \<and>
      written w' = ''debian-binary   1577836800  0     0     100644  4         ''
                     @ [CHR 0x60, CHR 0x0A] @ ''2.0'' @ nl" by blast
  have "16 < length ''control.tar.bzip2'' \<or> sint (4 :: int64) < 0 \<or> 10 ^ 10 \<le> sint (4 :: int64)"
    by simp
  with writeArEntry_encoding [of "''control.tar.bzip2''" 4 plenty "''2.0'' @ nl"]
  have b: "\<exists>msg. writeArEntry plenty ''control.tar.bzip2'' 4 (''2.0'' @ nl) = Inl (Fatal msg)"
    by blast
  from a b show ?thesis by blast
qed

text \<open>
  The claim as stated fails at the size \<open>10 ^ 10\<close>, which has 11 digits: the encoder
  panics on it.
\<close>

theorem writeArEntry_counterexample:
  "length ''data.tar.gz'' \<le> 16 \<and> 0 \<le> sint (10000000000 :: int64) \<and>
   writeArEntry plenty ''data.tar.gz'' 10000000000 [] =
     Inl (Fatal ''internal error: formatted size should be exactly 10 bytes'')"
  by (simp add: writeArEntry_def Let_def word_sless_alt pad_right_def FormatInt_def
      dec_digits.simps char_tables)

section \<open>Buffers\<close>

lemma WriteString_simps:
  "WriteString None s = (if s = [] then None else Some s)"
  "WriteString (Some t) s = Some (t @ s)"
  by (simp_all add: WriteString_def)

lemma WriteString_Some: "foldl WriteString (Some t) xs = Some (t @ concat xs)"
  by (induction xs arbitrary: t) (simp_all add: WriteString_simps)

lemma WriteString_None:
  "foldl WriteString None xs = (if concat xs = [] then None else Some (concat xs))"
proof (induction xs)
  case Nil
  show ?case by simp
next
  case (Cons x xs)
  then show ?case by (cases "x = []") (simp_all add: WriteString_simps WriteString_Some)
qed

lemma nl_nonempty: "nl \<noteq> []"
  by (simp add: nl_def)

lemma conf_fold_Some:
  "foldl (\<lambda>buf f. if IsConf f then WriteString (WriteString buf (Name f)) nl else buf) (Some t) files =
     Some (t @ conffiles_text files)"
  by (induction files arbitrary: t) (simp_all add: conffiles_text_def WriteString_simps)

lemma conf_fold_None:
  "foldl (\<lambda>buf f. if IsConf f then WriteString (WriteString buf (Name f)) nl else buf) None files =
     (if filter IsConf files = [] then None else Some (conffiles_text files))"
proof (induction files)
  case Nil
  show ?case by simp
next
  case (Cons f files)
  show ?case
  proof (cases "IsConf f")
    case False
    with Cons show ?thesis by (simp add: conffiles_text_def)
  next
    case True
    have "WriteString (WriteString None (Name f)) nl = Some (Name f @ nl)"
      by (simp add: WriteString_simps nl_nonempty)
    with True show ?thesis
      using conf_fold_Some [of "Name f @ nl" files] by (simp add: conffiles_text_def)
  qed
qed

lemma ConfFiles_eq:
  "isResolved m \<Longrightarrow>
   ConfFiles m = Inr (if filter IsConf (Files m) = [] then None else Some (conffiles_text (Files m)))"
  by (simp add: ConfFiles_def conf_fold_None)

lemma script_fold:
  "foldl (\<lambda>buf line. WriteString (WriteString buf line) nl) (Some t) lines =
     Some (t @ concat (map (\<lambda>line. line @ nl) lines))"
  by (induction lines arbitrary: t) (simp_all add: WriteString_simps)

lemma script_eq:
  "isResolved m \<Longrightarrow>
   script m lines = Inr (if lines = [] then None else Some (script_text lines))"
  by (simp add: script_def script_fold WriteString_simps Grow_def script_text_def)

lemma checksum_fold:
  "foldl (checksum_line a) (Some t) files = Some (t @ checksum_text files a)"
  by (induction files arbitrary: t)
     (simp_all add: checksum_line_def checksum_text_def WriteString_simps)

lemma ControlFile_eq: "isResolved m \<Longrightarrow> ControlFile m = Inr (Some (control_text m))"
proof -
  have "concat (control_pieces m) \<noteq> []" by (simp add: control_pieces_def field_def)
  then have "foldl WriteString None (control_pieces m) = Some (concat (control_pieces m))"
    by (simp only: WriteString_None if_False)
  then show "isResolved m \<Longrightarrow> ControlFile m = Inr (Some (control_text m))"
    by (simp add: ControlFile_def control_text_def)
qed

section \<open>Archive operations\<close>

lemma grown_simps [simp]:
  "nb (grown tw ms c) = nb tw"
  "compression (grown tw ms c) = compression tw"
  "members (grown tw ms c) = members tw @ ms"
  "credit (under (grown tw ms c)) = credit (under tw) - c"
  "written (under (grown tw ms c)) = written (under tw)"
  by (simp_all add: grown_def)

lemma grown_grown [simp]: "grown (grown tw ms c) ms' c' = grown tw (ms @ ms') (c + c')"
  by (simp add: grown_def)

lemma grown_nothing [simp]: "grown tw [] 0 = tw"
  by (simp add: grown_def)

lemma mode_exec: "((m :: int64) OR 420) OR 73 = m OR 493"
proof -
  have "(420 :: int64) OR 73 = 493" by simp
  then show ?thesis by (simp only: or.assoc)
qed

lemma not_header_only_reg: "\<not> header_only tar_TypeReg"
  by (simp add: header_only_def tar_TypeReg_def)

lemma writeControlFile_unfold:
  "writeControlFile env b tw name ex (Some d) =
     (case WriteHeader tw (control_header env b name ex d) of
        Inl e \<Rightarrow> Inl (wrap ''tar.WriteHeader: '' e)
      | Inr tw1 \<Rightarrow>
          (case tar_Write tw1 d of Inl e \<Rightarrow> Inl (wrap ''Write: '' e) | Inr tw2 \<Rightarrow> Inr tw2))"
  by (simp add: writeControlFile_def control_header_def mode_exec)

lemma writeControlFile_Some:
  assumes "nb tw = 0"
  shows "writeControlFile env b tw name ex (Some d) = Inr tw' \<longleftrightarrow>
           2 \<le> credit (under tw) \<and> tw' = grown tw [control_member env b name ex d] 2"
proof -
  let ?hdr = "control_header env b name ex d"
  have flag: "\<not> header_only (Typeflag ?hdr)" "Hdr_Size ?hdr = of_nat (length d)"
    by (simp_all add: control_header_def not_header_only_reg)
  consider "credit (under tw) = 0" | "credit (under tw) = 1" | "2 \<le> credit (under tw)" by arith
  then show ?thesis
  proof cases
    case 1
    then show ?thesis by (simp add: writeControlFile_unfold WriteHeader_def)
  next
    case 2
    with assms show ?thesis
      by (simp add: writeControlFile_unfold WriteHeader_def tar_Write_def spend_def)
  next
    case 3
    with assms have "writeControlFile env b tw name ex (Some d) =
        Inr (grown tw [control_member env b name ex d] 2)"
      by (simp add: writeControlFile_unfold WriteHeader_def tar_Write_def spend_def flag
          word_sless_alt control_member_def grown_def)
    with 3 show ?thesis by auto
  qed
qed

lemma and_then_Inr: "and_then r f = Inr y \<longleftrightarrow> (\<exists>x. r = Inr x \<and> f x = Inr y)"
  by (cases r) (simp_all add: and_then_def)

lemma case_sum_Inr: "(case r of Inl e \<Rightarrow> Inl (g e) | Inr x \<Rightarrow> f x) = Inr y \<longleftrightarrow> (\<exists>x. r = Inr x \<and> f x = Inr y)"
  by (cases r) simp_all

lemma writeControlFile_iff:
  assumes "nb tw = 0"
  shows "writeControlFile env b tw name ex data = Inr tw' \<longleftrightarrow>
           2 * length (optional_member env b name ex data) \<le> credit (under tw) \<and>
           tw' = grown tw (optional_member env b name ex data)
                   (2 * length (optional_member env b name ex data))"
proof (cases data)
  case None
  then show ?thesis by (auto simp: writeControlFile_def optional_member_def)
next
  case (Some d)
  with writeControlFile_Some [OF assms] show ?thesis by (simp add: optional_member_def)
qed

lemma write_rendered_iff:
  assumes "nb tw = 0"
  shows "write_rendered env b name ex (Inr data) tw = Inr tw' \<longleftrightarrow>
           2 * length (optional_member env b name ex data) \<le> credit (under tw) \<and>
           tw' = grown tw (optional_member env b name ex data)
                   (2 * length (optional_member env b name ex data))"
  using writeControlFile_iff [OF assms] by (simp add: write_rendered_def)

lemma tar_Close_iff:
  assumes "nb tw = 0"
  shows "tar_Close tw = Inr tw' \<longleftrightarrow> 1 \<le> credit (under tw) \<and> tw' = grown tw [] 1"
  using assms by (auto simp: tar_Close_def spend_def grown_def)

lemma checksum_loop_iff:
  assumes "nb tw = 0"
  shows "checksum_loop env b files algos (Some []) tw = Inr tw' \<longleftrightarrow>
           2 * length algos \<le> credit (under tw) \<and>
           tw' = grown tw (map (\<lambda>a. control_member env b (FileName a) False (checksum_text files a)) algos)
                   (2 * length algos)"
  using assms
proof (induction algos arbitrary: tw)
  case Nil
  then show ?case by auto
next
  case (Cons a rest)
  let ?m = "control_member env b (FileName a) False (checksum_text files a)"
  have buf: "foldl (checksum_line a) (Some []) files = Some (checksum_text files a)"
    by (simp add: checksum_fold)
  have step: "checksum_loop env b files (a # rest) (Some []) tw = Inr tw' \<longleftrightarrow>
      (\<exists>tw1. writeControlFile env b tw (FileName a) False (Some (checksum_text files a)) = Inr tw1 \<and>
             checksum_loop env b files rest (Some []) tw1 = Inr tw')"
    by (cases "writeControlFile env b tw (FileName a) False (Some (checksum_text files a))")
       (simp_all add: buf Reset_def Let_def)
  have nb1: "nb (grown tw [?m] 2) = 0" using Cons.prems by simp
  show ?case
    unfolding step writeControlFile_Some [OF Cons.prems]
    using Cons.IH [OF nb1] by auto
qed

lemma NewWriter_Inr:
  "NewWriter env c w = Inr tw0 \<Longrightarrow> tw0 = \<lparr>compression = c, under = w, members = [], nb = 0\<rparr>"
  by (auto simp: NewWriter_def Let_def split: if_splits)

lemma optional_conffiles:
  "optional_member env b ''conffiles'' False
     (if filter IsConf files = [] then None else Some (conffiles_text files)) =
   (if filter IsConf files = [] then []
    else [control_member env b ''conffiles'' False (conffiles_text files)])"
  by (simp add: optional_member_def)

lemma optional_script:
  "optional_member env b name True (if lines = [] then None else Some (script_text lines)) =
   script_member env b name lines"
  by (simp add: optional_member_def script_member_def)

lemma optional_control:
  "optional_member env b name ex (Some d) = [control_member env b name ex d]"
  by (simp add: optional_member_def)

lemma control_archive_iff:
  assumes "isResolved m" "isHashed m" "NewWriter env (Compression (fillDefaults b)) w = Inr tw0"
  shows "control_archive env b w m = Inr tw \<longleftrightarrow>
           2 * length (control_members env (fillDefaults b) m) + 1 \<le> credit w \<and>
           tw = grown tw0 (control_members env (fillDefaults b) m)
                  (2 * length (control_members env (fillDefaults b) m) + 1)"
proof -
  from NewWriter_Inr [OF assms(3)] have tw0: "nb tw0 = 0" "credit (under tw0) = credit w" by simp_all
  let ?b = "fillDefaults b"
  let ?m1 = "[control_member env ?b ''control'' False (control_text m)]"
  let ?m2 = "map (\<lambda>a. control_member env ?b (FileName a) False (checksum_text (Files m) a)) (hash_list ?b)"
  let ?m3 = "if filter IsConf (Files m) = [] then []
        else [control_member env ?b ''conffiles'' False (conffiles_text (Files m))]"
  let ?m4 = "script_member env ?b ''preinst'' (PreInstall m)"
  let ?m5 = "script_member env ?b ''postinst'' (PostInstall m)"
  let ?m6 = "script_member env ?b ''prerm'' (PreRemove m)"
  let ?m7 = "script_member env ?b ''postrm'' (PostRemove m)"
  have ms: "control_members env ?b m = ?m1 @ ?m2 @ ?m3 @ ?m4 @ ?m5 @ ?m6 @ ?m7"
    by (simp add: control_members_def)
  have "control_archive env b w m = Inr tw \<longleftrightarrow>
      (\<exists>t1. write_rendered env ?b ''control'' False (Inr (Some (control_text m))) tw0 = Inr t1 \<and>
      (\<exists>t2. checksum_loop env ?b (Files m) (hash_list ?b) (Some []) t1 = Inr t2 \<and>
      (\<exists>t3. write_rendered env ?b ''conffiles'' False
               (Inr (if filter IsConf (Files m) = [] then None else Some (conffiles_text (Files m)))) t2 = Inr t3 \<and>
      (\<exists>t4. write_rendered env ?b ''preinst'' True
               (Inr (if PreInstall m = [] then None else Some (script_text (PreInstall m)))) t3 = Inr t4 \<and>
      (\<exists>t5. write_rendered env ?b ''postinst'' True
               (Inr (if PostInstall m = [] then None else Some (script_text (PostInstall m)))) t4 = Inr t5 \<and>
      (\<exists>t6. write_rendered env ?b ''prerm'' True
               (Inr (if PreRemove m = [] then None else Some (script_text (PreRemove m)))) t5 = Inr t6 \<and>
      (\<exists>t7. write_rendered env ?b ''postrm'' True
               (Inr (if PostRemove m = [] then None else Some (script_text (PostRemove m)))) t6 = Inr t7 \<and>
             tar_Close t7 = Inr tw)))))))"
    using assms
    by (simp add: control_archive_def Let_def and_then_Inr ControlFile_eq ConfFiles_eq
        PreInstallScript_def PostInstallScript_def PreRemoveScript_def PostRemoveScript_def
        script_eq Grow_def)
  also have "\<dots> \<longleftrightarrow>
      2 * length (?m1 @ ?m2 @ ?m3 @ ?m4 @ ?m5 @ ?m6 @ ?m7) + 1 \<le> credit w \<and>
      tw = grown tw0 (?m1 @ ?m2 @ ?m3 @ ?m4 @ ?m5 @ ?m6 @ ?m7)
             (2 * length (?m1 @ ?m2 @ ?m3 @ ?m4 @ ?m5 @ ?m6 @ ?m7) + 1)"
    by (auto simp: write_rendered_iff checksum_loop_iff tar_Close_iff tw0 optional_control
        optional_conffiles optional_script)
  finally show ?thesis by (simp only: ms)
qed

lemma control_archive_Inr:
  assumes "control_archive env b w m = Inr tw"
  shows "isResolved m" "isHashed m"
    and "\<exists>tw0. NewWriter env (Compression (fillDefaults b)) w = Inr tw0"
proof -
  from assms show r: "isResolved m" by (auto simp: control_archive_def split: if_splits)
  from assms show h: "isHashed m" by (auto simp: control_archive_def split: if_splits)
  from assms r h show "\<exists>tw0. NewWriter env (Compression (fillDefaults b)) w = Inr tw0"
    by (cases "NewWriter env (Compression (fillDefaults b)) w")
       (simp_all add: control_archive_def Let_def and_then_def)
qed

lemma control_archive_members:
  assumes "control_archive env b w m = Inr tw"
  shows "members tw = control_members env (fillDefaults b) m"
    and "compression tw = Compression (fillDefaults b)"
    and "written (under tw) = written w"
proof -
  from control_archive_Inr [OF assms] obtain tw0 where
    c: "isResolved m" "isHashed m" "NewWriter env (Compression (fillDefaults b)) w = Inr tw0"
    by blast
  from control_archive_iff [OF c, of tw] assms
  have tw: "tw = grown tw0 (control_members env (fillDefaults b) m)
                  (2 * length (control_members env (fillDefaults b) m) + 1)" by blast
  from NewWriter_Inr [OF c(3)] tw
  show "members tw = control_members env (fillDefaults b) m"
    and "compression tw = Compression (fillDefaults b)"
    and "written (under tw) = written w"
    by simp_all
qed

lemma BuildControlTarball_Inr:
  assumes "BuildControlTarball env b w m = Inr w'"
  shows "written w' = written w @ stream_bytes env (Compression (fillDefaults b))
                                     (control_members env (fillDefaults b) m)"
proof -
  from assms obtain tw where tw: "control_archive env b w m = Inr tw" "compress_Close env tw = Inr w'"
    by (auto simp: BuildControlTarball_def and_then_Inr)
  from tw(2) have "written w' = written (under tw) @ stream_bytes env (compression tw) (members tw)"
    by (auto simp: compress_Close_def split: if_splits)
  with control_archive_members [OF tw(1)] show ?thesis by simp
qed

lemma length_control_members:
  "length (control_members env b m) \<le> length (hash_list b) + 6"
  by (simp add: control_members_def script_member_def)

lemma BuildControlTarball_succeeds:
  assumes "isResolved m" "isHashed m" "NewWriter env (Compression (fillDefaults b)) w = Inr tw0"
    and "2 * length (hash_list (fillDefaults b)) + 14 \<le> credit w"
  shows "\<exists>w'. BuildControlTarball env b w m = Inr w'"
proof -
  let ?ms = "control_members env (fillDefaults b) m"
  let ?tw = "grown tw0 ?ms (2 * length ?ms + 1)"
  from length_control_members [of env "fillDefaults b" m] assms(4)
  have c: "2 * length ?ms + 2 \<le> credit w" by simp
  then have "control_archive env b w m = Inr ?tw"
    using control_archive_iff [OF assms(1-3), of ?tw] by simp
  moreover have "credit (under ?tw) \<noteq> 0"
    using c NewWriter_Inr [OF assms(3)] by simp
  ultimately show ?thesis
    by (simp add: BuildControlTarball_def and_then_def compress_Close_def)
qed

lemma BuildControlTarball_panics:
  assumes "\<not> isResolved m \<or> \<not> isHashed m"
  shows "\<exists>msg. BuildControlTarball env b w m = Inl (Fatal msg)"
  using assms by (auto simp: BuildControlTarball_def control_archive_def and_then_def)

lemma minimal_data:
  "\<exists>w'. BuildDataTarball plain_env Builder_zero plenty minimal_resolved = Inr (w', minimal_hashed)"
  by (simp add: BuildDataTarball_def data_archive_def minimal_resolved_def minimal_hashed_def
      minimal_manifest_def Manifest_zero_def File_zero_def
      fillDefaults_def Builder_zero_def plain_env_def NewWriter_def Let_def enum_defs
      data_step_def AsTarHeader_def owner_ids_def type_fields_def WriteHeader_def spend_def plenty_def
      header_only_def Reader_def hash_list_def standardHashes_def implemented_def tar_Write_def
      tar_Close_def compress_Close_def IsZero_def Time_zero_def nl_def tar_TypeReg_def Owner_zero_def
      OwnerByID_def OwnerByName_def OwnerUnspecified_def word_sless_alt)

section \<open>The members of the control partition\<close>

text \<open>
  C4 (as amended). When \<open>BuildControlTarball\<close> succeeds, the control partition is the
  stream of an archive with these members, in this order: \<open>control\<close> with the control-file
  text; one checksum file for each algorithm of the builder; \<open>conffiles\<close>, if some entry is
  marked as a configuration file, with the names of those entries, each followed by a
  newline; then \<open>preinst\<close>, \<open>postinst\<close>, \<open>prerm\<close> and \<open>postrm\<close>, each if its list of lines is not
  empty, with the preamble and then the lines, each followed by a newline. The scripts
  have mode \<open>0755\<close> and the other members \<open>0644\<close>, on top of the file-type bits.
\<close>

theorem BuildControlTarball_members:
  assumes "BuildControlTarball env builder w manifest = Inr w'"
  shows "written w' =
           written w @ stream_bytes env (Compression (fillDefaults builder))
             ([control_member env (fillDefaults builder) ''control'' False (control_text manifest)]
              @ map (\<lambda>a. control_member env (fillDefaults builder) (FileName a) False
                          (checksum_text (Files manifest) a))
                  (hash_list (fillDefaults builder))
              @ (if filter IsConf (Files manifest) = [] then []
                 else [control_member env (fillDefaults builder) ''conffiles'' False
                         (concat (map (\<lambda>file. Name file @ nl) (filter IsConf (Files manifest))))])
              @ concat (map (\<lambda>(name, lines).
                    if lines = [] then []
                    else [control_member env (fillDefaults builder) name True
                            (''#!/bin/bash'' @ nl @ ''set -euo pipefail'' @ nl @ ''umask 022'' @ nl
                               @ ''cd /'' @ nl @ concat (map (\<lambda>line. line @ nl) lines))])
                  [(''preinst'', PreInstall manifest), (''postinst'', PostInstall manifest),
                   (''prerm'', PreRemove manifest), (''postrm'', PostRemove manifest)])) \<and>
         Mode (fst (control_member env (fillDefaults builder) name True text)) = unixModeREG env OR 493 \<and>
         Mode (fst (control_member env (fillDefaults builder) name False text)) = unixModeREG env OR 420"
proof -
  have "control_members env (fillDefaults builder) manifest =
      [control_member env (fillDefaults builder) ''control'' False (control_text manifest)]
              @ map (\<lambda>a. control_member env (fillDefaults builder) (FileName a) False
                          (checksum_text (Files manifest) a))
                  (hash_list (fillDefaults builder))
              @ (if filter IsConf (Files manifest) = [] then []
                 else [control_member env (fillDefaults builder) ''conffiles'' False
                         (concat (map (\<lambda>file. Name file @ nl) (filter IsConf (Files manifest))))])
              @ concat (map (\<lambda>(name, lines).
                    if lines = [] then []
                    else [control_member env (fillDefaults builder) name True
                            (''#!/bin/bash'' @ nl @ ''set -euo pipefail'' @ nl @ ''umask 022'' @ nl
                               @ ''cd /'' @ nl @ concat (map (\<lambda>line. line @ nl) lines))])
                  [(''preinst'', PreInstall manifest), (''postinst'', PostInstall manifest),
                   (''prerm'', PreRemove manifest), (''postrm'', PostRemove manifest)])"
    by (simp add: control_members_def script_member_def script_text_def conffiles_text_def)
  with BuildControlTarball_Inr [OF assms] show ?thesis
    by (simp add: control_member_def control_header_def)
qed

theorem BuildControlTarball_members_witness:
  "\<exists>w'. BuildControlTarball plain_env Builder_zero plenty conf_hashed = Inr w' \<and>
        written w' =
          ''gzip:'' @ concat (map (\<lambda>(name, d). name @ ''='' @ d)
            [(''control'', control_text conf_hashed),
             (''md5sum'', checksum_text (Files conf_hashed) HashMD5),
             (''sha1sum'', checksum_text (Files conf_hashed) HashSHA1),
             (''sha256sum'', checksum_text (Files conf_hashed) HashSHA256),
             (''conffiles'', ''hello'' @ nl),
             (''postinst'', ''#!/bin/bash'' @ nl @ ''set -euo pipefail'' @ nl @ ''umask 022'' @ nl
                @ ''cd /'' @ nl @ ''ldconfig'' @ nl)]) \<and>
        Mode (fst (control_member plain_env (fillDefaults Builder_zero) ''postinst'' True [])) = 33261 \<and>
        Mode (fst (control_member plain_env (fillDefaults Builder_zero) ''conffiles'' False [])) = 33188"
proof -
  have f: "filter IsConf (Files conf_hashed) = Files conf_hashed"
    "map Name (Files conf_hashed) = [''hello'']"
    "PreInstall conf_hashed = []" "PostInstall conf_hashed = [''ldconfig'']"
    "PreRemove conf_hashed = []" "PostRemove conf_hashed = []"
    "isResolved conf_hashed" "isHashed conf_hashed" "Files conf_hashed \<noteq> []"
    by (simp_all add: conf_hashed_def minimal_hashed_def minimal_resolved_def minimal_manifest_def
        Manifest_zero_def File_zero_def)
  have n: "NewWriter plain_env (Compression (fillDefaults Builder_zero)) plenty =
      Inr \<lparr>compression = CompressGZIP, under = plenty, members = [], nb = 0\<rparr>"
    by (simp add: NewWriter_def fillDefaults_def Builder_zero_def plain_env_def enum_defs)
  have c: "2 * length (hash_list (fillDefaults Builder_zero)) + 14 \<le> credit plenty"
    by (simp add: hash_list_def fillDefaults_def Builder_zero_def standardHashes_def plenty_def)
  from BuildControlTarball_succeeds [OF f(7) f(8) n c] obtain w' where
    w: "BuildControlTarball plain_env Builder_zero plenty conf_hashed = Inr w'" by blast
  have names: "concat (map (\<lambda>file. Name file @ nl) (Files conf_hashed)) = ''hello'' @ nl"
    using f(2) by (simp add: conf_hashed_def minimal_hashed_def)
  note t = BuildControlTarball_members [OF w, of "''postinst''" "[]"]
  from t have "written w' =
          ''gzip:'' @ concat (map (\<lambda>(name, d). name @ ''='' @ d)
            [(''control'', control_text conf_hashed),
             (''md5sum'', checksum_text (Files conf_hashed) HashMD5),
             (''sha1sum'', checksum_text (Files conf_hashed) HashSHA1),
             (''sha256sum'', checksum_text (Files conf_hashed) HashSHA256),
             (''conffiles'', ''hello'' @ nl),
             (''postinst'', ''#!/bin/bash'' @ nl @ ''set -euo pipefail'' @ nl @ ''umask 022'' @ nl
                @ ''cd /'' @ nl @ ''ldconfig'' @ nl)])"
    by (simp add: f names stream_bytes_def control_member_def control_header_def plenty_def
        hash_list_def standardHashes_def FileName_def hashFileNameArray_def enum_defs
        Compress_String_def compressNameArray_def)
       (simp add: fillDefaults_def Builder_zero_def plain_env_def enum_defs hash_list_def
        standardHashes_def FileName_def hashFileNameArray_def Compress_String_def
        compressNameArray_def)
  moreover have "Mode (fst (control_member plain_env (fillDefaults Builder_zero) ''postinst'' True [])) = 33261"
    "Mode (fst (control_member plain_env (fillDefaults Builder_zero) ''conffiles'' False [])) = 33188"
    by (simp_all add: control_member_def control_header_def plain_env_def)
  ultimately show ?thesis using w by blast
qed

text \<open>
  The claim as stated fails for a manifest without configuration files: \<open>ConfFiles\<close> returns
  \<open>nil\<close>, and \<open>writeControlFile\<close> writes nothing for \<open>nil\<close>, so the control partition has no
  member \<open>conffiles\<close>. And the names in \<open>conffiles\<close> are not joined by newlines: each one is
  followed by a newline.
\<close>

theorem conffiles_counterexample:
  "isResolved minimal_hashed \<and> isHashed minimal_hashed \<and>
   ConfFiles minimal_hashed = Inr None \<and>
   (\<exists>w'. BuildControlTarball plain_env Builder_zero plenty minimal_hashed = Inr w' \<and>
        written w' =
          ''gzip:'' @ concat (map (\<lambda>(name, d). name @ ''='' @ d)
            [(''control'', control_text minimal_hashed),
             (''md5sum'', checksum_text (Files minimal_hashed) HashMD5),
             (''sha1sum'', checksum_text (Files minimal_hashed) HashSHA1),
             (''sha256sum'', checksum_text (Files minimal_hashed) HashSHA256)])) \<and>
   ConfFiles conf_hashed = Inr (Some (''hello'' @ nl))"
proof -
  have f: "filter IsConf (Files minimal_hashed) = []"
    "PreInstall minimal_hashed = []" "PostInstall minimal_hashed = []"
    "PreRemove minimal_hashed = []" "PostRemove minimal_hashed = []"
    "isResolved minimal_hashed" "isHashed minimal_hashed"
    by (simp_all add: minimal_hashed_def minimal_resolved_def minimal_manifest_def
        Manifest_zero_def File_zero_def)
  have g: "filter IsConf (Files conf_hashed) = Files conf_hashed" "isResolved conf_hashed"
    "map Name (Files conf_hashed) = [''hello'']" "Files conf_hashed \<noteq> []"
    by (simp_all add: conf_hashed_def minimal_hashed_def minimal_resolved_def minimal_manifest_def
        Manifest_zero_def File_zero_def)
  have n: "NewWriter plain_env (Compression (fillDefaults Builder_zero)) plenty =
      Inr \<lparr>compression = CompressGZIP, under = plenty, members = [], nb = 0\<rparr>"
    by (simp add: NewWriter_def fillDefaults_def Builder_zero_def plain_env_def enum_defs)
  have c: "2 * length (hash_list (fillDefaults Builder_zero)) + 14 \<le> credit plenty"
    by (simp add: hash_list_def fillDefaults_def Builder_zero_def standardHashes_def plenty_def)
  from BuildControlTarball_succeeds [OF f(6) f(7) n c] obtain w' where
    w: "BuildControlTarball plain_env Builder_zero plenty minimal_hashed = Inr w'" by blast
  from BuildControlTarball_Inr [OF w] have "written w' =
          ''gzip:'' @ concat (map (\<lambda>(name, d). name @ ''='' @ d)
            [(''control'', control_text minimal_hashed),
             (''md5sum'', checksum_text (Files minimal_hashed) HashMD5),
             (''sha1sum'', checksum_text (Files minimal_hashed) HashSHA1),
             (''sha256sum'', checksum_text (Files minimal_hashed) HashSHA256)])"
    by (simp add: f control_members_def script_member_def stream_bytes_def control_member_def
        control_header_def plenty_def)
       (simp add: fillDefaults_def Builder_zero_def plain_env_def enum_defs hash_list_def
        standardHashes_def FileName_def hashFileNameArray_def Compress_String_def
        compressNameArray_def)
  moreover have "ConfFiles minimal_hashed = Inr None"
    by (simp add: ConfFiles_eq f)
  moreover have "conffiles_text (Files conf_hashed) = ''hello'' @ nl"
    by (simp add: conffiles_text_def conf_hashed_def minimal_hashed_def File_zero_def)
  then have "ConfFiles conf_hashed = Inr (Some (''hello'' @ nl))"
    by (simp add: ConfFiles_eq g(1,2,4))
  ultimately show ?thesis using w f(6,7) by blast
qed

lemma NewWriter_other:
  assumes "NewWriter env c w = Inr tw"
  shows "NewWriter env c w2 = Inr \<lparr>compression = c, under = w2, members = [], nb = 0\<rparr>"
  using assms by (auto simp: NewWriter_def Let_def split: if_splits)

lemma BuildDataTarball_Inr:
  assumes "BuildDataTarball env b w m = Inr (w1, hashed)"
  shows "isResolved m" "isResolved hashed" "isHashed hashed"
    and "\<exists>tw0. NewWriter env (Compression (fillDefaults b)) w = Inr tw0"
    and "\<exists>tw0 tw. NewWriter env (Compression (fillDefaults b)) w = Inr tw0 \<and>
           data_loop env (fillDefaults b) 0 (Files m) tw0 = Inr (Files hashed, tw) \<and>
           written w1 = written (under tw) @ stream_bytes env (compression tw) (members tw)"
    and "hashed = m\<lparr>Files := Files hashed, isHashed := True\<rparr>"
proof -
  from assms obtain files' tw2 where
    d: "data_archive env b w m = Inr (files', tw2)" and c: "compress_Close env tw2 = Inr w1"
    and h: "hashed = m\<lparr>Files := files', isHashed := True\<rparr>"
    by (auto simp: BuildDataTarball_def split: sum.splits prod.splits)
  from d show r: "isResolved m" by (auto simp: data_archive_def split: if_splits)
  from r h show "isResolved hashed" "isHashed hashed" by simp_all
  from h show "hashed = m\<lparr>Files := Files hashed, isHashed := True\<rparr>" by simp
  from d r obtain tw0 tw1 where
    n: "NewWriter env (Compression (fillDefaults b)) w = Inr tw0"
    and l: "data_loop env (fillDefaults b) 0 (Files m) tw0 = Inr (files', tw1)"
    and t: "tar_Close tw1 = Inr tw2"
    by (auto simp: data_archive_def Let_def split: sum.splits prod.splits)
  from n show "\<exists>tw0. NewWriter env (Compression (fillDefaults b)) w = Inr tw0" by blast
  from t have t2: "tw2 = spend tw1" by (auto simp: tar_Close_def split: if_splits)
  from c have "written w1 = written (under tw2) @ stream_bytes env (compression tw2) (members tw2)"
    by (auto simp: compress_Close_def split: if_splits)
  with t2 have "written w1 = written (under tw1) @ stream_bytes env (compression tw1) (members tw1)"
    by (simp add: spend_def)
  with n l h
  show "\<exists>tw0 tw. NewWriter env (Compression (fillDefaults b)) w = Inr tw0 \<and>
           data_loop env (fillDefaults b) 0 (Files m) tw0 = Inr (Files hashed, tw) \<and>
           written w1 = written (under tw) @ stream_bytes env (compression tw) (members tw)"
    by auto
qed

lemma render_panics:
  assumes "\<not> isResolved m"
  shows "is_panic (ControlFile m)" "is_panic (ConfFiles m)" "is_panic (PreInstallScript m)"
    "is_panic (PostInstallScript m)" "is_panic (PreRemoveScript m)" "is_panic (PostRemoveScript m)"
  using assms
  by (simp_all add: ControlFile_def ConfFiles_def PreInstallScript_def PostInstallScript_def
      PreRemoveScript_def PostRemoveScript_def script_def)

lemma render_ok:
  assumes "isResolved m"
  shows "is_ok (ControlFile m)" "is_ok (ConfFiles m)" "is_ok (PreInstallScript m)"
    "is_ok (PostInstallScript m)" "is_ok (PreRemoveScript m)" "is_ok (PostRemoveScript m)"
  using assms
  by (simp_all add: ControlFile_eq ConfFiles_eq PreInstallScript_def PostInstallScript_def
      PreRemoveScript_def PostRemoveScript_def script_eq)

section \<open>The order of the phases\<close>

text \<open>
  C7. \<open>BuildControlTarball\<close> panics on a manifest that \<open>BuildDataTarball\<close> has not marked as
  hashed, and each rendering method (\<open>ControlFile\<close>, \<open>ConfFiles\<close> and the four script
  renderers) panics on a manifest that is not resolved. On the manifest that \<open>Resolve\<close> has
  returned the rendering methods return their text, and on the manifest that a successful
  \<open>BuildDataTarball\<close> has returned, with the same environment and builder,
  \<open>BuildControlTarball\<close> succeeds, provided that the writer does not fail (it performs two
  operations for each member and two more).
\<close>

theorem phase_order:
  "(\<not> isHashed unhashed \<longrightarrow> is_panic (BuildControlTarball env builder w unhashed)) \<and>
   (\<not> isResolved fresh \<longrightarrow>
      is_panic (ControlFile fresh) \<and> is_panic (ConfFiles fresh) \<and>
      is_panic (PreInstallScript fresh) \<and> is_panic (PostInstallScript fresh) \<and>
      is_panic (PreRemoveScript fresh) \<and> is_panic (PostRemoveScript fresh)) \<and>
   (Manifest_Resolve manifest0 root = Inr resolved \<longrightarrow>
      is_ok (ControlFile resolved) \<and> is_ok (ConfFiles resolved) \<and>
      is_ok (PreInstallScript resolved) \<and> is_ok (PostInstallScript resolved) \<and>
      is_ok (PreRemoveScript resolved) \<and> is_ok (PostRemoveScript resolved)) \<and>
   (BuildDataTarball env builder w1 manifest = Inr (w1', hashed) \<and>
    2 * length (hash_list (fillDefaults builder)) + 14 \<le> credit w2 \<longrightarrow>
      is_ok (BuildControlTarball env builder w2 hashed))"
proof (intro conjI impI)
  assume "\<not> isHashed unhashed"
  then have "\<exists>msg. BuildControlTarball env builder w unhashed = Inl (Fatal msg)"
    by (intro BuildControlTarball_panics) simp
  then show "is_panic (BuildControlTarball env builder w unhashed)" by auto
next
  assume n: "\<not> isResolved fresh"
  from render_panics [OF n]
  show "is_panic (ControlFile fresh)" "is_panic (ConfFiles fresh)"
    "is_panic (PreInstallScript fresh)" "is_panic (PostInstallScript fresh)"
    "is_panic (PreRemoveScript fresh)" "is_panic (PostRemoveScript fresh)" .
next
  assume "Manifest_Resolve manifest0 root = Inr resolved"
  from Manifest_Resolve_Inr [OF this] have r: "isResolved resolved" by blast
  from render_ok [OF r]
  show "is_ok (ControlFile resolved)" "is_ok (ConfFiles resolved)"
    "is_ok (PreInstallScript resolved)" "is_ok (PostInstallScript resolved)"
    "is_ok (PreRemoveScript resolved)" "is_ok (PostRemoveScript resolved)" .
next
  assume a: "BuildDataTarball env builder w1 manifest = Inr (w1', hashed) \<and>
    2 * length (hash_list (fillDefaults builder)) + 14 \<le> credit w2"
  then have d: "BuildDataTarball env builder w1 manifest = Inr (w1', hashed)" by simp
  from BuildDataTarball_Inr(4) [OF d] obtain tw0 where
    "NewWriter env (Compression (fillDefaults builder)) w1 = Inr tw0" by blast
  from NewWriter_other [OF this]
  have n: "NewWriter env (Compression (fillDefaults builder)) w2 =
      Inr \<lparr>compression = Compression (fillDefaults builder), under = w2, members = [], nb = 0\<rparr>" .
  from a have c: "2 * length (hash_list (fillDefaults builder)) + 14 \<le> credit w2" by simp
  from BuildControlTarball_succeeds [OF BuildDataTarball_Inr(2) [OF d] BuildDataTarball_Inr(3) [OF d] n c]
  show "is_ok (BuildControlTarball env builder w2 hashed)" by auto
qed

theorem phase_order_witness:
  "\<not> isHashed minimal_resolved \<and>
   is_panic (BuildControlTarball plain_env Builder_zero plenty minimal_resolved) \<and>
   \<not> isResolved minimal_manifest \<and>
   is_panic (ControlFile minimal_manifest) \<and> is_panic (ConfFiles minimal_manifest) \<and>
   is_panic (PostInstallScript minimal_manifest) \<and>
   is_ok (ControlFile minimal_resolved) \<and> is_ok (ConfFiles minimal_resolved) \<and>
   is_ok (PostInstallScript minimal_resolved) \<and>
   is_ok (BuildControlTarball plain_env Builder_zero plenty minimal_hashed)"
proof -
  obtain w1' where
    d: "BuildDataTarball plain_env Builder_zero plenty minimal_resolved = Inr (w1', minimal_hashed)"
    using minimal_data by blast
  have c: "2 * length (hash_list (fillDefaults Builder_zero)) + 14 \<le> credit plenty"
    by (simp add: hash_list_def fillDefaults_def Builder_zero_def standardHashes_def plenty_def)
  have u: "\<not> isHashed minimal_resolved" "\<not> isResolved minimal_manifest"
    by (simp_all add: minimal_resolved_def minimal_manifest_def Manifest_zero_def)
  note t = phase_order [of minimal_resolved plain_env Builder_zero plenty minimal_manifest
      minimal_manifest empty_fs minimal_resolved plenty minimal_resolved w1' minimal_hashed plenty]
  from t u d c minimal_Resolve show ?thesis by blast
qed

end
